theory Spec2Isabelle
  imports Main "HOL-Library.Word"
begin

unbundle bit_operations_syntax

section \<open>Data model (Source/Inc/os_core.h)\<close>

text \<open>
  A pointer to a task control block is an optional address: \<open>None\<close> is \<open>NULL\<close> and
  \<open>Some a\<close> is the block stored at address \<open>a\<close> of the TCB store. Priorities are
  \<open>uint8_t\<close> in the source; the kernel only copies and compares them, so they are
  natural numbers here. Tick counts, the nesting counter and the priority bitmap are
  \<open>uint32_t\<close> and wrap around.
\<close>

type_synonym ptr = "nat option"

definition OS_MAX_PRIO :: nat where
  "OS_MAX_PRIO = 32"

definition IDLE_STACK_SIZE :: "32 word" where
  "IDLE_STACK_SIZE = 128"

definition OS_STACK_MAGIC_VAL :: "32 word" where
  "OS_STACK_MAGIC_VAL = 0xDEADBEEF"

datatype OS_Status =
    OS_OK | OS_ERR_PARAM | OS_ERR_TIMEOUT | OS_ERR_RESOURCE
  | OS_ERR_NOT_OWNER | OS_ERR_NESTING | OS_ERR_Q_FULL
  | OS_ERR_INVALID_ADDR | OS_ERR_NOT_ALIGN | OS_ERR_ISR

datatype OS_TaskState = TASK_READY | TASK_BLOCKED | TASK_DELETED

record OS_TCB =
  stackPtr :: "32 word"
  stackLimit :: "32 word"
  Prev :: ptr
  Next :: ptr
  State :: OS_TaskState
  DelayTicks :: "32 word"
  Priority :: nat
  OriginalPrio :: nat

record OS_List =
  Head :: ptr
  Tail :: ptr

record OS_Sem =
  count :: "16 word"
  Sem_WaitList :: OS_List

record OS_Mutex =
  Owner :: ptr
  Mutex_WaitList :: OS_List
  NestCount :: "8 word"
  Mutex_OriginalPrio :: nat

text \<open>
  The queue's storage is the byte array \<open>Buffer\<close> points to, indexed by the offset from
  its start. \<open>Q_Head\<close> and \<open>Q_Tail\<close> are the fields \<open>Head\<close> and \<open>Tail\<close> of
  \<open>struct Queue\<close>.
\<close>

record OS_Queue =
  Buffer :: "nat \<Rightarrow> 8 word"
  MsgSize :: "16 word"
  QSize :: "16 word"
  MsgCount :: "16 word"
  Q_Head :: "16 word"
  Q_Tail :: "16 word"
  WaitReadList :: OS_List

text \<open>
  Pool blocks are raw addresses (the code does arithmetic on them); address 0 is \<open>NULL\<close>.
  \<open>Link\<close> is the first word of each block, where the free list is chained.
\<close>

record OS_Mem =
  Addr :: "32 word"
  FreeList :: "32 word"
  BlockSize :: "32 word"
  TotalBlocks :: "32 word"
  FreeBlocks :: "32 word"
  Mem_WaitList :: OS_List
  Link :: "32 word \<Rightarrow> 32 word"

text \<open>
  The kernel state: the globals of os_core.c, the store of task control blocks, the
  word at each stack base (for the overflow sentinel), the user-allocated
  synchronisation objects by address, and the two bits of the CPU port the kernel
  drives (global interrupt enable, pending software interrupt).
\<close>

record kernel =
  TCBs :: "nat \<Rightarrow> OS_TCB"
  StackMem :: "32 word \<Rightarrow> 32 word"
  g_SystemTickCount :: "32 word"
  g_CriticalNesting :: "32 word"
  g_PrioMap :: "32 word"
  g_OSRunning :: bool
  ReadyList :: "nat \<Rightarrow> OS_List"
  DelayList :: OS_List
  CurrentTCB :: ptr
  NextTCB :: ptr
  IRQ_Enabled :: bool
  SWI_Pending :: bool
  Sems :: "nat \<Rightarrow> OS_Sem"
  Mutexes :: "nat \<Rightarrow> OS_Mutex"
  Queues :: "nat \<Rightarrow> OS_Queue"
  Pools :: "nat \<Rightarrow> OS_Mem"

text \<open>
  Execution stops at a failed \<open>OS_ASSERT\<close> (\<open>OS_AssertFailed\<close> never returns), at an
  access through a null pointer, at an index outside \<open>ReadyList\<close> and at a division by
  zero. A stopped execution is \<open>Inl (f, s)\<close>, with \<open>s\<close> the state at the point where it
  stopped.
\<close>

datatype fault = AssertFailed | NullDeref | OutOfBounds | DivByZero

type_synonym 'a result = "(fault \<times> kernel) + 'a"

definition bindR :: "'a result \<Rightarrow> ('a \<Rightarrow> 'b result) \<Rightarrow> 'b result" where
  "bindR m f = (case m of Inl e \<Rightarrow> Inl e | Inr x \<Rightarrow> f x)"

text \<open>The places an \<open>OS_List *\<close> argument can point to.\<close>

datatype list_ref =
  ReadyRef nat | DelayRef | SemRef nat | MutexRef nat | QueueRef nat | MemRef nat

fun get_list :: "list_ref \<Rightarrow> kernel \<Rightarrow> OS_List" where
  "get_list (ReadyRef p) s = ReadyList s p"
| "get_list DelayRef s = DelayList s"
| "get_list (SemRef i) s = Sem_WaitList (Sems s i)"
| "get_list (MutexRef i) s = Mutex_WaitList (Mutexes s i)"
| "get_list (QueueRef i) s = WaitReadList (Queues s i)"
| "get_list (MemRef i) s = Mem_WaitList (Pools s i)"

fun put_list :: "list_ref \<Rightarrow> OS_List \<Rightarrow> kernel \<Rightarrow> kernel" where
  "put_list (ReadyRef p) l s = s\<lparr>ReadyList := (ReadyList s)(p := l)\<rparr>"
| "put_list DelayRef l s = s\<lparr>DelayList := l\<rparr>"
| "put_list (SemRef i) l s = s\<lparr>Sems := (Sems s)(i := (Sems s i)\<lparr>Sem_WaitList := l\<rparr>)\<rparr>"
| "put_list (MutexRef i) l s =
     s\<lparr>Mutexes := (Mutexes s)(i := (Mutexes s i)\<lparr>Mutex_WaitList := l\<rparr>)\<rparr>"
| "put_list (QueueRef i) l s =
     s\<lparr>Queues := (Queues s)(i := (Queues s i)\<lparr>WaitReadList := l\<rparr>)\<rparr>"
| "put_list (MemRef i) l s = s\<lparr>Pools := (Pools s)(i := (Pools s i)\<lparr>Mem_WaitList := l\<rparr>)\<rparr>"

text \<open>Writes to one field of the block at address \<open>t\<close>.\<close>

definition set_Prev :: "nat \<Rightarrow> ptr \<Rightarrow> kernel \<Rightarrow> kernel" where
  "set_Prev t v s = s\<lparr>TCBs := (TCBs s)(t := (TCBs s t)\<lparr>Prev := v\<rparr>)\<rparr>"

definition set_Next :: "nat \<Rightarrow> ptr \<Rightarrow> kernel \<Rightarrow> kernel" where
  "set_Next t v s = s\<lparr>TCBs := (TCBs s)(t := (TCBs s t)\<lparr>Next := v\<rparr>)\<rparr>"

definition set_State :: "nat \<Rightarrow> OS_TaskState \<Rightarrow> kernel \<Rightarrow> kernel" where
  "set_State t v s = s\<lparr>TCBs := (TCBs s)(t := (TCBs s t)\<lparr>State := v\<rparr>)\<rparr>"

definition set_DelayTicks :: "nat \<Rightarrow> 32 word \<Rightarrow> kernel \<Rightarrow> kernel" where
  "set_DelayTicks t v s = s\<lparr>TCBs := (TCBs s)(t := (TCBs s t)\<lparr>DelayTicks := v\<rparr>)\<rparr>"

definition set_Priority :: "nat \<Rightarrow> nat \<Rightarrow> kernel \<Rightarrow> kernel" where
  "set_Priority t v s = s\<lparr>TCBs := (TCBs s)(t := (TCBs s t)\<lparr>Priority := v\<rparr>)\<rparr>"

section \<open>CPU port (Source/Portable/RISC-V QingkeV4/os_cpu.c)\<close>

definition OS_MapTable :: "nat list" where
  "OS_MapTable =
   [0, 0, 1, 0, 2, 0, 1, 0, 3, 0, 1, 0, 2, 0, 1, 0,
    4, 0, 1, 0, 2, 0, 1, 0, 3, 0, 1, 0, 2, 0, 1, 0,
    5, 0, 1, 0, 2, 0, 1, 0, 3, 0, 1, 0, 2, 0, 1, 0,
    4, 0, 1, 0, 2, 0, 1, 0, 3, 0, 1, 0, 2, 0, 1, 0,
    6, 0, 1, 0, 2, 0, 1, 0, 3, 0, 1, 0, 2, 0, 1, 0,
    4, 0, 1, 0, 2, 0, 1, 0, 3, 0, 1, 0, 2, 0, 1, 0,
    5, 0, 1, 0, 2, 0, 1, 0, 3, 0, 1, 0, 2, 0, 1, 0,
    4, 0, 1, 0, 2, 0, 1, 0, 3, 0, 1, 0, 2, 0, 1, 0,
    7, 0, 1, 0, 2, 0, 1, 0, 3, 0, 1, 0, 2, 0, 1, 0,
    4, 0, 1, 0, 2, 0, 1, 0, 3, 0, 1, 0, 2, 0, 1, 0,
    5, 0, 1, 0, 2, 0, 1, 0, 3, 0, 1, 0, 2, 0, 1, 0,
    4, 0, 1, 0, 2, 0, 1, 0, 3, 0, 1, 0, 2, 0, 1, 0,
    6, 0, 1, 0, 2, 0, 1, 0, 3, 0, 1, 0, 2, 0, 1, 0,
    4, 0, 1, 0, 2, 0, 1, 0, 3, 0, 1, 0, 2, 0, 1, 0,
    5, 0, 1, 0, 2, 0, 1, 0, 3, 0, 1, 0, 2, 0, 1, 0,
    4, 0, 1, 0, 2, 0, 1, 0, 3, 0, 1, 0, 2, 0, 1, 0]"

text \<open>
  \<open>OS_GetTopPrio\<close> returns \<open>uint8_t\<close>; its largest value is \<open>24 + 7\<close>, so nothing wraps.
\<close>

definition OS_GetTopPrio :: "32 word \<Rightarrow> nat" where
  "OS_GetTopPrio PrioMap =
    (if PrioMap AND 0xFF \<noteq> 0 then OS_MapTable ! unat (PrioMap AND 0xFF)
     else if PrioMap AND 0xFF00 \<noteq> 0 then 8 + OS_MapTable ! unat (drop_bit 8 PrioMap AND 0xFF)
     else if PrioMap AND 0xFF0000 \<noteq> 0 then 16 + OS_MapTable ! unat (drop_bit 16 PrioMap AND 0xFF)
     else 24 + OS_MapTable ! unat (drop_bit 24 PrioMap AND 0xFF))"

text \<open>
  \<open>OS_StackInit\<close>: the top of the stack, aligned down to 16 bytes, less the 32 words of
  the initial frame. The frame's contents (written above the returned pointer) are read
  by the context switch only and are not part of the state.
\<close>

definition OS_StackInit :: "32 word \<Rightarrow> 32 word \<Rightarrow> 32 word \<Rightarrow> 32 word \<Rightarrow> 32 word" where
  "OS_StackInit task_function task_param stack_init_address stack_depth =
     ((stack_init_address + 4 * stack_depth) AND 0xFFFFFFF0) - 4 * 32"

definition OS_Trigger_SWI :: "kernel \<Rightarrow> kernel" where
  "OS_Trigger_SWI s = s\<lparr>SWI_Pending := True\<rparr>"

definition OS_Enable_IRQ :: "kernel \<Rightarrow> kernel" where
  "OS_Enable_IRQ s = s\<lparr>IRQ_Enabled := True\<rparr>"

definition OS_Disable_IRQ :: "kernel \<Rightarrow> kernel" where
  "OS_Disable_IRQ s = s\<lparr>IRQ_Enabled := False\<rparr>"

section \<open>Intrusive list (Source/Src/os_core.c)\<close>

definition List_Init :: "list_ref \<Rightarrow> kernel \<Rightarrow> kernel" where
  "List_Init list s = put_list list \<lparr>Head = None, Tail = None\<rparr> s"

definition List_InsertTail :: "list_ref \<Rightarrow> ptr \<Rightarrow> kernel \<Rightarrow> kernel result" where
  "List_InsertTail list tcb s =
     (case tcb of
        None \<Rightarrow> Inl (AssertFailed, s)
      | Some t \<Rightarrow>
          let s1 = set_Next t None s in
          (case Head (get_list list s1) of
             None \<Rightarrow>
               Inr (set_Prev t None (put_list list \<lparr>Head = Some t, Tail = Some t\<rparr> s1))
           | Some h \<Rightarrow>
               (case Tail (get_list list s1) of
                  None \<Rightarrow> Inl (NullDeref, s1)
                | Some old_tail \<Rightarrow>
                    let s2 = set_Next old_tail (Some t) s1;
                        s3 = set_Prev t (Tail (get_list list s2)) s2
                    in Inr (put_list list ((get_list list s3)\<lparr>Tail := Some t\<rparr>) s3))))"

definition List_Remove :: "list_ref \<Rightarrow> ptr \<Rightarrow> kernel \<Rightarrow> kernel result" where
  "List_Remove list tcb s =
     (case tcb of
        None \<Rightarrow> Inl (AssertFailed, s)
      | Some t \<Rightarrow>
          let s1 = (case Prev (TCBs s t) of
                      None \<Rightarrow> put_list list ((get_list list s)\<lparr>Head := Next (TCBs s t)\<rparr>) s
                    | Some p \<Rightarrow> set_Next p (Next (TCBs s t)) s);
              s2 = (case Next (TCBs s1 t) of
                      None \<Rightarrow> put_list list ((get_list list s1)\<lparr>Tail := Prev (TCBs s1 t)\<rparr>) s1
                    | Some n \<Rightarrow> set_Prev n (Prev (TCBs s1 t)) s1)
          in Inr (set_Next t None (set_Prev t None s2)))"

definition List_PopHead :: "list_ref \<Rightarrow> kernel \<Rightarrow> (ptr \<times> kernel) result" where
  "List_PopHead list s =
     (let head = Head (get_list list s) in
      if head \<noteq> None then bindR (List_Remove list head s) (\<lambda>s1. Inr (head, s1))
      else Inr (head, s))"

section \<open>Ready set and scheduler\<close>

definition OS_ReadyListAdd :: "ptr \<Rightarrow> kernel \<Rightarrow> kernel result" where
  "OS_ReadyListAdd tcb s =
     (case tcb of
        None \<Rightarrow> Inl (AssertFailed, s)
      | Some t \<Rightarrow>
          let p = Priority (TCBs s t) in
          if OS_MAX_PRIO \<le> p then Inl (OutOfBounds, s)
          else List_InsertTail (ReadyRef p) tcb (s\<lparr>g_PrioMap := g_PrioMap s OR push_bit p 1\<rparr>))"

definition OS_ReadyListRemove :: "ptr \<Rightarrow> kernel \<Rightarrow> kernel result" where
  "OS_ReadyListRemove tcb s =
     (case tcb of
        None \<Rightarrow> Inl (AssertFailed, s)
      | Some t \<Rightarrow>
          let p = Priority (TCBs s t) in
          if OS_MAX_PRIO \<le> p then Inl (OutOfBounds, s)
          else bindR (List_Remove (ReadyRef p) tcb s) (\<lambda>s1.
            if Head (ReadyList s1 (Priority (TCBs s1 t))) = None
            then Inr (s1\<lparr>g_PrioMap := g_PrioMap s1 AND NOT (push_bit (Priority (TCBs s1 t)) 1)\<rparr>)
            else Inr s1))"

definition FindNextTask :: "kernel \<Rightarrow> ptr result" where
  "FindNextTask s =
     (if g_PrioMap s = 0 then Inl (AssertFailed, s)
      else
        let TopPrio = OS_GetTopPrio (g_PrioMap s);
            next_task = Head (ReadyList s TopPrio)
        in if next_task = None then Inl (AssertFailed, s) else Inr next_task)"

definition OS_EnterCritical :: "kernel \<Rightarrow> kernel" where
  "OS_EnterCritical s =
     (let s1 = OS_Disable_IRQ s in s1\<lparr>g_CriticalNesting := g_CriticalNesting s1 + 1\<rparr>)"

definition OS_ExitCritical :: "kernel \<Rightarrow> kernel result" where
  "OS_ExitCritical s =
     (if g_CriticalNesting s = 0 then Inl (AssertFailed, s)
      else
        let s1 = s\<lparr>g_CriticalNesting := g_CriticalNesting s - 1\<rparr>
        in if g_CriticalNesting s1 = 0 then Inr (OS_Enable_IRQ s1) else Inr s1)"

section \<open>Task creation, initialisation and start\<close>

text \<open>
  \<open>task_function\<close>, \<open>task_param\<close> and \<open>stack_init_address\<close> are addresses; 0 is
  \<open>NULL\<close>. \<open>*(tcb->stackLimit) = OS_STACK_MAGIC_VAL\<close> writes the sentinel word at the
  stack base.
\<close>

definition OS_TaskCreate ::
  "ptr \<Rightarrow> 32 word \<Rightarrow> 32 word \<Rightarrow> 32 word \<Rightarrow> 32 word \<Rightarrow> nat \<Rightarrow> kernel \<Rightarrow> (OS_Status \<times> kernel) result"
where
  "OS_TaskCreate tcb task_function task_param stack_init_address stack_depth priority s =
     (case tcb of
        None \<Rightarrow> Inr (OS_ERR_PARAM, s)
      | Some t \<Rightarrow>
          if task_function = 0 \<or> stack_init_address = 0 \<or> priority > OS_MAX_PRIO - 1
          then Inr (OS_ERR_PARAM, s)
          else
            let s1 = s\<lparr>TCBs := (TCBs s)(t := (TCBs s t)
                         \<lparr>stackPtr := OS_StackInit task_function task_param
                                        stack_init_address stack_depth,
                          stackLimit := stack_init_address\<rparr>),
                       StackMem := (StackMem s)(stack_init_address := OS_STACK_MAGIC_VAL)\<rparr>;
                s2 = s1\<lparr>TCBs := (TCBs s1)(t := (TCBs s1 t)
                         \<lparr>State := TASK_READY, DelayTicks := 0,
                          Priority := priority, OriginalPrio := priority\<rparr>)\<rparr>
            in bindR (OS_ReadyListAdd tcb s2) (\<lambda>s3. Inr (OS_OK, s3)))"

text \<open>
  The idle task's control block, function and stack are static objects of os_core.c;
  their addresses are fixed at link time and only have to be non-null.
\<close>

definition IdleTaskTCB :: nat where
  "IdleTaskTCB = 0"

definition IdleTask :: "32 word" where
  "IdleTask = 0x08000400"

definition IdleTaskStack :: "32 word" where
  "IdleTaskStack = 0x20000000"

text \<open>The loop \<open>for (i = 0; i < n; i++) List_Init(&ReadyList[i])\<close>.\<close>

primrec init_ReadyList :: "nat \<Rightarrow> kernel \<Rightarrow> kernel" where
  "init_ReadyList 0 s = s"
| "init_ReadyList (Suc n) s = List_Init (ReadyRef n) (init_ReadyList n s)"

definition OS_Init :: "kernel \<Rightarrow> kernel result" where
  "OS_Init s =
     (let s1 = s\<lparr>g_OSRunning := False, g_SystemTickCount := 0,
                 g_CriticalNesting := 0, g_PrioMap := 0\<rparr>;
          s2 = init_ReadyList OS_MAX_PRIO s1;
          s3 = List_Init DelayRef s2
      in bindR (OS_TaskCreate (Some IdleTaskTCB) IdleTask 0 IdleTaskStack IDLE_STACK_SIZE
                  (OS_MAX_PRIO - 1) s3)
           (\<lambda>r. Inr (snd r)))"

text \<open>
  \<open>OS_StartScheduler\<close> picks the first task and starts it. \<open>OS_Init_Timer\<close> programs the
  tick timer only. Modelled from the spec: \<open>OS_StartFirstTask\<close> is in the port's assembly
  file, which is not among the sources; it hands control to \<open>CurrentTCB\<close>, whose initial
  frame (\<open>MSTATUS_VALUE\<close>) has interrupts enabled.
\<close>

definition OS_StartScheduler :: "kernel \<Rightarrow> kernel result" where
  "OS_StartScheduler s =
     bindR (FindNextTask s) (\<lambda>first.
       Inr (OS_Enable_IRQ (s\<lparr>CurrentTCB := first, g_OSRunning := True\<rparr>)))"

text \<open>
  Modelled from the spec: the software-interrupt handler of the port (assembly, not among
  the sources). When the pending software interrupt is serviced, the port switches from
  \<open>CurrentTCB\<close> to \<open>NextTCB\<close> and commits \<open>CurrentTCB = NextTCB\<close>. It is serviced
  once interrupts are enabled.
\<close>

definition service_SWI :: "kernel \<Rightarrow> kernel" where
  "service_SWI s =
     (if SWI_Pending s \<and> IRQ_Enabled s
      then s\<lparr>CurrentTCB := NextTCB s, SWI_Pending := False\<rparr> else s)"

section \<open>Tick handler\<close>

definition OS_CheckStackOverflow :: "kernel \<Rightarrow> kernel result" where
  "OS_CheckStackOverflow s =
     (case CurrentTCB s of
        None \<Rightarrow> Inr s
      | Some c \<Rightarrow>
          if StackMem s (stackLimit (TCBs s c)) \<noteq> OS_STACK_MAGIC_VAL
             \<or> stackPtr (TCBs s c) \<le> stackLimit (TCBs s c)
          then Inl (AssertFailed, OS_Disable_IRQ s)
          else Inr s)"

text \<open>
  The wake loop, lines 219 to 224:
  \<open>while (DelayList.Head->DelayTicks == 0 && DelayList.Head != NULL)\<close>. The left
  operand is evaluated first, so \<open>DelayTicks\<close> is read through \<open>DelayList.Head\<close> before
  the head is compared with \<open>NULL\<close>; with a null head that read stops the execution.
  The loop need not end on every store, so not returning is the value \<open>None\<close>.
\<close>

partial_function (option) Tick_WakeLoop :: "kernel \<Rightarrow> kernel result option" where
  "Tick_WakeLoop s =
     (case Head (DelayList s) of
        None \<Rightarrow> Some (Inl (NullDeref, s))
      | Some h \<Rightarrow>
          if DelayTicks (TCBs s h) = 0 \<and> Head (DelayList s) \<noteq> None then
            (case List_PopHead DelayRef s of
               Inl e \<Rightarrow> Some (Inl e)
             | Inr (tcb_to_wake, s1) \<Rightarrow>
                 (case tcb_to_wake of
                    None \<Rightarrow> Some (Inl (NullDeref, s1))
                  | Some w \<Rightarrow>
                      (case OS_ReadyListAdd tcb_to_wake (set_State w TASK_READY s1) of
                         Inl e \<Rightarrow> Some (Inl e)
                       | Inr s2 \<Rightarrow> Tick_WakeLoop s2)))
          else Some (Inr s))"

text \<open>The delay processing of the tick handler, lines 215 to 225.\<close>

definition Tick_DelayList :: "kernel \<Rightarrow> kernel result option" where
  "Tick_DelayList s =
     (case Head (DelayList s) of
        None \<Rightarrow> Some (Inr s)
      | Some h \<Rightarrow>
          Tick_WakeLoop
            (if DelayTicks (TCBs s h) > 0
             then set_DelayTicks h (DelayTicks (TCBs s h) - 1) s else s))"

text \<open>The rotation of the current priority band and the scheduling, lines 227 to 241.\<close>

definition Tick_Schedule :: "kernel \<Rightarrow> kernel result" where
  "Tick_Schedule s =
     (case CurrentTCB s of
        None \<Rightarrow> Inl (NullDeref, s)
      | Some c \<Rightarrow>
          let p = Priority (TCBs s c) in
          bindR
            (if State (TCBs s c) = TASK_READY then
               (if OS_MAX_PRIO \<le> p then Inl (OutOfBounds, s)
                else if Head (ReadyList s p) \<noteq> Tail (ReadyList s p) then
                  bindR (List_Remove (ReadyRef p) (Some c) s)
                        (List_InsertTail (ReadyRef p) (Some c))
                else Inr s)
             else Inr s)
            (\<lambda>s1. bindR (FindNextTask s1) (\<lambda>n.
               let s2 = s1\<lparr>NextTCB := n\<rparr>
               in Inr (if NextTCB s2 \<noteq> CurrentTCB s2 then OS_Trigger_SWI s2 else s2))))"

definition OS_Tick_Handler :: "kernel \<Rightarrow> kernel result option" where
  "OS_Tick_Handler s =
     (if \<not> g_OSRunning s then Some (Inr s)
      else if CurrentTCB s = None then Some (Inl (AssertFailed, s))
      else
        (case OS_CheckStackOverflow s of
           Inl e \<Rightarrow> Some (Inl e)
         | Inr s1 \<Rightarrow>
             (case Tick_DelayList (s1\<lparr>g_SystemTickCount := g_SystemTickCount s1 + 1\<rparr>) of
                None \<Rightarrow> None
              | Some (Inl e) \<Rightarrow> Some (Inl e)
              | Some (Inr s2) \<Rightarrow> Some (Tick_Schedule s2))))"

section \<open>Delay\<close>

text \<open>
  The search loop of \<open>OS_Delay\<close>, lines 262 to 266: it returns the node to insert before
  (\<open>None\<close> at the end of the list) and the remaining ticks.
\<close>

partial_function (option) Delay_walk ::
  "(nat \<Rightarrow> OS_TCB) \<Rightarrow> ptr \<Rightarrow> 32 word \<Rightarrow> (ptr \<times> 32 word) option"
where
  "Delay_walk h iter ticks =
     (case iter of
        None \<Rightarrow> Some (None, ticks)
      | Some i \<Rightarrow>
          if ticks \<ge> DelayTicks (h i)
          then Delay_walk h (Next (h i)) (ticks - DelayTicks (h i))
          else Some (iter, ticks))"

definition Delay_insert :: "nat \<Rightarrow> 32 word \<Rightarrow> kernel \<Rightarrow> kernel result option" where
  "Delay_insert c ticks s =
     (if Head (DelayList s) = None then
        Some (List_InsertTail DelayRef (Some c) (set_DelayTicks c ticks s))
      else
        (case Delay_walk (TCBs s) (Head (DelayList s)) ticks of
           None \<Rightarrow> None
         | Some (iter, ticks') \<Rightarrow>
             let s1 = set_DelayTicks c ticks' s in
             (case iter of
                None \<Rightarrow> Some (List_InsertTail DelayRef (Some c) s1)
              | Some i \<Rightarrow>
                  if iter = Head (DelayList s1) then
                    let s2 = set_DelayTicks i (DelayTicks (TCBs s1 i) - ticks') s1;
                        s3 = set_Next c iter s2;
                        s4 = set_Prev i (Some c) s3;
                        s5 = set_Prev c None s4
                    in Some (Inr (s5\<lparr>DelayList := (DelayList s5)\<lparr>Head := Some c\<rparr>\<rparr>))
                  else
                    let s2 = set_DelayTicks i (DelayTicks (TCBs s1 i) - ticks') s1;
                        s3 = set_Next c iter s2;
                        s4 = set_Prev c (Prev (TCBs s3 i)) s3
                    in (case Prev (TCBs s4 i) of
                          None \<Rightarrow> Some (Inl (NullDeref, s4))
                        | Some p \<Rightarrow> Some (Inr (set_Prev i (Some c) (set_Next p (Some c) s4)))))))"

text \<open>
  The common tail of the blocking and waking paths:
  \<open>NextTCB = FindNextTask(); OS_Trigger_SWI(); OS_ExitCritical();\<close>.
\<close>

definition schedule_and_exit :: "kernel \<Rightarrow> kernel result" where
  "schedule_and_exit s =
     bindR (FindNextTask s) (\<lambda>n. OS_ExitCritical (OS_Trigger_SWI (s\<lparr>NextTCB := n\<rparr>)))"

definition OS_Delay :: "32 word \<Rightarrow> kernel \<Rightarrow> kernel result option" where
  "OS_Delay ticks s =
     (let s0 = OS_EnterCritical s in
      case CurrentTCB s0 of
        None \<Rightarrow> Some (Inl (NullDeref, s0))
      | Some c \<Rightarrow>
          (case OS_ReadyListRemove (CurrentTCB s0) (set_State c TASK_BLOCKED s0) of
             Inl e \<Rightarrow> Some (Inl e)
           | Inr s1 \<Rightarrow>
               (case Delay_insert c ticks s1 of
                  None \<Rightarrow> None
                | Some (Inl e) \<Rightarrow> Some (Inl e)
                | Some (Inr s2) \<Rightarrow> Some (schedule_and_exit s2))))"

section \<open>Counting semaphore\<close>

definition OS_SemInit :: "ptr \<Rightarrow> kernel \<Rightarrow> OS_Status \<times> kernel" where
  "OS_SemInit p_sem s =
     (case p_sem of
        None \<Rightarrow> (OS_ERR_PARAM, s)
      | Some i \<Rightarrow> (OS_OK, List_Init (SemRef i) s))"

definition OS_SemWait :: "ptr \<Rightarrow> kernel \<Rightarrow> (OS_Status \<times> kernel) result" where
  "OS_SemWait p_sem s =
     (case p_sem of
        None \<Rightarrow> Inr (OS_ERR_PARAM, s)
      | Some i \<Rightarrow>
          let s0 = OS_EnterCritical s in
          if count (Sems s0 i) > 0 then
            bindR (OS_ExitCritical
                     (s0\<lparr>Sems := (Sems s0)(i := (Sems s0 i)\<lparr>count := count (Sems s0 i) - 1\<rparr>)\<rparr>))
                  (\<lambda>s1. Inr (OS_OK, s1))
          else
            (case CurrentTCB s0 of
               None \<Rightarrow> Inl (NullDeref, s0)
             | Some c \<Rightarrow>
                 bindR (OS_ReadyListRemove (CurrentTCB s0) (set_State c TASK_BLOCKED s0)) (\<lambda>s1.
                 bindR (List_InsertTail (SemRef i) (CurrentTCB s1) s1) (\<lambda>s2.
                 bindR (schedule_and_exit s2) (\<lambda>s3. Inr (OS_OK, s3))))))"

definition OS_SemPost :: "ptr \<Rightarrow> kernel \<Rightarrow> (OS_Status \<times> kernel) result" where
  "OS_SemPost p_sem s =
     (case p_sem of
        None \<Rightarrow> Inr (OS_ERR_PARAM, s)
      | Some i \<Rightarrow>
          let s0 = OS_EnterCritical s in
          if Head (Sem_WaitList (Sems s0 i)) = None then
            bindR (OS_ExitCritical
                     (s0\<lparr>Sems := (Sems s0)(i := (Sems s0 i)\<lparr>count := count (Sems s0 i) + 1\<rparr>)\<rparr>))
                  (\<lambda>s1. Inr (OS_OK, s1))
          else
            bindR (List_PopHead (SemRef i) s0) (\<lambda>(TaskToWake, s1).
              case TaskToWake of
                None \<Rightarrow> Inl (NullDeref, s1)
              | Some w \<Rightarrow>
                  bindR (OS_ReadyListAdd TaskToWake (set_State w TASK_READY s1)) (\<lambda>s2.
                  bindR (schedule_and_exit s2) (\<lambda>s3. Inr (OS_OK, s3)))))"

section \<open>Priority-inheriting mutex\<close>

definition OS_MutexInit :: "ptr \<Rightarrow> kernel \<Rightarrow> OS_Status \<times> kernel" where
  "OS_MutexInit p_mutex s =
     (case p_mutex of
        None \<Rightarrow> (OS_ERR_PARAM, s)
      | Some i \<Rightarrow>
          (OS_OK,
           List_Init (MutexRef i)
             (s\<lparr>Mutexes := (Mutexes s)(i := (Mutexes s i)
                   \<lparr>Owner := None, NestCount := 0, Mutex_OriginalPrio := OS_MAX_PRIO - 1\<rparr>)\<rparr>)))"

text \<open>
  The boost of \<open>OS_MutexPend\<close>, lines 418 to 430: the caller \<open>c\<close> outranks the owner
  \<open>ow\<close>.
\<close>

definition Mutex_boost :: "nat \<Rightarrow> nat \<Rightarrow> kernel \<Rightarrow> kernel result" where
  "Mutex_boost c ow s =
     (if Priority (TCBs s c) < Priority (TCBs s ow) then
        (if State (TCBs s ow) = TASK_READY then
           bindR (OS_ReadyListRemove (Some ow) s) (\<lambda>s1.
             OS_ReadyListAdd (Some ow) (set_Priority ow (Priority (TCBs s1 c)) s1))
         else Inr (set_Priority ow (Priority (TCBs s c)) s))
      else Inr s)"

text \<open>
  The search loop of the wait-list insertion, lines 449 to 452: the last node whose
  successor is absent or has a larger priority value than the caller.
\<close>

partial_function (option) Mutex_walk :: "(nat \<Rightarrow> OS_TCB) \<Rightarrow> nat \<Rightarrow> nat \<Rightarrow> nat option" where
  "Mutex_walk h iter prio =
     (case Next (h iter) of
        None \<Rightarrow> Some iter
      | Some n \<Rightarrow> if Priority (h n) \<le> prio then Mutex_walk h n prio else Some iter)"

text \<open>The insertion of the caller \<open>c\<close> into the wait list of mutex \<open>i\<close>, lines 433 to 465.\<close>

definition Mutex_insert :: "nat \<Rightarrow> nat \<Rightarrow> kernel \<Rightarrow> kernel result option" where
  "Mutex_insert i c s =
     (case Head (Mutex_WaitList (Mutexes s i)) of
        None \<Rightarrow> Some (List_InsertTail (MutexRef i) (Some c) s)
      | Some h \<Rightarrow>
          if Priority (TCBs s h) > Priority (TCBs s c) then
            let s1 = set_Next c (Some h) s;
                s2 = set_Prev h (Some c) s1;
                s3 = set_Prev c None s2
            in Some (Inr (put_list (MutexRef i)
                            ((Mutex_WaitList (Mutexes s3 i))\<lparr>Head := Some c\<rparr>) s3))
          else
            (case Mutex_walk (TCBs s) h (Priority (TCBs s c)) of
               None \<Rightarrow> None
             | Some iter \<Rightarrow>
                 let s1 = set_Next c (Next (TCBs s iter)) s;
                     s2 = set_Prev c (Some iter) s1;
                     s3 = (case Next (TCBs s2 iter) of
                             Some n \<Rightarrow> set_Prev n (Some c) s2
                           | None \<Rightarrow>
                               put_list (MutexRef i)
                                 ((Mutex_WaitList (Mutexes s2 i))\<lparr>Tail := Some c\<rparr>) s2)
                 in Some (Inr (set_Next iter (Some c) s3))))"

definition OS_MutexPend :: "ptr \<Rightarrow> kernel \<Rightarrow> (OS_Status \<times> kernel) result option" where
  "OS_MutexPend p_mutex s =
     (case p_mutex of
        None \<Rightarrow> Some (Inr (OS_ERR_PARAM, s))
      | Some i \<Rightarrow>
          let s0 = OS_EnterCritical s in
          (case Owner (Mutexes s0 i) of
             None \<Rightarrow>
               Some (bindR (OS_ExitCritical
                              (s0\<lparr>Mutexes := (Mutexes s0)(i := (Mutexes s0 i)
                                     \<lparr>Owner := CurrentTCB s0, NestCount := 1\<rparr>)\<rparr>))
                           (\<lambda>s1. Inr (OS_OK, s1)))
           | Some ow \<Rightarrow>
               if Owner (Mutexes s0 i) = CurrentTCB s0 then
                 Some (bindR (OS_ExitCritical
                                (s0\<lparr>Mutexes := (Mutexes s0)(i := (Mutexes s0 i)
                                       \<lparr>NestCount := NestCount (Mutexes s0 i) + 1\<rparr>)\<rparr>))
                             (\<lambda>s1. Inr (OS_OK, s1)))
               else
                 (case CurrentTCB s0 of
                    None \<Rightarrow> Some (Inl (NullDeref, s0))
                  | Some c \<Rightarrow>
                      (case bindR (Mutex_boost c ow s0) (\<lambda>s1.
                              OS_ReadyListRemove (CurrentTCB s1) (set_State c TASK_BLOCKED s1)) of
                         Inl e \<Rightarrow> Some (Inl e)
                       | Inr s2 \<Rightarrow>
                           (case Mutex_insert i c s2 of
                              None \<Rightarrow> None
                            | Some (Inl e) \<Rightarrow> Some (Inl e)
                            | Some (Inr s3) \<Rightarrow>
                                Some (bindR (schedule_and_exit s3) (\<lambda>s4. Inr (OS_OK, s4))))))))"

text \<open>
  The restore of \<open>OS_MutexPost\<close>, lines 496 to 501, for the caller \<open>c\<close>.
\<close>

definition Mutex_restore :: "nat \<Rightarrow> kernel \<Rightarrow> kernel result" where
  "Mutex_restore c s =
     (if Priority (TCBs s c) \<noteq> OriginalPrio (TCBs s c) then
        bindR (OS_ReadyListRemove (Some c) s) (\<lambda>s1.
          OS_ReadyListAdd (Some c) (set_Priority c (OriginalPrio (TCBs s1 c)) s1))
      else Inr s)"

definition OS_MutexPost :: "ptr \<Rightarrow> kernel \<Rightarrow> (OS_Status \<times> kernel) result" where
  "OS_MutexPost p_mutex s =
     (case p_mutex of
        None \<Rightarrow> Inr (OS_ERR_PARAM, s)
      | Some i \<Rightarrow>
          let s0 = OS_EnterCritical s in
          if Owner (Mutexes s0 i) \<noteq> CurrentTCB s0 then
            bindR (OS_ExitCritical s0) (\<lambda>s1. Inr (OS_ERR_NOT_OWNER, s1))
          else
            let s1 = s0\<lparr>Mutexes := (Mutexes s0)(i := (Mutexes s0 i)
                           \<lparr>NestCount := NestCount (Mutexes s0 i) - 1\<rparr>)\<rparr>
            in
            if NestCount (Mutexes s1 i) > 0 then
              bindR (OS_ExitCritical s1) (\<lambda>s2. Inr (OS_OK, s2))
            else
              (case CurrentTCB s1 of
                 None \<Rightarrow> Inl (NullDeref, s1)
               | Some c \<Rightarrow>
                   bindR (Mutex_restore c s1) (\<lambda>s2.
                     if Head (Mutex_WaitList (Mutexes s2 i)) = None then
                       bindR (OS_ExitCritical
                                (s2\<lparr>Mutexes := (Mutexes s2)(i := (Mutexes s2 i)\<lparr>Owner := None\<rparr>)\<rparr>))
                             (\<lambda>s3. Inr (OS_OK, s3))
                     else
                       bindR (List_PopHead (MutexRef i) s2) (\<lambda>(TaskToWake, s3).
                         let s4 = s3\<lparr>Mutexes := (Mutexes s3)(i := (Mutexes s3 i)
                                        \<lparr>Owner := TaskToWake, NestCount := 1\<rparr>)\<rparr>
                         in bindR (OS_ReadyListAdd TaskToWake s4) (\<lambda>s5.
                            bindR (schedule_and_exit s5) (\<lambda>s6. Inr (OS_OK, s6)))))))"

section \<open>Message queue\<close>

text \<open>
  \<open>memcpy(dst + off, src, n)\<close> on byte arrays indexed from their start. A pointer to user
  memory is the array it points to, or \<open>None\<close> for \<open>NULL\<close>.
\<close>

definition memcpy_at :: "(nat \<Rightarrow> 8 word) \<Rightarrow> nat \<Rightarrow> (nat \<Rightarrow> 8 word) \<Rightarrow> nat \<Rightarrow> (nat \<Rightarrow> 8 word)" where
  "memcpy_at dst off src n = (\<lambda>a. if off \<le> a \<and> a < off + n then src (a - off) else dst a)"

definition OS_QueueInit ::
  "ptr \<Rightarrow> (nat \<Rightarrow> 8 word) option \<Rightarrow> 16 word \<Rightarrow> 16 word \<Rightarrow> kernel \<Rightarrow> kernel" where
  "OS_QueueInit p_queue buffer msg_size queue_size s =
     (case (p_queue, buffer) of
        (Some i, Some b) \<Rightarrow>
          if msg_size = 0 \<or> queue_size = 0 then s
          else List_Init (QueueRef i)
                 (s\<lparr>Queues := (Queues s)(i := (Queues s i)
                       \<lparr>Buffer := b, MsgSize := msg_size, QSize := queue_size,
                        MsgCount := 0, Q_Head := 0, Q_Tail := 0\<rparr>)\<rparr>)
      | _ \<Rightarrow> s)"

text \<open>
  In \<open>(Head + 1) % QSize\<close> and \<open>Head * MsgSize\<close> the 16-bit operands are promoted to
  \<open>int\<close>; the sum cannot wrap, and the product is the byte offset of the slot.
\<close>

definition OS_QueueSend ::
  "ptr \<Rightarrow> (nat \<Rightarrow> 8 word) option \<Rightarrow> kernel \<Rightarrow> (OS_Status \<times> kernel) result" where
  "OS_QueueSend p_queue p_msg s =
     (case (p_queue, p_msg) of
        (Some i, Some msg) \<Rightarrow>
          let s0 = OS_EnterCritical s; q = Queues s0 i in
          if MsgCount q \<ge> QSize q then
            bindR (OS_ExitCritical s0) (\<lambda>s1. Inr (OS_ERR_Q_FULL, s1))
          else
            let q1 = q\<lparr>Buffer := memcpy_at (Buffer q) (unat (Q_Head q) * unat (MsgSize q))
                                    msg (unat (MsgSize q))\<rparr>;
                q2 = q1\<lparr>Q_Head := of_nat ((unat (Q_Head q1) + 1) mod unat (QSize q1))\<rparr>;
                q3 = q2\<lparr>MsgCount := MsgCount q2 + 1\<rparr>;
                s1 = s0\<lparr>Queues := (Queues s0)(i := q3)\<rparr>
            in
            bindR
              (if Head (WaitReadList (Queues s1 i)) \<noteq> None then
                 bindR (List_PopHead (QueueRef i) s1) (\<lambda>(TaskToWake, s2).
                   case TaskToWake of
                     None \<Rightarrow> Inl (NullDeref, s2)
                   | Some w \<Rightarrow>
                       bindR (OS_ReadyListAdd TaskToWake (set_State w TASK_READY s2)) (\<lambda>s3.
                       bindR (FindNextTask s3) (\<lambda>n. Inr (OS_Trigger_SWI (s3\<lparr>NextTCB := n\<rparr>)))))
               else Inr s1)
              (\<lambda>s4. bindR (OS_ExitCritical s4) (\<lambda>s5. Inr (OS_OK, s5)))
      | _ \<Rightarrow> Inr (OS_ERR_PARAM, s))"

text \<open>
  \<open>OS_QueueReceive\<close> and \<open>OS_MemGet\<close> wait in a loop: the caller blocks itself, requests a
  switch and leaves the critical section, where the pending software interrupt is taken
  and another task runs; the caller goes on from the next statement, \<open>OS_EnterCritical\<close>,
  when it is switched in again. A call is followed up to the point where it returns or its
  caller is switched out: the result \<open>Suspended\<close> is the second case, and
  \<open>OS_QueueReceive_resume\<close> and \<open>OS_MemGet_resume\<close> are the rest of the call, from that
  \<open>OS_EnterCritical\<close> on. When the software interrupt is not taken, or selects the caller
  itself, the loop goes on at once.
\<close>

datatype 'a blocking = Returned 'a | Suspended

text \<open>\<open>OS_QueueReceive\<close>, lines 568 to 594.\<close>

partial_function (option) QueueReceive_loop ::
  "nat \<Rightarrow> (nat \<Rightarrow> 8 word) \<Rightarrow> kernel \<Rightarrow>
     ((OS_Status \<times> (nat \<Rightarrow> 8 word) option) blocking \<times> kernel) result option"
where
  "QueueReceive_loop i buf s =
     (if MsgCount (Queues s i) = 0 then
        (case CurrentTCB s of
           None \<Rightarrow> Some (Inl (NullDeref, s))
         | Some c \<Rightarrow>
             (case bindR (OS_ReadyListRemove (CurrentTCB s) (set_State c TASK_BLOCKED s)) (\<lambda>s1.
                   bindR (List_InsertTail (QueueRef i) (CurrentTCB s1) s1) schedule_and_exit) of
                Inl e \<Rightarrow> Some (Inl e)
              | Inr s2 \<Rightarrow>
                  if CurrentTCB (service_SWI s2) \<noteq> CurrentTCB s2 then Some (Inr (Suspended, s2))
                  else QueueReceive_loop i buf (OS_EnterCritical (service_SWI s2))))
      else
        let q = Queues s i in
        if QSize q = 0 then Some (Inl (DivByZero, s))
        else
          let buf' = memcpy_at buf 0 (\<lambda>a. Buffer q (unat (Q_Tail q) * unat (MsgSize q) + a))
                       (unat (MsgSize q));
              q1 = q\<lparr>Q_Tail := of_nat ((unat (Q_Tail q) + 1) mod unat (QSize q))\<rparr>;
              q2 = q1\<lparr>MsgCount := MsgCount q1 - 1\<rparr>
          in Some (bindR (OS_ExitCritical (s\<lparr>Queues := (Queues s)(i := q2)\<rparr>))
                     (\<lambda>s1. Inr (Returned (OS_OK, Some buf'), s1))))"

definition OS_QueueReceive ::
  "ptr \<Rightarrow> (nat \<Rightarrow> 8 word) option \<Rightarrow> kernel \<Rightarrow>
     ((OS_Status \<times> (nat \<Rightarrow> 8 word) option) blocking \<times> kernel) result option" where
  "OS_QueueReceive p_queue p_msg_buffer s =
     (case (p_queue, p_msg_buffer) of
        (Some i, Some buf) \<Rightarrow> QueueReceive_loop i buf (OS_EnterCritical s)
      | _ \<Rightarrow> Some (Inr (Returned (OS_ERR_PARAM, p_msg_buffer), s)))"

definition OS_QueueReceive_resume ::
  "nat \<Rightarrow> (nat \<Rightarrow> 8 word) \<Rightarrow> kernel \<Rightarrow>
     ((OS_Status \<times> (nat \<Rightarrow> 8 word) option) blocking \<times> kernel) result option" where
  "OS_QueueReceive_resume i buf s = QueueReceive_loop i buf (OS_EnterCritical s)"

text \<open>
  Modelled from the spec: \<open>OS_QueueReceiveFromISR\<close> is declared in os_core.h (lines 394
  to 404) and its body is not among the sources. Section 4.9: "receive_from_isr: if
  empty, return Resource; otherwise copy and advance. Never blocks"; "receive: ... Copy
  slot tail into caller buffer, advance tail, count--". Section 6: the operations with the
  from-ISR suffix never suspend and do not use the critical-section calls. The header
  adds \<open>OS_ERR_PARAM\<close> for an invalid parameter and says the third parameter is
  reserved. The caller's buffer is returned with the state.
\<close>

definition OS_QueueReceiveFromISR ::
  "ptr \<Rightarrow> (nat \<Rightarrow> 8 word) option \<Rightarrow> kernel \<Rightarrow> OS_Status \<times> (nat \<Rightarrow> 8 word) option \<times> kernel" where
  "OS_QueueReceiveFromISR p_queue p_msg_buffer s =
     (case (p_queue, p_msg_buffer) of
        (Some i, Some buf) \<Rightarrow>
          let q = Queues s i in
          if MsgCount q = 0 then (OS_ERR_RESOURCE, p_msg_buffer, s)
          else
            let buf' = (\<lambda>a. if a < unat (MsgSize q)
                             then Buffer q (unat (Q_Tail q) * unat (MsgSize q) + a) else buf a);
                q1 = q\<lparr>Q_Tail := of_nat ((unat (Q_Tail q) + 1) mod unat (QSize q))\<rparr>;
                q2 = q1\<lparr>MsgCount := MsgCount q1 - 1\<rparr>
            in (OS_OK, Some buf', s\<lparr>Queues := (Queues s)(i := q2)\<rparr>)
      | _ \<Rightarrow> (OS_ERR_PARAM, p_msg_buffer, s))"

section \<open>Fixed-block memory pool\<close>

text \<open>The loop of \<open>OS_MemInit\<close>, lines 611 to 624, run \<open>n\<close> times from block \<open>p_block\<close>.\<close>

primrec MemInit_loop ::
  "nat \<Rightarrow> 32 word \<Rightarrow> 32 word \<Rightarrow> (32 word \<Rightarrow> 32 word) \<Rightarrow> 32 word \<times> (32 word \<Rightarrow> 32 word)" where
  "MemInit_loop 0 p_block block_size lk = (p_block, lk)"
| "MemInit_loop (Suc n) p_block block_size lk =
     MemInit_loop n (p_block + block_size) block_size (lk(p_block := p_block + block_size))"

definition OS_MemInit :: "ptr \<Rightarrow> 32 word \<Rightarrow> 32 word \<Rightarrow> 32 word \<Rightarrow> kernel \<Rightarrow> kernel" where
  "OS_MemInit p_mem start_addr blocks block_size s =
     (case p_mem of
        None \<Rightarrow> s
      | Some i \<Rightarrow>
          if start_addr = 0 \<or> blocks = 0 \<or> block_size < 4 then s
          else
            let s1 = List_Init (MemRef i)
                       (s\<lparr>Pools := (Pools s)(i := (Pools s i)
                             \<lparr>Addr := start_addr, FreeList := start_addr,
                              BlockSize := block_size, TotalBlocks := blocks,
                              FreeBlocks := blocks\<rparr>)\<rparr>);
                (p_block, lk) = MemInit_loop (unat (blocks - 1)) start_addr block_size
                                  (Link (Pools s1 i))
            in s1\<lparr>Pools := (Pools s1)(i := (Pools s1 i)\<lparr>Link := lk(p_block := 0)\<rparr>)\<rparr>)"

text \<open>
  \<open>OS_MemGet\<close>, lines 631 to 656; the address 0 is \<open>NULL\<close>, and \<open>*(void **)ret\<close> reads the
  link word of the block \<open>ret\<close>.
\<close>

partial_function (option) MemGet_loop ::
  "nat \<Rightarrow> kernel \<Rightarrow> (32 word blocking \<times> kernel) result option"
where
  "MemGet_loop i s =
     (if FreeBlocks (Pools s i) = 0 then
        (case CurrentTCB s of
           None \<Rightarrow> Some (Inl (NullDeref, s))
         | Some c \<Rightarrow>
             (case bindR (OS_ReadyListRemove (CurrentTCB s) (set_State c TASK_BLOCKED s)) (\<lambda>s1.
                   bindR (List_InsertTail (MemRef i) (CurrentTCB s1) s1) schedule_and_exit) of
                Inl e \<Rightarrow> Some (Inl e)
              | Inr s2 \<Rightarrow>
                  if CurrentTCB (service_SWI s2) \<noteq> CurrentTCB s2 then Some (Inr (Suspended, s2))
                  else MemGet_loop i (OS_EnterCritical (service_SWI s2))))
      else
        let m = Pools s i; ret = FreeList m in
        if ret = 0 then Some (Inl (NullDeref, s))
        else
          let m1 = m\<lparr>FreeList := Link m ret\<rparr>;
              m2 = m1\<lparr>FreeBlocks := FreeBlocks m1 - 1\<rparr>
          in Some (bindR (OS_ExitCritical (s\<lparr>Pools := (Pools s)(i := m2)\<rparr>))
                     (\<lambda>s1. Inr (Returned ret, s1))))"

definition OS_MemGet :: "ptr \<Rightarrow> kernel \<Rightarrow> (32 word blocking \<times> kernel) result option" where
  "OS_MemGet p_mem s =
     (case p_mem of
        None \<Rightarrow> Some (Inr (Returned 0, s))
      | Some i \<Rightarrow> MemGet_loop i (OS_EnterCritical s))"

definition OS_MemGet_resume :: "nat \<Rightarrow> kernel \<Rightarrow> (32 word blocking \<times> kernel) result option" where
  "OS_MemGet_resume i s = MemGet_loop i (OS_EnterCritical s)"

text \<open>
  \<open>OS_MemPut\<close>. Pointer arithmetic and comparison are those of the 32-bit target:
  \<open>start_addr + total_size\<close> and \<open>TotalBlocks * BlockSize\<close> wrap around.
\<close>

definition OS_MemPut :: "ptr \<Rightarrow> 32 word \<Rightarrow> kernel \<Rightarrow> (OS_Status \<times> kernel) result" where
  "OS_MemPut p_mem p_block s =
     (case p_mem of
        None \<Rightarrow> Inr (OS_ERR_PARAM, s)
      | Some i \<Rightarrow>
          if p_block = 0 then Inr (OS_ERR_PARAM, s)
          else
            let s0 = OS_EnterCritical s;
                start_addr = Addr (Pools s0 i);
                block_addr = p_block;
                total_size = TotalBlocks (Pools s0 i) * BlockSize (Pools s0 i)
            in
            if block_addr < start_addr \<or> block_addr \<ge> start_addr + total_size then
              bindR (OS_ExitCritical s0) (\<lambda>s1. Inr (OS_ERR_INVALID_ADDR, s1))
            else if (block_addr - start_addr) mod BlockSize (Pools s0 i) \<noteq> 0 then
              bindR (OS_ExitCritical s0) (\<lambda>s1. Inr (OS_ERR_NOT_ALIGN, s1))
            else
              let m = Pools s0 i;
                  m1 = m\<lparr>Link := (Link m)(p_block := FreeList m)\<rparr>;
                  m2 = m1\<lparr>FreeList := p_block\<rparr>;
                  m3 = m2\<lparr>FreeBlocks := FreeBlocks m2 + 1\<rparr>;
                  s1 = s0\<lparr>Pools := (Pools s0)(i := m3)\<rparr>
              in
              bindR
                (if Head (Mem_WaitList (Pools s1 i)) \<noteq> None then
                   bindR (List_PopHead (MemRef i) s1) (\<lambda>(TaskToWake, s2).
                     case TaskToWake of
                       None \<Rightarrow> Inl (NullDeref, s2)
                     | Some w \<Rightarrow>
                         bindR (OS_ReadyListAdd TaskToWake (set_State w TASK_READY s2)) (\<lambda>s3.
                         bindR (FindNextTask s3) (\<lambda>n. Inr (OS_Trigger_SWI (s3\<lparr>NextTCB := n\<rparr>)))))
                 else Inr s1)
                (\<lambda>s4. bindR (OS_ExitCritical s4) (\<lambda>s5. Inr (OS_OK, s5))))"

section \<open>Scenarios\<close>

text \<open>
  The memory at reset: every static object is zero. Task control blocks are at the
  addresses 1, 2, ...; the idle task's block is at \<open>IdleTaskTCB\<close>.
\<close>

definition zero_TCBs :: "nat \<Rightarrow> OS_TCB" where
  "zero_TCBs a = \<lparr>stackPtr = 0, stackLimit = 0, Prev = None, Next = None,
                   State = TASK_READY, DelayTicks = 0, Priority = 0, OriginalPrio = 0\<rparr>"

definition zero_words :: "32 word \<Rightarrow> 32 word" where
  "zero_words a = 0"

definition boot :: kernel where
  "boot =
     \<lparr>TCBs = zero_TCBs,
      StackMem = zero_words, g_SystemTickCount = 0, g_CriticalNesting = 0, g_PrioMap = 0,
      g_OSRunning = False,
      ReadyList = (\<lambda>p. \<lparr>Head = None, Tail = None\<rparr>),
      DelayList = \<lparr>Head = None, Tail = None\<rparr>,
      CurrentTCB = None, NextTCB = None, IRQ_Enabled = False, SWI_Pending = False,
      Sems = (\<lambda>i. \<lparr>count = 0, Sem_WaitList = \<lparr>Head = None, Tail = None\<rparr>\<rparr>),
      Mutexes = (\<lambda>i. \<lparr>Owner = None, Mutex_WaitList = \<lparr>Head = None, Tail = None\<rparr>,
                      NestCount = 0, Mutex_OriginalPrio = 0\<rparr>),
      Queues = (\<lambda>i. \<lparr>Buffer = (\<lambda>a. 0), MsgSize = 0, QSize = 0, MsgCount = 0,
                     Q_Head = 0, Q_Tail = 0, WaitReadList = \<lparr>Head = None, Tail = None\<rparr>\<rparr>),
      Pools = (\<lambda>i. \<lparr>Addr = 0, FreeList = 0, BlockSize = 0, TotalBlocks = 0, FreeBlocks = 0,
                    Mem_WaitList = \<lparr>Head = None, Tail = None\<rparr>, Link = (\<lambda>a. 0)\<rparr>)\<rparr>"

text \<open>
  A scenario is a list of kernel calls, each with the task that makes it (\<open>None\<close>
  before the scheduler starts; for a tick, the task it interrupts). After each call the
  pending software interrupt is serviced. A call by a task that is not the running one is
  not an execution of the kernel: the scenario is then \<open>Wrong_Caller\<close>. The outcome
  lists the status of every call that has returned; a function without a status counts as
  \<open>OS_OK\<close> when it returns, and a call that leaves its caller suspended in its wait loop
  adds nothing. Queue buffers and receive buffers are zeroed, and a message is its byte
  repeated.
\<close>

datatype call =
    Call_Init
  | Call_TaskCreate nat "32 word" "32 word" "32 word" nat
  | Call_StartScheduler
  | Call_Tick
  | Call_Delay "32 word"
  | Call_SemInit nat
  | Call_SemWait nat
  | Call_SemPost nat
  | Call_MutexInit nat
  | Call_MutexPend nat
  | Call_MutexPost nat
  | Call_QueueInit nat "16 word" "16 word"
  | Call_QueueSend nat "8 word"
  | Call_QueueReceive nat
  | Call_MemInit nat "32 word" "32 word" "32 word"
  | Call_MemGet nat
  | Call_MemPut nat "32 word"

datatype outcome = Finished "OS_Status list" kernel | Stopped fault kernel | Diverges | Wrong_Caller

definition with_OK :: "kernel result \<Rightarrow> (OS_Status option \<times> kernel) result" where
  "with_OK r = bindR r (\<lambda>s. Inr (Some OS_OK, s))"

definition with_status :: "(OS_Status \<times> kernel) result \<Rightarrow> (OS_Status option \<times> kernel) result" where
  "with_status r = bindR r (\<lambda>(st, s). Inr (Some st, s))"

fun do_call :: "call \<Rightarrow> kernel \<Rightarrow> (OS_Status option \<times> kernel) result option" where
  "do_call Call_Init s = Some (with_OK (OS_Init s))"
| "do_call (Call_TaskCreate t f stack depth prio) s =
     Some (with_status (OS_TaskCreate (Some t) f 0 stack depth prio s))"
| "do_call Call_StartScheduler s = Some (with_OK (OS_StartScheduler s))"
| "do_call Call_Tick s = map_option with_OK (OS_Tick_Handler s)"
| "do_call (Call_Delay n) s = map_option with_OK (OS_Delay n s)"
| "do_call (Call_SemInit i) s = Some (with_status (Inr (OS_SemInit (Some i) s)))"
| "do_call (Call_SemWait i) s = Some (with_status (OS_SemWait (Some i) s))"
| "do_call (Call_SemPost i) s = Some (with_status (OS_SemPost (Some i) s))"
| "do_call (Call_MutexInit i) s = Some (with_status (Inr (OS_MutexInit (Some i) s)))"
| "do_call (Call_MutexPend i) s = map_option with_status (OS_MutexPend (Some i) s)"
| "do_call (Call_MutexPost i) s = Some (with_status (OS_MutexPost (Some i) s))"
| "do_call (Call_QueueInit i msg_size queue_size) s =
     Some (with_OK (Inr (OS_QueueInit (Some i) (Some (\<lambda>a. 0)) msg_size queue_size s)))"
| "do_call (Call_QueueSend i b) s = Some (with_status (OS_QueueSend (Some i) (Some (\<lambda>a. b)) s))"
| "do_call (Call_QueueReceive i) s =
     map_option
       (\<lambda>r. bindR r (\<lambda>(x, s1). Inr (case x of Returned (st, b) \<Rightarrow> Some st | Suspended \<Rightarrow> None, s1)))
       (OS_QueueReceive (Some i) (Some (\<lambda>a. 0)) s)"
| "do_call (Call_MemInit i start_addr blocks block_size) s =
     Some (with_OK (Inr (OS_MemInit (Some i) start_addr blocks block_size s)))"
| "do_call (Call_MemGet i) s =
     map_option
       (\<lambda>r. bindR r (\<lambda>(x, s1). Inr (case x of Returned b \<Rightarrow> Some OS_OK | Suspended \<Rightarrow> None, s1)))
       (OS_MemGet (Some i) s)"
| "do_call (Call_MemPut i p_block) s = Some (with_status (OS_MemPut (Some i) p_block s))"

fun run :: "(ptr \<times> call) list \<Rightarrow> kernel \<Rightarrow> outcome" where
  "run [] s = Finished [] s"
| "run ((who, c) # cs) s =
     (if CurrentTCB s \<noteq> who then Wrong_Caller
      else case do_call c s of
        None \<Rightarrow> Diverges
      | Some (Inl (f, s1)) \<Rightarrow> Stopped f s1
      | Some (Inr (st, s1)) \<Rightarrow>
          (case run cs (service_SWI s1) of
             Finished sts s2 \<Rightarrow> Finished (case st of None \<Rightarrow> sts | Some x \<Rightarrow> x # sts) s2
           | other \<Rightarrow> other))"

text \<open>
  One task of priority 1 sleeps for one tick; the tick then arrives while the idle task
  runs.
\<close>

definition C4_scenario :: "(ptr \<times> call) list" where
  "C4_scenario =
     [(None, Call_Init),
      (None, Call_TaskCreate 1 0x08001000 0x20001000 128 1),
      (None, Call_StartScheduler),
      (Some 1, Call_Delay 1),
      (Some 0, Call_Tick)]"

text \<open>
  Tasks 1 (priority 5), 2 and 3 (priority 20), semaphores 0 and 1, mutexes 0 and 1.
  Task 1 takes mutex 0 and waits on semaphore 0; task 2 blocks on mutex 0; task 3 posts
  semaphore 0; task 1 releases mutex 0, which hands it to task 2, and waits again; task 3
  waits on semaphore 1 and task 2 posts it, so that task 2 stands before task 3 in the
  ready list of priority 20; task 2 takes mutex 1 and posts semaphore 0; task 1 blocks on
  mutex 0; task 2 releases mutex 1.
\<close>

definition C1_scenario :: "(ptr \<times> call) list" where
  "C1_scenario =
     [(None, Call_Init),
      (None, Call_TaskCreate 1 0x08001000 0x20001000 128 5),
      (None, Call_TaskCreate 2 0x08002000 0x20002000 128 20),
      (None, Call_TaskCreate 3 0x08003000 0x20003000 128 20),
      (None, Call_SemInit 0), (None, Call_SemInit 1),
      (None, Call_MutexInit 0), (None, Call_MutexInit 1),
      (None, Call_StartScheduler),
      (Some 1, Call_MutexPend 0),
      (Some 1, Call_SemWait 0),
      (Some 2, Call_MutexPend 0),
      (Some 3, Call_SemPost 0),
      (Some 1, Call_MutexPost 0),
      (Some 1, Call_SemWait 0),
      (Some 3, Call_SemWait 1),
      (Some 2, Call_SemPost 1),
      (Some 2, Call_MutexPend 1),
      (Some 2, Call_SemPost 0),
      (Some 1, Call_MutexPend 0),
      (Some 2, Call_MutexPost 1)]"

text \<open>
  Tasks 1 (priority 5) and 2 (priority 20), semaphore 0, mutexes 0 and 1. Task 1 waits on
  the semaphore; task 2 takes both mutexes and posts the semaphore; task 1 blocks on mutex
  0, which boosts task 2; task 2 releases mutex 1 and still holds mutex 0.
\<close>

definition C2_scenario :: "(ptr \<times> call) list" where
  "C2_scenario =
     [(None, Call_Init),
      (None, Call_TaskCreate 1 0x08001000 0x20001000 128 5),
      (None, Call_TaskCreate 2 0x08002000 0x20002000 128 20),
      (None, Call_SemInit 0),
      (None, Call_MutexInit 0), (None, Call_MutexInit 1),
      (None, Call_StartScheduler),
      (Some 1, Call_SemWait 0),
      (Some 2, Call_MutexPend 0),
      (Some 2, Call_MutexPend 1),
      (Some 2, Call_SemPost 0),
      (Some 1, Call_MutexPend 0),
      (Some 2, Call_MutexPost 1)]"

text \<open>
  The twelve calls of tasks 1, 2 and 3 in \<open>C1_scenario\<close>, from the first
  \<open>OS_MutexPend\<close> to the release of mutex 1.
\<close>

definition hand_over :: "(ptr \<times> call) list" where
  "hand_over =
     [(Some 1, Call_MutexPend 0),
      (Some 1, Call_SemWait 0),
      (Some 2, Call_MutexPend 0),
      (Some 3, Call_SemPost 0),
      (Some 1, Call_MutexPost 0),
      (Some 1, Call_SemWait 0),
      (Some 3, Call_SemWait 1),
      (Some 2, Call_SemPost 1),
      (Some 2, Call_MutexPend 1),
      (Some 2, Call_SemPost 0),
      (Some 1, Call_MutexPend 0),
      (Some 2, Call_MutexPost 1)]"

text \<open>
  Task 5 (priority 4) sleeps for two ticks and task 4 (priority 5) for one; tasks 1, 2 and
  3 then make the calls of \<open>hand_over\<close>, and a tick arrives while task 2 runs.
\<close>

definition C3_scenario :: "(ptr \<times> call) list" where
  "C3_scenario =
     [(None, Call_Init),
      (None, Call_TaskCreate 5 0x08005000 0x20005000 128 4),
      (None, Call_TaskCreate 4 0x08004000 0x20004000 128 5),
      (None, Call_TaskCreate 1 0x08001000 0x20001000 128 5),
      (None, Call_TaskCreate 2 0x08002000 0x20002000 128 20),
      (None, Call_TaskCreate 3 0x08003000 0x20003000 128 20),
      (None, Call_SemInit 0), (None, Call_SemInit 1),
      (None, Call_MutexInit 0), (None, Call_MutexInit 1),
      (None, Call_StartScheduler),
      (Some 5, Call_Delay 2),
      (Some 4, Call_Delay 1)] @ hand_over @ [(Some 2, Call_Tick)]"

text \<open>After the calls of \<open>C1_scenario\<close> the running task 2 calls \<open>OS_Delay(5)\<close>.\<close>

definition C5_scenario :: "(ptr \<times> call) list" where
  "C5_scenario = C1_scenario @ [(Some 2, Call_Delay 5)]"

text \<open>
  Tasks 4 and 1 (priority 5), 2 and 3 (priority 20). Task 4 waits for a message on the
  empty queue 0 (two slots of four bytes); tasks 1, 2 and 3 make the calls of
  \<open>hand_over\<close>; task 2 then sends a message.
\<close>

definition C8_scenario :: "(ptr \<times> call) list" where
  "C8_scenario =
     [(None, Call_Init),
      (None, Call_TaskCreate 4 0x08004000 0x20004000 128 5),
      (None, Call_TaskCreate 1 0x08001000 0x20001000 128 5),
      (None, Call_TaskCreate 2 0x08002000 0x20002000 128 20),
      (None, Call_TaskCreate 3 0x08003000 0x20003000 128 20),
      (None, Call_SemInit 0), (None, Call_SemInit 1),
      (None, Call_MutexInit 0), (None, Call_MutexInit 1),
      (None, Call_QueueInit 0 4 2),
      (None, Call_StartScheduler),
      (Some 4, Call_QueueReceive 0)] @ hand_over @ [(Some 2, Call_QueueSend 0 7)]"

text \<open>
  The same with pool 0 of one block of 32 bytes at 0x20008000: task 4 takes the block and
  waits for another; task 2 then puts the block back.
\<close>

definition pool_scenario :: "(ptr \<times> call) list" where
  "pool_scenario =
     [(None, Call_Init),
      (None, Call_TaskCreate 4 0x08004000 0x20004000 128 5),
      (None, Call_TaskCreate 1 0x08001000 0x20001000 128 5),
      (None, Call_TaskCreate 2 0x08002000 0x20002000 128 20),
      (None, Call_TaskCreate 3 0x08003000 0x20003000 128 20),
      (None, Call_SemInit 0), (None, Call_SemInit 1),
      (None, Call_MutexInit 0), (None, Call_MutexInit 1),
      (None, Call_MemInit 0 0x20008000 1 32),
      (None, Call_StartScheduler),
      (Some 4, Call_MemGet 0),
      (Some 4, Call_MemGet 0)] @ hand_over @ [(Some 2, Call_MemPut 0 0x20008000)]"

section \<open>Highest-priority lookup\<close>

fun lowbit :: "nat \<Rightarrow> nat \<Rightarrow> nat" where
  "lowbit 0 n = 0"
| "lowbit (Suc k) n = (if odd n then 0 else Suc (lowbit k (n div 2)))"

lemma OS_MapTable_tl: "tl OS_MapTable = map (lowbit 8) [1..<256]"
  unfolding OS_MapTable_def by code_simp

lemma OS_MapTable_nth:
  assumes "0 < i" and "i < 256"
  shows "OS_MapTable ! i = lowbit 8 i"
proof -
  have l: "length OS_MapTable = 256" unfolding OS_MapTable_def by simp
  have "OS_MapTable ! i = tl OS_MapTable ! (i - 1)" using assms l by (simp add: nth_tl)
  also have "\<dots> = lowbit 8 i" using assms by (simp add: OS_MapTable_tl)
  finally show ?thesis .
qed

lemma lowbit_lowest:
  "n \<noteq> 0 \<Longrightarrow> n < 2 ^ k \<Longrightarrow> bit n (lowbit k n) \<and> (\<forall>j < lowbit k n. \<not> bit n j)"
proof (induction k arbitrary: n)
  case 0
  then show ?case by simp
next
  case (Suc k)
  show ?case
  proof (cases "odd n")
    case True
    then show ?thesis by (simp add: bit_0)
  next
    case False
    have h: "n div 2 \<noteq> 0" "n div 2 < 2 ^ k" using Suc.prems False by auto
    from Suc.IH[OF h] have a: "bit (n div 2) (lowbit k (n div 2))"
      and b: "\<forall>j<lowbit k (n div 2). \<not> bit (n div 2) j" by auto
    show ?thesis using False a b
      by (auto simp: bit_Suc less_Suc_eq_0_disj bit_0)
  qed
qed

lemma ff_mask: "(0xFF :: 32 word) = mask 8"
  by (simp add: mask_eq_exp_minus_1)

lemma ff00_mask: "(0xFF00 :: 32 word) = push_bit 8 (mask 8)"
  by (simp add: mask_eq_exp_minus_1)

lemma ff0000_mask: "(0xFF0000 :: 32 word) = push_bit 16 (mask 8)"
  by (simp add: mask_eq_exp_minus_1)

lemma bit32: "bit (w::32 word) j \<Longrightarrow> j < 32"
  using bit_imp_le_length[of w j] by simp

lemma nat_zero_bits: "((n::nat) = 0) = (\<forall>j. \<not> bit n j)"
  using bit_eq_iff[of n 0] by simp

lemma word_zero_bits: "((w::32 word) = 0) = (\<forall>j. \<not> bit w j)"
  using bit_eq_iff[of w 0] by (auto dest: bit32)

lemma lane_bit:
  fixes w :: "32 word"
  shows "bit (unat (drop_bit m w AND 0xFF)) j = (j < 8 \<and> bit w (m + j))"
  by (auto simp: ff_mask bit_unsigned_iff bit_and_iff bit_drop_bit_eq bit_mask_iff
           dest: bit_imp_le_length)

lemma lane_lt:
  fixes w :: "32 word"
  shows "unat (drop_bit m w AND 0xFF) < 256"
proof -
  have "unat (drop_bit m w AND 0xFF) \<le> unat (0xFF :: 32 word)"
    by (rule word_and_le1 [THEN word_le_nat_alt [THEN iffD1]])
  then show ?thesis by simp
qed

lemma lane_zero:
  fixes w :: "32 word"
  shows "(drop_bit m w AND 0xFF = 0) = (\<forall>j<8. \<not> bit w (m + j))"
proof -
  have "(drop_bit m w AND 0xFF = 0) = (unat (drop_bit m w AND 0xFF) = 0)"
    by (simp add: unat_eq_0)
  also have "\<dots> = (\<forall>j. \<not> bit (unat (drop_bit m w AND 0xFF)) j)"
    by (rule nat_zero_bits)
  also have "\<dots> = (\<forall>j<8. \<not> bit w (m + j))"
    by (simp add: lane_bit)
  finally show ?thesis .
qed

lemma lane_lowest:
  fixes w :: "32 word"
  assumes below: "\<forall>j<m. \<not> bit w j" and nz: "drop_bit m w AND 0xFF \<noteq> 0"
  shows "bit w (m + OS_MapTable ! unat (drop_bit m w AND 0xFF)) \<and>
         (\<forall>j < m + OS_MapTable ! unat (drop_bit m w AND 0xFF). \<not> bit w j)"
proof -
  let ?b = "unat (drop_bit m w AND 0xFF)"
  have b0: "?b \<noteq> 0" using nz by (simp add: unat_eq_0)
  have b1: "?b < 2 ^ 8" using lane_lt[of m w] by simp
  have t: "OS_MapTable ! ?b = lowbit 8 ?b" using b0 lane_lt[of m w] by (simp add: OS_MapTable_nth)
  from lowbit_lowest[OF b0 b1] have a: "bit ?b (lowbit 8 ?b)"
    and c: "\<forall>j<lowbit 8 ?b. \<not> bit ?b j" by auto
  from a have a': "lowbit 8 ?b < 8" "bit w (m + lowbit 8 ?b)" by (simp_all add: lane_bit)
  have "\<not> bit w j" if "j < m + lowbit 8 ?b" for j
  proof (cases "j < m")
    case True
    then show ?thesis using below by simp
  next
    case False
    then have "j - m < lowbit 8 ?b" using that by arith
    then have "\<not> bit ?b (j - m)" using c by simp
    moreover have "j - m < 8" using \<open>j - m < lowbit 8 ?b\<close> a'(1) by arith
    ultimately show ?thesis using False by (simp add: lane_bit)
  qed
  then show ?thesis using a' t by simp
qed

lemma lane_test:
  fixes PrioMap :: "32 word"
  assumes "\<And>n. bit (PrioMap AND M) n = (m \<le> n \<and> n - m < 8 \<and> bit PrioMap n)"
  shows "(PrioMap AND M = 0) = (drop_bit m PrioMap AND 0xFF = 0)"
proof -
  have "(PrioMap AND M = 0) = (\<forall>n. \<not> (m \<le> n \<and> n - m < 8 \<and> bit PrioMap n))"
    using assms by (simp add: word_zero_bits)
  also have "\<dots> = (\<forall>j<8. \<not> bit PrioMap (m + j))"
  proof
    assume h: "\<forall>n. \<not> (m \<le> n \<and> n - m < 8 \<and> bit PrioMap n)"
    show "\<forall>j<8. \<not> bit PrioMap (m + j)"
    proof (intro allI impI)
      fix j :: nat
      assume "j < 8"
      then show "\<not> bit PrioMap (m + j)" using h[rule_format, of "m + j"] by simp
    qed
  next
    assume h: "\<forall>j<8. \<not> bit PrioMap (m + j)"
    show "\<forall>n. \<not> (m \<le> n \<and> n - m < 8 \<and> bit PrioMap n)"
    proof (intro allI notI)
      fix n
      assume "m \<le> n \<and> n - m < 8 \<and> bit PrioMap n"
      then show False using h[rule_format, of "n - m"] by simp
    qed
  qed
  finally show ?thesis by (simp add: lane_zero)
qed

lemma test_ff00: "(PrioMap AND 0xFF00 = 0) = (drop_bit 8 PrioMap AND 0xFF = (0::32 word))"
  by (rule lane_test)
     (auto simp: ff00_mask bit_and_iff bit_push_bit_iff bit_mask_iff dest: bit_imp_le_length)

lemma test_ff0000: "(PrioMap AND 0xFF0000 = 0) = (drop_bit 16 PrioMap AND 0xFF = (0::32 word))"
  by (rule lane_test)
     (auto simp: ff0000_mask bit_and_iff bit_push_bit_iff bit_mask_iff dest: bit_imp_le_length)

lemma below_step:
  fixes w :: "32 word"
  assumes "\<forall>j<m. \<not> bit w j" and "drop_bit m w AND 0xFF = 0"
  shows "\<forall>j<m + 8. \<not> bit w j"
proof (intro allI impI)
  fix j
  assume j: "j < m + 8"
  show "\<not> bit w j"
  proof (cases "j < m")
    case True
    then show ?thesis using assms(1) by simp
  next
    case False
    then have "j - m < 8" using j by arith
    then have "\<not> bit w (m + (j - m))" using assms(2) by (simp add: lane_zero)
    then show ?thesis using False by simp
  qed
qed

lemma GetTopPrio_lowest:
  assumes nz: "PrioMap \<noteq> 0"
  shows "bit PrioMap (OS_GetTopPrio PrioMap) \<and> (\<forall>j < OS_GetTopPrio PrioMap. \<not> bit PrioMap j)"
proof -
  have b0: "\<forall>j<(0::nat). \<not> bit PrioMap j" by simp
  show ?thesis
  proof (cases "PrioMap AND 0xFF = 0")
    case False
    then have "drop_bit 0 PrioMap AND 0xFF \<noteq> 0" by simp
    from lane_lowest[OF b0 this] show ?thesis using False by (simp add: OS_GetTopPrio_def)
  next
    case l0: True
    then have "drop_bit 0 PrioMap AND 0xFF = 0" by simp
    from below_step[OF b0 this] have b8: "\<forall>j<8. \<not> bit PrioMap j" by simp
    show ?thesis
    proof (cases "PrioMap AND 0xFF00 = 0")
      case False
      then have "drop_bit 8 PrioMap AND 0xFF \<noteq> 0" by (simp add: test_ff00)
      from lane_lowest[OF b8 this] show ?thesis using l0 False by (simp add: OS_GetTopPrio_def)
    next
      case l1: True
      then have "drop_bit 8 PrioMap AND 0xFF = 0" by (simp add: test_ff00)
      from below_step[OF b8 this] have b16: "\<forall>j<16. \<not> bit PrioMap j" by simp
      show ?thesis
      proof (cases "PrioMap AND 0xFF0000 = 0")
        case False
        then have "drop_bit 16 PrioMap AND 0xFF \<noteq> 0" by (simp add: test_ff0000)
        from lane_lowest[OF b16 this] show ?thesis
          using l0 l1 False by (simp add: OS_GetTopPrio_def)
      next
        case l2: True
        then have z: "drop_bit 16 PrioMap AND 0xFF = 0" by (simp add: test_ff0000)
        from below_step[OF b16 z] have b24: "\<forall>j<24. \<not> bit PrioMap j" by simp
        have "drop_bit 24 PrioMap AND 0xFF \<noteq> 0"
        proof
          assume "drop_bit 24 PrioMap AND 0xFF = 0"
          from below_step[OF b24 this] have "\<forall>j<32. \<not> bit PrioMap j" by simp
          then have "\<forall>j. \<not> bit PrioMap j" by (auto dest: bit32)
          then show False using nz by (simp add: word_zero_bits)
        qed
        from lane_lowest[OF b24 this] show ?thesis using l0 l1 l2 by (simp add: OS_GetTopPrio_def)
      qed
    qed
  qed
qed

lemma GetTopPrio_lt: "PrioMap \<noteq> 0 \<Longrightarrow> OS_GetTopPrio PrioMap < 32"
  using GetTopPrio_lowest[of PrioMap] by (auto dest: bit32)

text \<open>
  Claim C7. For every 32-bit map other than 0, \<open>OS_GetTopPrio\<close> returns the index of the
  lowest set bit of the map: that bit is set and no bit below it is. The function is the
  256-entry table applied to the byte lanes, the lowest lane first (its definition above is
  the source's chain of tests on lanes 0, 1, 2 and 3).
\<close>

theorem C7_GetTopPrio_lowest_set_bit:
  "PrioMap \<noteq> 0 \<Longrightarrow>
     length OS_MapTable = 256 \<and>
     bit PrioMap (OS_GetTopPrio PrioMap) \<and>
     (\<forall>j < OS_GetTopPrio PrioMap. \<not> bit PrioMap j)"
proof -
  assume nz: "PrioMap \<noteq> 0"
  have l: "length OS_MapTable = 256" unfolding OS_MapTable_def by simp
  from GetTopPrio_lowest[OF nz] l show ?thesis by simp
qed

theorem C7_GetTopPrio_witness:
  "(0x80100400 :: 32 word) \<noteq> 0 \<and> OS_GetTopPrio 0x80100400 = 10 \<and>
   bit (0x80100400 :: 32 word) (OS_GetTopPrio 0x80100400) \<and>
   \<not> bit (0x80100400 :: 32 word) 9"
proof -
  have nz: "(0x80100400 :: 32 word) \<noteq> 0" by simp
  have v: "OS_GetTopPrio 0x80100400 = 10" by (simp add: OS_GetTopPrio_def OS_MapTable_def)
  from C7_GetTopPrio_lowest_set_bit[OF nz] nz v show ?thesis by simp
qed

section \<open>Evaluating scenarios\<close>

lemma init_ReadyList_eq:
  "init_ReadyList n s =
     s\<lparr>ReadyList := (\<lambda>i. if i < n then \<lparr>Head = None, Tail = None\<rparr> else ReadyList s i)\<rparr>"
  by (induction n) (auto simp: List_Init_def fun_eq_iff less_Suc_eq)

lemmas kernel_defs = boot_def zero_TCBs_def zero_words_def OS_Init_def OS_TaskCreate_def
  OS_StackInit_def OS_ReadyListAdd_def OS_ReadyListRemove_def List_InsertTail_def
  List_Remove_def List_PopHead_def List_Init_def bindR_def with_OK_def set_Next_def
  set_Prev_def set_State_def set_DelayTicks_def set_Priority_def OS_MAX_PRIO_def
  IDLE_STACK_SIZE_def OS_STACK_MAGIC_VAL_def IdleTaskTCB_def IdleTask_def IdleTaskStack_def
  OS_StartScheduler_def FindNextTask_def OS_GetTopPrio_def OS_MapTable_def OS_Enable_IRQ_def
  OS_Disable_IRQ_def OS_Trigger_SWI_def service_SWI_def OS_EnterCritical_def
  OS_ExitCritical_def OS_Delay_def Delay_insert_def schedule_and_exit_def
  OS_Tick_Handler_def OS_CheckStackOverflow_def Tick_DelayList_def Tick_Schedule_def
  Tick_WakeLoop.simps Delay_walk.simps init_ReadyList_eq Let_def OS_SemInit_def
  OS_SemWait_def OS_SemPost_def OS_MutexInit_def OS_MutexPend_def OS_MutexPost_def
  Mutex_boost_def Mutex_restore_def Mutex_insert_def Mutex_walk.simps with_status_def
  OS_QueueInit_def OS_QueueSend_def OS_QueueReceive_def QueueReceive_loop.simps
  OS_MemInit_def OS_MemGet_def MemGet_loop.simps OS_MemPut_def memcpy_at_def

section \<open>The null read of the wake loop\<close>

lemma Tick_WakeLoop_null: "Head (DelayList s) = None \<Longrightarrow> Tick_WakeLoop s = Some (Inl (NullDeref, s))"
  by (subst Tick_WakeLoop.simps) simp

text \<open>
  Claim C4 says the wake loop reads \<open>DelayList.Head->DelayTicks\<close> only when the head is
  not null. In the scenario the only delayed task expires: the loop pops it, makes it
  ready, and evaluates its condition again with an empty list; the tick handler stops at
  the read through the null head.
\<close>

theorem C4_wake_loop_reads_through_null:
  "(case run C4_scenario boot of
      Stopped f s \<Rightarrow>
        f = NullDeref \<and> Head (DelayList s) = None \<and> State (TCBs s 1) = TASK_READY \<and>
        Head (ReadyList s 1) = Some 1 \<and> CurrentTCB s = Some 0
    | _ \<Rightarrow> False)"
  unfolding C4_scenario_def by (simp add: kernel_defs)

section \<open>The ready bitmap after a mutex hand-over\<close>

text \<open>
  Claim C1 says bit p of \<open>g_PrioMap\<close> is set exactly when the ready list of priority p
  is not empty, after every call. In the scenario every call returns \<open>OS_OK\<close>, and after
  the last one the ready list of priority 5 holds task 3 while bit 5 is clear.
  \<open>OS_MutexPost\<close> hands the mutex over without setting the new owner's \<open>State\<close> to
  \<open>TASK_READY\<close>; the next boost then changes the owner's priority in place although it
  is on a ready list, and the restore removes it from the list of the wrong priority.
\<close>

theorem C1_bitmap_differs_from_ready_list:
  "(case run C1_scenario boot of
      Finished sts s \<Rightarrow>
        set sts = {OS_OK} \<and> CurrentTCB s = Some 2 \<and>
        Head (ReadyList s 5) = Some 3 \<and> \<not> bit (g_PrioMap s) 5
    | _ \<Rightarrow> False)"
  unfolding C1_scenario_def by (simp add: kernel_defs)

section \<open>Priority inheritance with two mutexes\<close>

text \<open>
  Claim C2 says that at every return from \<open>OS_MutexPend\<close> and \<open>OS_MutexPost\<close> the owner
  of a held mutex has a priority value no larger than that of any task on its wait list,
  also for a task that holds several mutexes. In the scenario every call returns
  \<open>OS_OK\<close>; after task 2 has released mutex 1 it still owns mutex 0, task 1 waits on
  mutex 0 with priority 5, and task 2 is back at priority 20.
\<close>

theorem C2_owner_outranked_by_waiter:
  "(case run C2_scenario boot of
      Finished sts s \<Rightarrow>
        set sts = {OS_OK} \<and> Owner (Mutexes s 0) = Some 2 \<and>
        Head (Mutex_WaitList (Mutexes s 0)) = Some 1 \<and>
        \<not> Priority (TCBs s 2) \<le> Priority (TCBs s 1)
    | _ \<Rightarrow> False)"
  unfolding C2_scenario_def by (simp add: kernel_defs)

section \<open>After the hand-over: tick, delay, queue and pool\<close>

lemma word_2_le_1: "\<not> (2::32 word) \<le> 1"
  by (simp add: word_le_nat_alt)

text \<open>
  Claim C3 says that on every tick with a non-empty delay list each task whose delta has
  reached zero is popped, set ready and inserted into the ready set. In the scenario every
  call before the tick returns \<open>OS_OK\<close>; the delay list then holds task 4, due on the next
  tick, before task 5, and the ready list of priority 5, the priority of task 4, has the
  head task 3 and a null tail, left there by the release of mutex 1 as in
  \<open>C1_scenario\<close>. The tick pops task 4 and sets it ready; \<open>OS_ReadyListAdd\<close> then writes
  through the null tail (\<open>List_InsertTail\<close>, line 76) and the handler stops: task 4 is on
  no list, and the ready list of priority 5 is as before.
\<close>

theorem C3_tick_stops_in_ready_insert:
  "(case run (butlast C3_scenario) boot of
      Finished sts s \<Rightarrow>
        set sts = {OS_OK} \<and> CurrentTCB s = Some 2 \<and>
        DelayList s = \<lparr>Head = Some 4, Tail = Some 5\<rparr> \<and>
        Prev (TCBs s 4) = None \<and> Next (TCBs s 4) = Some 5 \<and>
        Prev (TCBs s 5) = Some 4 \<and> Next (TCBs s 5) = None \<and>
        DelayTicks (TCBs s 4) = 1 \<and> DelayTicks (TCBs s 5) = 1 \<and>
        State (TCBs s 4) = TASK_BLOCKED \<and> Priority (TCBs s 4) = 5 \<and>
        ReadyList s 5 = \<lparr>Head = Some 3, Tail = None\<rparr>
    | _ \<Rightarrow> False) \<and>
   (case run C3_scenario boot of
      Stopped f s \<Rightarrow>
        f = NullDeref \<and> State (TCBs s 4) = TASK_READY \<and>
        DelayList s = \<lparr>Head = Some 5, Tail = Some 5\<rparr> \<and>
        ReadyList s 5 = \<lparr>Head = Some 3, Tail = None\<rparr> \<and>
        Next (TCBs s 3) = Some 2 \<and> Next (TCBs s 2) = None \<and>
        Prev (TCBs s 4) = None \<and> Next (TCBs s 4) = None
    | _ \<Rightarrow> False)"
  unfolding C3_scenario_def hand_over_def by (simp add: kernel_defs word_2_le_1)

text \<open>
  Claim C5 says that \<open>OS_Delay\<close> blocks its caller. After the calls of \<open>C1_scenario\<close>
  task 2 runs; it is the head of the ready list of priority 20 and its \<open>Prev\<close> is task 3.
  It calls \<open>OS_Delay(5)\<close>: \<open>List_Remove\<close> takes the branch for a task that is not the head,
  so the head of the list stays task 2 and bit 20 stays set; task 2 goes onto the delay
  list with \<open>State = TASK_BLOCKED\<close>, \<open>FindNextTask\<close> selects task 2 again, and the call
  returns to its caller, which goes on running.
\<close>

theorem C5_Delay_leaves_caller_running:
  "(case run C1_scenario boot of
      Finished sts s \<Rightarrow>
        set sts = {OS_OK} \<and> CurrentTCB s = Some 2 \<and> State (TCBs s 2) = TASK_BLOCKED \<and>
        ReadyList s 20 = \<lparr>Head = Some 2, Tail = Some 2\<rparr> \<and>
        Prev (TCBs s 2) = Some 3 \<and> Next (TCBs s 2) = None \<and> DelayList s = \<lparr>Head = None, Tail = None\<rparr>
    | _ \<Rightarrow> False) \<and>
   (case run C5_scenario boot of
      Finished sts s \<Rightarrow>
        set sts = {OS_OK} \<and> CurrentTCB s = Some 2 \<and> NextTCB s = Some 2 \<and>
        State (TCBs s 2) = TASK_BLOCKED \<and>
        DelayList s = \<lparr>Head = Some 2, Tail = Some 2\<rparr> \<and> DelayTicks (TCBs s 2) = 5 \<and>
        Head (ReadyList s 20) = Some 2 \<and> bit (g_PrioMap s) 20
    | _ \<Rightarrow> False)"
  unfolding C5_scenario_def C1_scenario_def by (simp add: kernel_defs)

text \<open>
  Claim C8 says that \<open>OS_QueueSend\<close> on a queue that is not full copies the message,
  wakes the head of the read-wait list and returns \<open>OS_OK\<close>. In the scenario every call
  before the send that has returned, returned \<open>OS_OK\<close>; task 4 (priority 5) is suspended in
  \<open>OS_QueueReceive\<close> on the empty queue, and the ready list of priority 5 has the head task
  3 and a null tail. The send copies the message, advances \<open>Head\<close>, counts it, pops task 4
  and sets it ready; \<open>OS_ReadyListAdd\<close> then writes through the null tail and the call
  stops without returning: task 4 is on no list.
\<close>

theorem C8_QueueSend_stops_in_wake:
  "(case run (butlast C8_scenario) boot of
      Finished sts s \<Rightarrow>
        set sts = {OS_OK} \<and> CurrentTCB s = Some 2 \<and> g_CriticalNesting s = 0 \<and>
        MsgCount (Queues s 0) = 0 \<and> QSize (Queues s 0) = 2 \<and> MsgSize (Queues s 0) = 4 \<and>
        WaitReadList (Queues s 0) = \<lparr>Head = Some 4, Tail = Some 4\<rparr> \<and>
        Prev (TCBs s 4) = None \<and> Next (TCBs s 4) = None \<and>
        State (TCBs s 4) = TASK_BLOCKED \<and> Priority (TCBs s 4) = 5 \<and>
        ReadyList s 5 = \<lparr>Head = Some 3, Tail = None\<rparr>
    | _ \<Rightarrow> False) \<and>
   (case run C8_scenario boot of
      Stopped f s \<Rightarrow>
        f = NullDeref \<and> State (TCBs s 4) = TASK_READY \<and>
        WaitReadList (Queues s 0) = \<lparr>Head = None, Tail = None\<rparr> \<and>
        MsgCount (Queues s 0) = 1 \<and> Q_Head (Queues s 0) = 1 \<and> Buffer (Queues s 0) 0 = 7 \<and>
        ReadyList s 5 = \<lparr>Head = Some 3, Tail = None\<rparr> \<and>
        Next (TCBs s 3) = Some 2 \<and> Next (TCBs s 2) = None \<and>
        Prev (TCBs s 4) = None \<and> Next (TCBs s 4) = None
    | _ \<Rightarrow> False)"
  unfolding C8_scenario_def hand_over_def by (simp add: kernel_defs)

text \<open>
  The same for the pool: task 4 waits in \<open>OS_MemGet\<close> and task 2 puts the only block back.
  The block is valid and aligned; \<open>OS_MemPut\<close> links it into the free list, pops task 4,
  sets it ready and stops in \<open>OS_ReadyListAdd\<close>.
\<close>

lemma MemPut_stops_in_wake:
  "(case run (butlast pool_scenario) boot of
      Finished sts s \<Rightarrow>
        set sts = {OS_OK} \<and> CurrentTCB s = Some 2 \<and> g_CriticalNesting s = 0 \<and>
        FreeBlocks (Pools s 0) = 0 \<and> Addr (Pools s 0) = 0x20008000 \<and>
        TotalBlocks (Pools s 0) = 1 \<and> BlockSize (Pools s 0) = 32 \<and>
        Mem_WaitList (Pools s 0) = \<lparr>Head = Some 4, Tail = Some 4\<rparr> \<and>
        Prev (TCBs s 4) = None \<and> Next (TCBs s 4) = None \<and>
        State (TCBs s 4) = TASK_BLOCKED \<and> Priority (TCBs s 4) = 5 \<and>
        ReadyList s 5 = \<lparr>Head = Some 3, Tail = None\<rparr>
    | _ \<Rightarrow> False) \<and>
   (case run pool_scenario boot of
      Stopped f s \<Rightarrow>
        f = NullDeref \<and> State (TCBs s 4) = TASK_READY \<and>
        Mem_WaitList (Pools s 0) = \<lparr>Head = None, Tail = None\<rparr> \<and>
        FreeBlocks (Pools s 0) = 1 \<and> FreeList (Pools s 0) = 0x20008000 \<and>
        ReadyList s 5 = \<lparr>Head = Some 3, Tail = None\<rparr> \<and>
        Prev (TCBs s 4) = None \<and> Next (TCBs s 4) = None
    | _ \<Rightarrow> False)"
  unfolding pool_scenario_def hand_over_def by (simp add: kernel_defs)

section \<open>Well-formed lists in the store\<close>

fun seg :: "(nat \<Rightarrow> OS_TCB) \<Rightarrow> ptr \<Rightarrow> nat list \<Rightarrow> ptr \<Rightarrow> bool" where
  "seg h p [] q = True"
| "seg h p (x # xs) q =
     (Prev (h x) = p \<and> Next (h x) = (case xs of [] \<Rightarrow> q | y # ys \<Rightarrow> Some y) \<and> seg h (Some x) xs q)"

definition dll :: "(nat \<Rightarrow> OS_TCB) \<Rightarrow> OS_List \<Rightarrow> nat list \<Rightarrow> bool" where
  "dll h l xs =
     (distinct xs \<and>
      Head l = (if xs = [] then None else Some (hd xs)) \<and>
      Tail l = (if xs = [] then None else Some (last xs)) \<and>
      seg h None xs None)"

definition relinked :: "nat set \<Rightarrow> (nat \<Rightarrow> OS_TCB) \<Rightarrow> (nat \<Rightarrow> OS_TCB) \<Rightarrow> bool" where
  "relinked A h h' =
     (\<forall>x. h' x = (h x)\<lparr>Prev := Prev (h' x), Next := Next (h' x)\<rparr> \<and> (x \<notin> A \<longrightarrow> h' x = h x))"

lemma seg_cong:
  "(\<And>x. x \<in> set xs \<Longrightarrow> Prev (h' x) = Prev (h x) \<and> Next (h' x) = Next (h x)) \<Longrightarrow>
   seg h' p xs q = seg h p xs q"
  by (induction xs arbitrary: p) auto

lemma seg_append:
  "seg h p (as @ bs) q =
     (seg h p as (case bs of [] \<Rightarrow> q | b # bs' \<Rightarrow> Some b) \<and>
      seg h (case as of [] \<Rightarrow> p | a # as' \<Rightarrow> Some (last as)) bs q)"
proof (induction as arbitrary: p)
  case Nil
  then show ?case by simp
next
  case (Cons a as)
  show ?case
  proof (cases as)
    case Nil
    then show ?thesis by (cases bs) auto
  next
    case (Cons a' as')
    then show ?thesis using Cons.IH[of "Some a"] by auto
  qed
qed

lemma relinked_refl: "relinked A h h"
  by (simp add: relinked_def)

lemma relinked_trans:
  "relinked A h h1 \<Longrightarrow> relinked B h1 h2 \<Longrightarrow> relinked (A \<union> B) h h2"
  unfolding relinked_def
  by (metis (no_types, lifting) OS_TCB.update_convs(3) OS_TCB.update_convs(4) Un_iff OS_TCB.surjective OS_TCB.equality OS_TCB.select_convs)

lemma relinked_mono: "relinked A h h' \<Longrightarrow> A \<subseteq> B \<Longrightarrow> relinked B h h'"
  unfolding relinked_def by blast

lemma relinked_fields:
  assumes "relinked A h h'"
  shows "State (h' x) = State (h x)" "DelayTicks (h' x) = DelayTicks (h x)"
    "Priority (h' x) = Priority (h x)" "OriginalPrio (h' x) = OriginalPrio (h x)"
    "stackPtr (h' x) = stackPtr (h x)" "stackLimit (h' x) = stackLimit (h x)"
proof -
  from assms have e: "h' x = (h x)\<lparr>Prev := Prev (h' x), Next := Next (h' x)\<rparr>"
    unfolding relinked_def by blast
  show "State (h' x) = State (h x)" by (subst e) simp
  show "DelayTicks (h' x) = DelayTicks (h x)" by (subst e) simp
  show "Priority (h' x) = Priority (h x)" by (subst e) simp
  show "OriginalPrio (h' x) = OriginalPrio (h x)" by (subst e) simp
  show "stackPtr (h' x) = stackPtr (h x)" by (subst e) simp
  show "stackLimit (h' x) = stackLimit (h x)" by (subst e) simp
qed

lemma relinked_outside: "relinked A h h' \<Longrightarrow> x \<notin> A \<Longrightarrow> h' x = h x"
  unfolding relinked_def by blast

lemma relinked_seg:
  "relinked A h h' \<Longrightarrow> set xs \<inter> A = {} \<Longrightarrow> seg h' p xs q = seg h p xs q"
  by (rule seg_cong) (auto simp: relinked_def)

lemma relinked_dll:
  "relinked A h h' \<Longrightarrow> set xs \<inter> A = {} \<Longrightarrow> dll h' l xs = dll h l xs"
  by (simp add: dll_def relinked_seg)

lemma dll_Nil: "dll h l [] = (Head l = None \<and> Tail l = None)"
  by (simp add: dll_def)

lemma dll_Head: "dll h l (x # xs) \<Longrightarrow> Head l = Some x"
  by (simp add: dll_def)

lemma dll_Head_None: "dll h l xs \<Longrightarrow> (Head l = None) = (xs = [])"
  by (simp add: dll_def)

lemma dll_distinct: "dll h l xs \<Longrightarrow> distinct xs"
  by (simp add: dll_def)

subsection \<open>Reading and writing through a list reference\<close>

lemma TCBs_put_list: "TCBs (put_list l L s) = TCBs s"
  by (cases l) simp_all

lemma get_put_list: "get_list l (put_list l L s) = L"
  by (cases l) simp_all

lemma get_list_TCBs_update: "get_list l (s\<lparr>TCBs := h\<rparr>) = get_list l s"
  by (cases l) simp_all

lemma put_list_TCBs_update: "(put_list l L s)\<lparr>TCBs := h\<rparr> = put_list l L (s\<lparr>TCBs := h\<rparr>)"
  by (cases l) simp_all

lemma put_put_list: "put_list l L (put_list l L' s) = put_list l L s"
  by (cases l) simp_all

lemma put_get_list: "put_list l (get_list l s) (s\<lparr>TCBs := h\<rparr>) = s\<lparr>TCBs := h\<rparr>"
  by (cases l) simp_all

lemmas list_ref_simps =
  TCBs_put_list get_put_list get_list_TCBs_update put_list_TCBs_update put_put_list

lemma List_InsertTail_dll:
  assumes d: "dll (TCBs s) (get_list l s) xs" and t: "t \<notin> set xs"
  shows "\<exists>L h'. List_InsertTail l (Some t) s = Inr (put_list l L (s\<lparr>TCBs := h'\<rparr>)) \<and>
           dll h' L (xs @ [t]) \<and> relinked (insert t (set xs)) (TCBs s) h'"
proof (cases xs rule: rev_cases)
  case Nil
  with d have hd: "Head (get_list l s) = None" by (simp add: dll_def)
  let ?h = "(TCBs s)(t := (TCBs s t)\<lparr>Next := None, Prev := None\<rparr>)"
  have "List_InsertTail l (Some t) s = Inr (put_list l \<lparr>Head = Some t, Tail = Some t\<rparr> (s\<lparr>TCBs := ?h\<rparr>))"
    using hd by (simp add: List_InsertTail_def set_Next_def set_Prev_def list_ref_simps)
  moreover have "dll ?h \<lparr>Head = Some t, Tail = Some t\<rparr> (xs @ [t])"
    using Nil by (simp add: dll_def)
  moreover have "relinked (insert t (set xs)) (TCBs s) ?h"
    by (simp add: relinked_def)
  ultimately show ?thesis by blast
next
  case (snoc ys y)
  from d snoc have hd: "Head (get_list l s) \<noteq> None" and tl: "Tail (get_list l s) = Some y"
    by (cases ys; simp add: dll_def)+
  from t snoc have ty: "t \<noteq> y" by auto
  from d snoc have sg: "seg (TCBs s) None (ys @ [y]) None" and dist: "distinct (ys @ [y])"
    by (simp_all add: dll_def)
  let ?h = "(TCBs s)(y := (TCBs s y)\<lparr>Next := Some t\<rparr>, t := (TCBs s t)\<lparr>Next := None, Prev := Some y\<rparr>)"
  let ?L = "(get_list l s)\<lparr>Tail := Some t\<rparr>"
  have e: "List_InsertTail l (Some t) s = Inr (put_list l ?L (s\<lparr>TCBs := ?h\<rparr>))"
    using hd tl ty
    by (auto simp: List_InsertTail_def set_Next_def set_Prev_def list_ref_simps Let_def fun_upd_twist
             split: option.splits)
  have r: "relinked (insert t (set xs)) (TCBs s) ?h"
    using snoc by (simp add: relinked_def)
  have s1: "seg ?h None ys (Some y)"
  proof -
    have "seg ?h None ys (Some y) = seg (TCBs s) None ys (Some y)"
      using t dist snoc by (intro seg_cong) auto
    then show ?thesis using sg by (simp add: seg_append)
  qed
  have py: "Prev (TCBs s y) = (case ys of [] \<Rightarrow> None | a # as' \<Rightarrow> Some (last ys))"
    using sg by (simp add: seg_append)
  have "seg ?h None ((ys @ [y]) @ [t]) None"
    using s1 py ty by (simp add: seg_append)
  then have "dll ?h ?L (xs @ [t])"
    using d snoc t by (cases ys) (auto simp: dll_def)
  with e r show ?thesis by blast
qed

lemma seg_last_Next:
  "seg h p (as @ [a]) q \<Longrightarrow> Next (h a) = q"
  by (simp add: seg_append)

lemma seg_snoc_iff:
  "seg h p (as @ [a]) q =
     (seg h p as (Some a) \<and> Prev (h a) = (case as of [] \<Rightarrow> p | x # xs \<Rightarrow> Some (last as)) \<and> Next (h a) = q)"
  by (auto simp: seg_append)

lemma List_Remove_dll:
  assumes d: "dll (TCBs s) (get_list l s) xs" and t: "t \<in> set xs"
  shows "\<exists>L h'. List_Remove l (Some t) s = Inr (put_list l L (s\<lparr>TCBs := h'\<rparr>)) \<and>
           dll h' L (remove1 t xs) \<and> relinked (set xs) (TCBs s) h' \<and>
           Prev (h' t) = None \<and> Next (h' t) = None"
proof -
  let ?h = "TCBs s"
  let ?L = "get_list l s"
  from t obtain as bs where xs: "xs = as @ t # bs"
    by (auto simp: in_set_conv_decomp)
  from d xs have dist: "distinct (as @ t # bs)" and sg: "seg ?h None (as @ t # bs) None"
    by (simp_all add: dll_def)
  from dist have tas: "t \<notin> set as" and tbs: "t \<notin> set bs" and ab: "set as \<inter> set bs = {}"
    and das: "distinct as" and dbs: "distinct bs" by auto
  have rm: "remove1 t xs = as @ bs" using xs tas by (simp add: remove1_append)
  from sg have s_as: "seg ?h None as (Some t)"
    and pt: "Prev (?h t) = (case as of [] \<Rightarrow> None | x # ys \<Rightarrow> Some (last as))"
    and nt: "Next (?h t) = (case bs of [] \<Rightarrow> None | b # bs' \<Rightarrow> Some b)"
    and s_bs: "seg ?h (Some t) bs None"
    by (simp_all add: seg_append)
  show ?thesis
  proof (cases as rule: rev_cases)
    case Nil
    note asN = Nil
    from d xs Nil have hdL: "Head ?L = Some t" by (simp add: dll_def)
    show ?thesis
    proof (cases bs)
      case Nil
      let ?h' = "?h(t := (?h t)\<lparr>Prev := None, Next := None\<rparr>)"
      let ?L' = "?L\<lparr>Head := None, Tail := None\<rparr>"
      have "List_Remove l (Some t) s = Inr (put_list l ?L' (s\<lparr>TCBs := ?h'\<rparr>))"
        using pt nt asN Nil
        by (simp add: List_Remove_def set_Next_def set_Prev_def list_ref_simps Let_def)
      moreover have "dll ?h' ?L' (remove1 t xs)" using rm asN Nil by (simp add: dll_def)
      moreover have "relinked (set xs) ?h ?h'" using xs by (simp add: relinked_def)
      ultimately show ?thesis by (intro exI[of _ ?L'] exI[of _ ?h']) simp
    next
      case (Cons b bs')
      from tbs Cons have tb: "t \<noteq> b" by auto
      let ?h' = "?h(b := (?h b)\<lparr>Prev := None\<rparr>, t := (?h t)\<lparr>Prev := None, Next := None\<rparr>)"
      let ?L' = "?L\<lparr>Head := Some b\<rparr>"
      have "List_Remove l (Some t) s = Inr (put_list l ?L' (s\<lparr>TCBs := ?h'\<rparr>))"
        using pt nt asN Cons tb
        by (simp add: List_Remove_def set_Next_def set_Prev_def list_ref_simps Let_def)
      moreover have "dll ?h' ?L' (remove1 t xs)"
      proof -
        have "seg ?h' (Some b) bs' None = seg ?h (Some b) bs' None"
          using tbs dbs Cons by (intro seg_cong) auto
        then have "seg ?h' None (b # bs') None"
          using s_bs Cons tb by auto
        moreover have "Tail ?L = Some (last (b # bs'))" using d xs asN Cons by (simp add: dll_def)
        ultimately show ?thesis using rm asN Cons dbs by (simp add: dll_def)
      qed
      moreover have "relinked (set xs) ?h ?h'" using xs Cons by (simp add: relinked_def)
      ultimately show ?thesis using tb by (intro exI[of _ ?L'] exI[of _ ?h']) simp
    qed
  next
    case (snoc as' a)
    note asS = snoc
    from tas snoc have ta: "t \<noteq> a" by auto
    from pt snoc have pt': "Prev (?h t) = Some a" by (cases as') simp_all
    from s_as snoc have s_as': "seg ?h None as' (Some a)"
      and pa: "Prev (?h a) = (case as' of [] \<Rightarrow> None | x # ys \<Rightarrow> Some (last as'))"
      by (simp_all add: seg_snoc_iff)
    from das snoc have aas: "a \<notin> set as'" by auto
    from d xs snoc have hdL: "Head ?L = Some (hd (as' @ [a]))"
      by (simp add: dll_def hd_append)
    show ?thesis
    proof (cases bs)
      case Nil
      let ?h' = "?h(a := (?h a)\<lparr>Next := None\<rparr>, t := (?h t)\<lparr>Prev := None, Next := None\<rparr>)"
      let ?L' = "?L\<lparr>Tail := Some a\<rparr>"
      have "List_Remove l (Some t) s = Inr (put_list l ?L' (s\<lparr>TCBs := ?h'\<rparr>))"
        using pt' nt asS Nil ta
        by (simp add: List_Remove_def set_Next_def set_Prev_def list_ref_simps Let_def)
      moreover have "dll ?h' ?L' (remove1 t xs)"
      proof -
        have "seg ?h' None as' (Some a) = seg ?h None as' (Some a)"
          using tas aas asS by (intro seg_cong) auto
        then have "seg ?h' None (as' @ [a]) None"
          using s_as' pa ta by (simp add: seg_snoc_iff)
        then show ?thesis using rm asS Nil das hdL by (cases as') (simp_all add: dll_def)
      qed
      moreover have "relinked (set xs) ?h ?h'" using xs asS by (simp add: relinked_def)
      ultimately show ?thesis using ta by (intro exI[of _ ?L'] exI[of _ ?h']) simp
    next
      case (Cons b bs')
      from tbs Cons have tb: "t \<noteq> b" by auto
      from ab asS Cons have abn: "a \<noteq> b" by auto
      let ?h' = "?h(a := (?h a)\<lparr>Next := Some b\<rparr>, b := (?h b)\<lparr>Prev := Some a\<rparr>,
                    t := (?h t)\<lparr>Prev := None, Next := None\<rparr>)"
      have "List_Remove l (Some t) s = Inr (put_list l ?L (s\<lparr>TCBs := ?h'\<rparr>))"
        using pt' nt asS Cons ta tb abn
        by (simp add: List_Remove_def set_Next_def set_Prev_def list_ref_simps Let_def put_get_list)
      moreover have "dll ?h' ?L (remove1 t xs)"
      proof -
        have "seg ?h' None as' (Some a) = seg ?h None as' (Some a)"
          using tas aas asS ab Cons by (intro seg_cong) auto
        then have 1: "seg ?h' None (as' @ [a]) (Some b)"
          using s_as' pa ta abn by (simp add: seg_snoc_iff)
        have "seg ?h' (Some b) bs' None = seg ?h (Some b) bs' None"
          using tbs dbs Cons ab asS by (intro seg_cong) auto
        then have 2: "seg ?h' (Some a) (b # bs') None"
          using s_bs Cons tb abn by auto
        have "seg ?h' None ((as' @ [a]) @ (b # bs')) None"
          using 1 2 by (subst seg_append) (cases as'; simp)
        moreover have "Tail ?L = Some (last (b # bs'))" using d xs Cons by (simp add: dll_def)
        moreover have "distinct (as @ bs)" using dist by auto
        ultimately show ?thesis using rm asS Cons hdL by (cases as') (simp_all add: dll_def)
      qed
      moreover have "relinked (set xs) ?h ?h'" using xs asS Cons by (simp add: relinked_def)
      ultimately show ?thesis using ta tb by (intro exI[of _ ?L] exI[of _ ?h']) simp
    qed
  qed
qed

lemma List_PopHead_dll:
  assumes d: "dll (TCBs s) (get_list l s) (w # ws)"
  shows "\<exists>L h'. List_PopHead l s = Inr (Some w, put_list l L (s\<lparr>TCBs := h'\<rparr>)) \<and>
           dll h' L ws \<and> relinked (insert w (set ws)) (TCBs s) h' \<and>
           Prev (h' w) = None \<and> Next (h' w) = None"
proof -
  have hd: "Head (get_list l s) = Some w" using d by (rule dll_Head)
  from List_Remove_dll[OF d, of w] obtain L h' where
    r: "List_Remove l (Some w) s = Inr (put_list l L (s\<lparr>TCBs := h'\<rparr>))"
    and p: "dll h' L ws" "relinked (insert w (set ws)) (TCBs s) h'"
       "Prev (h' w) = None" "Next (h' w) = None"
    by auto
  have "List_PopHead l s = Inr (Some w, put_list l L (s\<lparr>TCBs := h'\<rparr>))"
    using hd r by (simp add: List_PopHead_def bindR_def)
  with p show ?thesis by blast
qed

subsection \<open>The ready set\<close>

text \<open>
  \<open>ready_ok s rl\<close>: the ready list of each priority \<open>p\<close> is a well-formed list holding
  the tasks \<open>rl p\<close> in order, each of them has priority \<open>p\<close>, and bit \<open>p\<close> of the
  bitmap is set exactly when \<open>rl p\<close> is not empty.
\<close>

definition ready_ok :: "kernel \<Rightarrow> (nat \<Rightarrow> nat list) \<Rightarrow> bool" where
  "ready_ok s rl =
     (\<forall>p<OS_MAX_PRIO. dll (TCBs s) (ReadyList s p) (rl p) \<and>
        (\<forall>t\<in>set (rl p). Priority (TCBs s t) = p) \<and>
        bit (g_PrioMap s) p = (rl p \<noteq> []))"

definition P1 :: "kernel \<Rightarrow> bool" where
  "P1 s = (\<forall>p<OS_MAX_PRIO. bit (g_PrioMap s) p = (Head (ReadyList s p) \<noteq> None))"

lemma ready_ok_P1: "ready_ok s rl \<Longrightarrow> P1 s"
  unfolding ready_ok_def P1_def
proof (intro allI impI)
  fix p
  assume a: "\<forall>p<OS_MAX_PRIO. dll (TCBs s) (ReadyList s p) (rl p) \<and>
               (\<forall>t\<in>set (rl p). Priority (TCBs s t) = p) \<and> bit (g_PrioMap s) p = (rl p \<noteq> [])"
    and p: "p < OS_MAX_PRIO"
  from a p have "dll (TCBs s) (ReadyList s p) (rl p)" and b: "bit (g_PrioMap s) p = (rl p \<noteq> [])"
    by simp_all
  then show "bit (g_PrioMap s) p = (Head (ReadyList s p) \<noteq> None)"
    using dll_Head_None[of "TCBs s" "ReadyList s p" "rl p"] by simp
qed

lemma bit_set_prio:
  fixes M :: "32 word"
  shows "p < 32 \<Longrightarrow> bit (M OR 2 ^ p) q = (q = p \<or> bit M q)"
  by (auto simp: bit_or_iff bit_exp_iff)

lemma bit_clear_prio:
  fixes M :: "32 word"
  shows "bit (M AND NOT (2 ^ p)) q = (q \<noteq> p \<and> bit M q)"
  by (auto simp: bit_and_iff bit_not_iff bit_exp_iff dest: bit32)

lemma OS_ReadyListAdd_ok:
  assumes ok: "ready_ok s rl" and pr: "Priority (TCBs s t) = p" and p: "p < OS_MAX_PRIO"
    and fresh: "\<forall>q<OS_MAX_PRIO. t \<notin> set (rl q)"
  shows "\<exists>L h'. OS_ReadyListAdd (Some t) s =
             Inr (put_list (ReadyRef p) L (s\<lparr>g_PrioMap := g_PrioMap s OR push_bit p 1, TCBs := h'\<rparr>)) \<and>
           relinked (insert t (set (rl p))) (TCBs s) h' \<and>
           ready_ok (put_list (ReadyRef p) L (s\<lparr>g_PrioMap := g_PrioMap s OR push_bit p 1, TCBs := h'\<rparr>))
                    (rl(p := rl p @ [t]))"
proof -
  let ?s0 = "s\<lparr>g_PrioMap := g_PrioMap s OR push_bit p 1\<rparr>"
  from ok p have d: "dll (TCBs ?s0) (get_list (ReadyRef p) ?s0) (rl p)"
    by (simp add: ready_ok_def)
  from fresh p have t: "t \<notin> set (rl p)" by simp
  from List_InsertTail_dll[OF d t] obtain L h' where
    e: "List_InsertTail (ReadyRef p) (Some t) ?s0 = Inr (put_list (ReadyRef p) L (?s0\<lparr>TCBs := h'\<rparr>))"
    and dl: "dll h' L (rl p @ [t])" and rel: "relinked (insert t (set (rl p))) (TCBs s) h'"
    by auto
  let ?s' = "put_list (ReadyRef p) L (s\<lparr>g_PrioMap := g_PrioMap s OR push_bit p 1, TCBs := h'\<rparr>)"
  have 1: "OS_ReadyListAdd (Some t) s = Inr ?s'"
    using e pr p by (simp add: OS_ReadyListAdd_def)
  have p32: "p < 32" using p by (simp add: OS_MAX_PRIO_def)
  have "ready_ok ?s' (rl(p := rl p @ [t]))"
    unfolding ready_ok_def
  proof (intro allI impI)
    fix q assume q: "q < OS_MAX_PRIO"
    show "dll (TCBs ?s') (ReadyList ?s' q) ((rl(p := rl p @ [t])) q) \<and>
          (\<forall>x\<in>set ((rl(p := rl p @ [t])) q). Priority (TCBs ?s' x) = q) \<and>
          bit (g_PrioMap ?s') q = ((rl(p := rl p @ [t])) q \<noteq> [])"
    proof (cases "q = p")
      case True
      have "\<forall>x\<in>set (rl p @ [t]). Priority (h' x) = p"
        using ok p pr by (auto simp: relinked_fields[OF rel] ready_ok_def)
      then show ?thesis using True dl p32 by (simp add: bit_set_prio)
    next
      case False
      from ok q have dq: "dll (TCBs s) (ReadyList s q) (rl q)"
        and pq: "\<forall>x\<in>set (rl q). Priority (TCBs s x) = q"
        and bq: "bit (g_PrioMap s) q = (rl q \<noteq> [])"
        by (simp_all add: ready_ok_def)
      from ok p have pp: "\<forall>x\<in>set (rl p). Priority (TCBs s x) = p" by (simp add: ready_ok_def)
      have disj: "set (rl q) \<inter> insert t (set (rl p)) = {}"
        using pq pp fresh q False by auto
      have "dll h' (ReadyList s q) (rl q)"
        using relinked_dll[OF rel disj] dq by simp
      then show ?thesis using False pq bq p32 by (simp add: bit_set_prio relinked_fields[OF rel])
    qed
  qed
  with 1 rel show ?thesis by blast
qed

lemma OS_ReadyListRemove_ok:
  assumes ok: "ready_ok s rl" and pr: "Priority (TCBs s t) = p" and p: "p < OS_MAX_PRIO"
    and mem: "t \<in> set (rl p)"
  shows "\<exists>L h' M. OS_ReadyListRemove (Some t) s =
             Inr (put_list (ReadyRef p) L (s\<lparr>g_PrioMap := M, TCBs := h'\<rparr>)) \<and>
           relinked (set (rl p)) (TCBs s) h' \<and> Prev (h' t) = None \<and> Next (h' t) = None \<and>
           ready_ok (put_list (ReadyRef p) L (s\<lparr>g_PrioMap := M, TCBs := h'\<rparr>))
                    (rl(p := remove1 t (rl p)))"
proof -
  from ok p have d: "dll (TCBs s) (get_list (ReadyRef p) s) (rl p)"
    by (simp add: ready_ok_def)
  from List_Remove_dll[OF d mem] obtain L h' where
    e: "List_Remove (ReadyRef p) (Some t) s = Inr (put_list (ReadyRef p) L (s\<lparr>TCBs := h'\<rparr>))"
    and dl: "dll h' L (remove1 t (rl p))" and rel: "relinked (set (rl p)) (TCBs s) h'"
    and pn: "Prev (h' t) = None" "Next (h' t) = None"
    by auto
  let ?M = "if remove1 t (rl p) = [] then g_PrioMap s AND NOT (push_bit p 1) else g_PrioMap s"
  let ?s' = "put_list (ReadyRef p) L (s\<lparr>g_PrioMap := ?M, TCBs := h'\<rparr>)"
  have hn: "(Head L = None) = (remove1 t (rl p) = [])" using dl by (rule dll_Head_None)
  have pt: "Priority (h' t) = p" using pr by (simp add: relinked_fields[OF rel])
  have 1: "OS_ReadyListRemove (Some t) s = Inr ?s'"
    using e pr p pt hn by (simp add: OS_ReadyListRemove_def bindR_def)
  have "ready_ok ?s' (rl(p := remove1 t (rl p)))"
    unfolding ready_ok_def
  proof (intro allI impI)
    fix q assume q: "q < OS_MAX_PRIO"
    from ok q have dq: "dll (TCBs s) (ReadyList s q) (rl q)"
      and pq: "\<forall>x\<in>set (rl q). Priority (TCBs s x) = q"
      and bq: "bit (g_PrioMap s) q = (rl q \<noteq> [])"
      by (simp_all add: ready_ok_def)
    show "dll (TCBs ?s') (ReadyList ?s' q) ((rl(p := remove1 t (rl p))) q) \<and>
          (\<forall>x\<in>set ((rl(p := remove1 t (rl p))) q). Priority (TCBs ?s' x) = q) \<and>
          bit (g_PrioMap ?s') q = ((rl(p := remove1 t (rl p))) q \<noteq> [])"
    proof (cases "q = p")
      case True
      have "\<forall>x\<in>set (remove1 t (rl p)). Priority (h' x) = p"
        using pq True by (auto simp: relinked_fields[OF rel] dest: notin_set_remove1)
      moreover have "rl p \<noteq> []" using mem by auto
      ultimately show ?thesis using True dl bq by (simp add: bit_clear_prio)
    next
      case False
      from ok p have pp: "\<forall>x\<in>set (rl p). Priority (TCBs s x) = p" by (simp add: ready_ok_def)
      have disj: "set (rl q) \<inter> set (rl p) = {}" using pq pp False by auto
      have "dll h' (ReadyList s q) (rl q)"
        using relinked_dll[OF rel disj] dq by simp
      then show ?thesis using False pq bq by (simp add: bit_clear_prio relinked_fields[OF rel])
    qed
  qed
  with 1 rel pn show ?thesis by blast
qed

lemma FindNextTask_ok:
  assumes ok: "ready_ok s rl" and ne: "rl q \<noteq> []" and q: "q < OS_MAX_PRIO"
  shows "FindNextTask s = Inr (Some (hd (rl (OS_GetTopPrio (g_PrioMap s))))) \<and>
         OS_GetTopPrio (g_PrioMap s) < OS_MAX_PRIO \<and>
         rl (OS_GetTopPrio (g_PrioMap s)) \<noteq> [] \<and>
         (\<forall>j < OS_GetTopPrio (g_PrioMap s). rl j = [])"
proof -
  let ?t = "OS_GetTopPrio (g_PrioMap s)"
  from ok ne q have "bit (g_PrioMap s) q" by (simp add: ready_ok_def)
  then have nz: "g_PrioMap s \<noteq> 0" by (auto simp: word_zero_bits)
  from GetTopPrio_lowest[OF nz] have b: "bit (g_PrioMap s) ?t"
    and low: "\<forall>j < ?t. \<not> bit (g_PrioMap s) j" by auto
  have t: "?t < OS_MAX_PRIO" using GetTopPrio_lt[OF nz] by (simp add: OS_MAX_PRIO_def)
  from ok t b have ne': "rl ?t \<noteq> []" and d: "dll (TCBs s) (ReadyList s ?t) (rl ?t)"
    by (simp_all add: ready_ok_def)
  then have hd: "Head (ReadyList s ?t) = Some (hd (rl ?t))" by (simp add: dll_def)
  have "\<forall>j < ?t. rl j = []"
  proof (intro allI impI)
    fix j assume j: "j < ?t"
    then have "j < OS_MAX_PRIO" using t by simp
    with ok low j show "rl j = []" by (auto simp: ready_ok_def)
  qed
  then show ?thesis using nz hd t ne' by (simp add: FindNextTask_def)
qed

lemma OS_ExitCritical_ok:
  "g_CriticalNesting s \<noteq> 0 \<Longrightarrow>
   OS_ExitCritical s =
     Inr (s\<lparr>g_CriticalNesting := g_CriticalNesting s - 1,
            IRQ_Enabled := (g_CriticalNesting s = 1 \<or> IRQ_Enabled s)\<rparr>)"
  by (auto simp: OS_ExitCritical_def OS_Enable_IRQ_def Let_def)

lemma ReadyList_put_list: "\<forall>p. l \<noteq> ReadyRef p \<Longrightarrow> ReadyList (put_list l L s) = ReadyList s"
  by (cases l) simp_all

lemma g_PrioMap_put_list: "g_PrioMap (put_list l L s) = g_PrioMap s"
  by (cases l) simp_all

lemma get_list_put_Ready: "\<forall>p. l \<noteq> ReadyRef p \<Longrightarrow> get_list l (put_list (ReadyRef p) L s) = get_list l s"
  by (cases l) simp_all

lemma get_list_g_PrioMap_update: "get_list l (s\<lparr>g_PrioMap := M\<rparr>) = get_list l s"
  by (cases l) simp_all

lemma put_list_g_PrioMap_update: "(put_list l L s)\<lparr>g_PrioMap := M\<rparr> = put_list l L (s\<lparr>g_PrioMap := M\<rparr>)"
  by (cases l) simp_all

lemma ready_ok_cong:
  assumes "ready_ok s rl" and "ReadyList s' = ReadyList s" and "g_PrioMap s' = g_PrioMap s"
    and "\<And>q x. q < OS_MAX_PRIO \<Longrightarrow> x \<in> set (rl q) \<Longrightarrow>
           Prev (TCBs s' x) = Prev (TCBs s x) \<and> Next (TCBs s' x) = Next (TCBs s x) \<and>
           Priority (TCBs s' x) = Priority (TCBs s x)"
  shows "ready_ok s' rl"
  unfolding ready_ok_def
proof (intro allI impI)
  fix p assume p: "p < OS_MAX_PRIO"
  from assms(1) p have d: "dll (TCBs s) (ReadyList s p) (rl p)"
    and pq: "\<forall>x\<in>set (rl p). Priority (TCBs s x) = p"
    and bq: "bit (g_PrioMap s) p = (rl p \<noteq> [])"
    by (simp_all add: ready_ok_def)
  have "seg (TCBs s') None (rl p) None = seg (TCBs s) None (rl p) None"
    using assms(4)[OF p] by (intro seg_cong) auto
  then have "dll (TCBs s') (ReadyList s' p) (rl p)" using d assms(2) by (simp add: dll_def)
  moreover have "\<forall>x\<in>set (rl p). Priority (TCBs s' x) = p" using pq assms(4)[OF p] by simp
  ultimately show "dll (TCBs s') (ReadyList s' p) (rl p) \<and>
      (\<forall>t\<in>set (rl p). Priority (TCBs s' t) = p) \<and> bit (g_PrioMap s') p = (rl p \<noteq> [])"
    using bq assms(3) by simp
qed

text \<open>
  Waking the head of a wait list: \<open>List_PopHead\<close>, \<open>State = TASK_READY\<close>,
  \<open>OS_ReadyListAdd\<close>.
\<close>

lemma wake_ok:
  assumes ok: "ready_ok s rl" and d: "dll (TCBs s) (get_list l s) (w # ws)"
    and wl: "\<forall>q. l \<noteq> ReadyRef q"
    and pr: "Priority (TCBs s w) = p" and p: "p < OS_MAX_PRIO"
    and fresh: "\<forall>q<OS_MAX_PRIO. set (w # ws) \<inter> set (rl q) = {}"
  shows "\<exists>L1 L2 h1 h2.
           List_PopHead l s = Inr (Some w, put_list l L1 (s\<lparr>TCBs := h1\<rparr>)) \<and>
           OS_ReadyListAdd (Some w) (set_State w TASK_READY (put_list l L1 (s\<lparr>TCBs := h1\<rparr>))) =
             Inr (put_list (ReadyRef p) L2
                    (put_list l L1 (s\<lparr>g_PrioMap := g_PrioMap s OR push_bit p 1, TCBs := h2\<rparr>))) \<and>
           ready_ok (put_list (ReadyRef p) L2
                    (put_list l L1 (s\<lparr>g_PrioMap := g_PrioMap s OR push_bit p 1, TCBs := h2\<rparr>)))
                    (rl(p := rl p @ [w])) \<and>
           dll h2 L1 ws \<and> State (h2 w) = TASK_READY \<and>
           (\<forall>x. x \<noteq> w \<longrightarrow> State (h2 x) = State (TCBs s x)) \<and>
           (\<forall>x. Priority (h2 x) = Priority (TCBs s x) \<and> DelayTicks (h2 x) = DelayTicks (TCBs s x) \<and>
                OriginalPrio (h2 x) = OriginalPrio (TCBs s x) \<and> stackPtr (h2 x) = stackPtr (TCBs s x) \<and>
                stackLimit (h2 x) = stackLimit (TCBs s x)) \<and>
           (\<forall>x. x \<notin> insert w (set ws \<union> set (rl p)) \<longrightarrow> h2 x = TCBs s x)"
proof -
  from List_PopHead_dll[OF d] obtain L1 h1 where
    e1: "List_PopHead l s = Inr (Some w, put_list l L1 (s\<lparr>TCBs := h1\<rparr>))"
    and d1: "dll h1 L1 ws" and r1: "relinked (insert w (set ws)) (TCBs s) h1"
    by auto
  let ?hm = "h1(w := (h1 w)\<lparr>State := TASK_READY\<rparr>)"
  let ?sm = "put_list l L1 (s\<lparr>TCBs := ?hm\<rparr>)"
  have sm: "set_State w TASK_READY (put_list l L1 (s\<lparr>TCBs := h1\<rparr>)) = ?sm"
    by (simp add: set_State_def list_ref_simps)
  have okm: "ready_ok ?sm rl"
  proof (rule ready_ok_cong[OF ok])
    show "ReadyList ?sm = ReadyList s" using wl by (simp add: ReadyList_put_list)
    show "g_PrioMap ?sm = g_PrioMap s" by (simp add: g_PrioMap_put_list)
    fix q x assume q: "q < OS_MAX_PRIO" and x: "x \<in> set (rl q)"
    with fresh have "x \<notin> insert w (set ws)" by auto
    then have "x \<noteq> w" and "h1 x = TCBs s x" using relinked_outside[OF r1] by auto
    then show "Prev (TCBs ?sm x) = Prev (TCBs s x) \<and> Next (TCBs ?sm x) = Next (TCBs s x) \<and>
          Priority (TCBs ?sm x) = Priority (TCBs s x)"
      by (simp add: list_ref_simps)
  qed
  have prm: "Priority (TCBs ?sm w) = p" using pr by (simp add: list_ref_simps relinked_fields[OF r1])
  have fr: "\<forall>q<OS_MAX_PRIO. w \<notin> set (rl q)" using fresh by auto
  from OS_ReadyListAdd_ok[OF okm prm p fr] obtain L2 h2 where
    e2: "OS_ReadyListAdd (Some w) ?sm =
           Inr (put_list (ReadyRef p) L2 (?sm\<lparr>g_PrioMap := g_PrioMap ?sm OR push_bit p 1, TCBs := h2\<rparr>))"
    and r2: "relinked (insert w (set (rl p))) (TCBs ?sm) h2"
    and ok2: "ready_ok (put_list (ReadyRef p) L2 (?sm\<lparr>g_PrioMap := g_PrioMap ?sm OR push_bit p 1, TCBs := h2\<rparr>))
                (rl(p := rl p @ [w]))"
    by auto
  have form: "?sm\<lparr>g_PrioMap := g_PrioMap ?sm OR push_bit p 1, TCBs := h2\<rparr> =
              put_list l L1 (s\<lparr>g_PrioMap := g_PrioMap s OR push_bit p 1, TCBs := h2\<rparr>)"
    by (simp add: list_ref_simps g_PrioMap_put_list put_list_g_PrioMap_update)
  have r2': "relinked (insert w (set (rl p))) ?hm h2" using r2 by (simp add: list_ref_simps)
  from d have wws: "w \<notin> set ws" by (simp add: dll_def)
  have disj: "set ws \<inter> insert w (set (rl p)) = {}" using wws fresh p by auto
  have "dll ?hm L1 ws = dll h1 L1 ws"
    unfolding dll_def using wws by (simp add: seg_cong[of ws ?hm h1])
  then have d2: "dll h2 L1 ws" using relinked_dll[OF r2' disj] d1 by simp
  have st: "State (h2 w) = TASK_READY" by (simp add: relinked_fields[OF r2'])
  have sto: "\<forall>x. x \<noteq> w \<longrightarrow> State (h2 x) = State (TCBs s x)"
    by (simp add: relinked_fields[OF r2'] relinked_fields[OF r1])
  have fl: "\<forall>x. Priority (h2 x) = Priority (TCBs s x) \<and> DelayTicks (h2 x) = DelayTicks (TCBs s x) \<and>
                OriginalPrio (h2 x) = OriginalPrio (TCBs s x) \<and> stackPtr (h2 x) = stackPtr (TCBs s x) \<and>
                stackLimit (h2 x) = stackLimit (TCBs s x)"
    by (simp add: relinked_fields[OF r2'] relinked_fields[OF r1])
  have out: "\<forall>x. x \<notin> insert w (set ws \<union> set (rl p)) \<longrightarrow> h2 x = TCBs s x"
    using relinked_outside[OF r2'] relinked_outside[OF r1] by auto
  let ?S = "put_list (ReadyRef p) L2
              (put_list l L1 (s\<lparr>g_PrioMap := g_PrioMap s OR push_bit p 1, TCBs := h2\<rparr>))"
  have e2': "OS_ReadyListAdd (Some w) (set_State w TASK_READY (put_list l L1 (s\<lparr>TCBs := h1\<rparr>))) = Inr ?S"
    using e2 unfolding sm form .
  have ok2': "ready_ok ?S (rl(p := rl p @ [w]))"
    using ok2 unfolding form .
  have "List_PopHead l s = Inr (Some w, put_list l L1 (s\<lparr>TCBs := h1\<rparr>)) \<and>
        OS_ReadyListAdd (Some w) (set_State w TASK_READY (put_list l L1 (s\<lparr>TCBs := h1\<rparr>))) = Inr ?S \<and>
        ready_ok ?S (rl(p := rl p @ [w])) \<and> dll h2 L1 ws \<and> State (h2 w) = TASK_READY \<and>
        (\<forall>x. x \<noteq> w \<longrightarrow> State (h2 x) = State (TCBs s x)) \<and>
        (\<forall>x. Priority (h2 x) = Priority (TCBs s x) \<and> DelayTicks (h2 x) = DelayTicks (TCBs s x) \<and>
             OriginalPrio (h2 x) = OriginalPrio (TCBs s x) \<and> stackPtr (h2 x) = stackPtr (TCBs s x) \<and>
             stackLimit (h2 x) = stackLimit (TCBs s x)) \<and>
        (\<forall>x. x \<notin> insert w (set ws \<union> set (rl p)) \<longrightarrow> h2 x = TCBs s x)"
    using e1 e2' ok2' d2 st sto fl out by (intro conjI)
  then show ?thesis by (intro exI)
qed

section \<open>Memory pool and message queue\<close>

lemma critical_section_roundtrip:
  assumes "g_CriticalNesting s + 1 \<noteq> 0"
  shows "OS_ExitCritical (OS_EnterCritical s) = Inr (s\<lparr>IRQ_Enabled := (g_CriticalNesting s = 0)\<rparr>)"
  using assms
  by (simp add: OS_ExitCritical_ok OS_EnterCritical_def OS_Disable_IRQ_def Let_def)

lemma pool_range:
  fixes b a n z :: "32 word"
  assumes fits: "unat a + unat n * unat z < 2 ^ 32"
  shows "(b < a \<or> b \<ge> a + n * z) = (\<not> (unat a \<le> unat b \<and> unat b < unat a + unat n * unat z))"
proof -
  have m: "unat (n * z) = unat n * unat z"
    using fits by (simp add: unat_word_ariths)
  have "unat (a + n * z) = unat a + unat n * unat z"
    using fits m by (simp add: unat_word_ariths)
  then show ?thesis by (auto simp: word_less_nat_alt word_le_nat_alt)
qed

lemma pool_align:
  fixes b a z :: "32 word"
  assumes "unat a \<le> unat b"
  shows "((b - a) mod z \<noteq> 0) = ((unat b - unat a) mod unat z \<noteq> 0)"
proof -
  have "a \<le> b" using assms by (simp add: word_le_nat_alt)
  then have "unat (b - a) = unat b - unat a" by (simp add: unat_sub)
  then have "unat ((b - a) mod z) = (unat b - unat a) mod unat z" by (simp add: unat_mod)
  then show ?thesis by (metis unat_eq_0)
qed

lemma OS_MemPut_error:
  assumes nn: "p_block \<noteq> 0"
    and fits: "unat (Addr (Pools s i)) + unat (TotalBlocks (Pools s i)) * unat (BlockSize (Pools s i)) < 2 ^ 32"
    and nest: "g_CriticalNesting s + 1 \<noteq> 0"
  shows "(\<not> (unat (Addr (Pools s i)) \<le> unat p_block \<and>
             unat p_block < unat (Addr (Pools s i)) + unat (TotalBlocks (Pools s i)) * unat (BlockSize (Pools s i))) \<longrightarrow>
          OS_MemPut (Some i) p_block s =
            Inr (OS_ERR_INVALID_ADDR, s\<lparr>IRQ_Enabled := (g_CriticalNesting s = 0)\<rparr>)) \<and>
         (unat (Addr (Pools s i)) \<le> unat p_block \<and>
          unat p_block < unat (Addr (Pools s i)) + unat (TotalBlocks (Pools s i)) * unat (BlockSize (Pools s i)) \<and>
          (unat p_block - unat (Addr (Pools s i))) mod unat (BlockSize (Pools s i)) \<noteq> 0 \<longrightarrow>
          OS_MemPut (Some i) p_block s =
            Inr (OS_ERR_NOT_ALIGN, s\<lparr>IRQ_Enabled := (g_CriticalNesting s = 0)\<rparr>))"
proof -
  let ?s0 = "OS_EnterCritical s"
  have p0: "Pools ?s0 = Pools s" by (simp add: OS_EnterCritical_def OS_Disable_IRQ_def Let_def)
  have rt: "OS_ExitCritical ?s0 = Inr (s\<lparr>IRQ_Enabled := (g_CriticalNesting s = 0)\<rparr>)"
    by (rule critical_section_roundtrip[OF nest])
  note rg = pool_range[OF fits, of p_block]
  show ?thesis
  proof (intro conjI impI)
    assume "\<not> (unat (Addr (Pools s i)) \<le> unat p_block \<and>
             unat p_block < unat (Addr (Pools s i)) + unat (TotalBlocks (Pools s i)) * unat (BlockSize (Pools s i)))"
    then have "p_block < Addr (Pools s i) \<or> p_block \<ge> Addr (Pools s i) + TotalBlocks (Pools s i) * BlockSize (Pools s i)"
      using rg by simp
    then show "OS_MemPut (Some i) p_block s =
            Inr (OS_ERR_INVALID_ADDR, s\<lparr>IRQ_Enabled := (g_CriticalNesting s = 0)\<rparr>)"
      using nn rt p0 by (simp add: OS_MemPut_def Let_def bindR_def)
  next
    assume a: "unat (Addr (Pools s i)) \<le> unat p_block \<and>
          unat p_block < unat (Addr (Pools s i)) + unat (TotalBlocks (Pools s i)) * unat (BlockSize (Pools s i)) \<and>
          (unat p_block - unat (Addr (Pools s i))) mod unat (BlockSize (Pools s i)) \<noteq> 0"
    then have 1: "\<not> (p_block < Addr (Pools s i) \<or> p_block \<ge> Addr (Pools s i) + TotalBlocks (Pools s i) * BlockSize (Pools s i))"
      using rg by simp
    from a have 2: "(p_block - Addr (Pools s i)) mod BlockSize (Pools s i) \<noteq> 0"
      using pool_align[of "Addr (Pools s i)" p_block "BlockSize (Pools s i)"] by simp
    show "OS_MemPut (Some i) p_block s =
            Inr (OS_ERR_NOT_ALIGN, s\<lparr>IRQ_Enabled := (g_CriticalNesting s = 0)\<rparr>)"
      using nn rt p0 1 2 by (simp add: OS_MemPut_def Let_def bindR_def)
  qed
qed

lemma OS_MemPut_ok:
  assumes nn: "p_block \<noteq> 0"
    and fits: "unat (Addr (Pools s i)) + unat (TotalBlocks (Pools s i)) * unat (BlockSize (Pools s i)) < 2 ^ 32"
    and nest: "g_CriticalNesting s + 1 \<noteq> 0"
    and ok: "ready_ok s rl"
    and wl: "dll (TCBs s) (Mem_WaitList (Pools s i)) ws"
    and wp: "\<forall>w\<in>set ws. Priority (TCBs s w) < OS_MAX_PRIO \<and> (\<forall>q<OS_MAX_PRIO. w \<notin> set (rl q))"
    and rg: "unat (Addr (Pools s i)) \<le> unat p_block"
         "unat p_block < unat (Addr (Pools s i)) + unat (TotalBlocks (Pools s i)) * unat (BlockSize (Pools s i))"
    and al: "(unat p_block - unat (Addr (Pools s i))) mod unat (BlockSize (Pools s i)) = 0"
  shows "\<exists>s'. OS_MemPut (Some i) p_block s = Inr (OS_OK, s') \<and>
           FreeList (Pools s' i) = p_block \<and>
           Link (Pools s' i) = (Link (Pools s i))(p_block := FreeList (Pools s i)) \<and>
           FreeBlocks (Pools s' i) = FreeBlocks (Pools s i) + 1 \<and>
           Addr (Pools s' i) = Addr (Pools s i) \<and> BlockSize (Pools s' i) = BlockSize (Pools s i) \<and>
           TotalBlocks (Pools s' i) = TotalBlocks (Pools s i) \<and>
           CurrentTCB s' = CurrentTCB s \<and> g_CriticalNesting s' = g_CriticalNesting s \<and>
           (case ws of
              [] \<Rightarrow> Mem_WaitList (Pools s' i) = Mem_WaitList (Pools s i) \<and> TCBs s' = TCBs s \<and>
                    ReadyList s' = ReadyList s \<and> g_PrioMap s' = g_PrioMap s \<and>
                    SWI_Pending s' = SWI_Pending s \<and> NextTCB s' = NextTCB s
            | w # ws' \<Rightarrow>
                dll (TCBs s') (Mem_WaitList (Pools s' i)) ws' \<and>
                State (TCBs s' w) = TASK_READY \<and>
                ready_ok s' (rl(Priority (TCBs s w) := rl (Priority (TCBs s w)) @ [w])) \<and>
                SWI_Pending s' \<and>
                NextTCB s' = Some (hd ((rl(Priority (TCBs s w) := rl (Priority (TCBs s w)) @ [w]))
                                         (OS_GetTopPrio (g_PrioMap s')))) \<and>
                (\<forall>x. x \<noteq> w \<longrightarrow> State (TCBs s' x) = State (TCBs s x)))"
proof -
  let ?s0 = "OS_EnterCritical s"
  let ?m = "Pools s i"
  let ?m3 = "?m\<lparr>Link := (Link ?m)(p_block := FreeList ?m), FreeList := p_block,
                  FreeBlocks := FreeBlocks ?m + 1\<rparr>"
  let ?s1 = "?s0\<lparr>Pools := (Pools ?s0)(i := ?m3)\<rparr>"
  have p0: "Pools ?s0 = Pools s" by (simp add: OS_EnterCritical_def OS_Disable_IRQ_def Let_def)
  have 1: "\<not> (p_block < Addr ?m \<or> p_block \<ge> Addr ?m + TotalBlocks ?m * BlockSize ?m)"
    using pool_range[OF fits, of p_block] rg by simp
  have 2: "(p_block - Addr ?m) mod BlockSize ?m = 0"
    using pool_align[of "Addr ?m" p_block "BlockSize ?m"] rg al by simp
  have n1: "g_CriticalNesting ?s1 \<noteq> 0"
    using nest by (simp add: OS_EnterCritical_def OS_Disable_IRQ_def Let_def)
  show ?thesis
  proof (cases ws)
    case Nil
    then have h: "Head (Mem_WaitList ?m) = None" using wl by (simp add: dll_def)
    have "OS_MemPut (Some i) p_block s =
            Inr (OS_OK, ?s1\<lparr>g_CriticalNesting := g_CriticalNesting ?s1 - 1,
                             IRQ_Enabled := (g_CriticalNesting ?s1 = 1 \<or> IRQ_Enabled ?s1)\<rparr>)"
      using nn 1 2 h p0 OS_ExitCritical_ok[OF n1]
      by (simp add: OS_MemPut_def Let_def bindR_def)
    then show ?thesis using Nil
      by (simp add: OS_EnterCritical_def OS_Disable_IRQ_def Let_def)
  next
    case (Cons w ws')
    let ?p = "Priority (TCBs s w)"
    have h: "Head (Mem_WaitList ?m) \<noteq> None" using wl Cons by (simp add: dll_def)
    have ok1: "ready_ok ?s1 rl"
      by (rule ready_ok_cong[OF ok]) (simp_all add: OS_EnterCritical_def OS_Disable_IRQ_def Let_def)
    have d1: "dll (TCBs ?s1) (get_list (MemRef i) ?s1) (w # ws')"
      using wl Cons by (simp add: OS_EnterCritical_def OS_Disable_IRQ_def Let_def)
    have pr1: "Priority (TCBs ?s1 w) = ?p"
      by (simp add: OS_EnterCritical_def OS_Disable_IRQ_def Let_def)
    have p: "?p < OS_MAX_PRIO" using wp Cons by simp
    have fresh: "\<forall>q<OS_MAX_PRIO. set (w # ws') \<inter> set (rl q) = {}" using wp Cons by auto
    from wake_ok[OF ok1 d1 _ pr1 p fresh] obtain L1 L2 h1 h2 where
      e1: "List_PopHead (MemRef i) ?s1 = Inr (Some w, put_list (MemRef i) L1 (?s1\<lparr>TCBs := h1\<rparr>))"
      and e2: "OS_ReadyListAdd (Some w) (set_State w TASK_READY (put_list (MemRef i) L1 (?s1\<lparr>TCBs := h1\<rparr>))) =
                 Inr (put_list (ReadyRef ?p) L2 (put_list (MemRef i) L1
                        (?s1\<lparr>g_PrioMap := g_PrioMap ?s1 OR push_bit ?p 1, TCBs := h2\<rparr>)))"
      and ok2: "ready_ok (put_list (ReadyRef ?p) L2 (put_list (MemRef i) L1
                        (?s1\<lparr>g_PrioMap := g_PrioMap ?s1 OR push_bit ?p 1, TCBs := h2\<rparr>)))
                  (rl(?p := rl ?p @ [w]))"
      and d2: "dll h2 L1 ws'" and st: "State (h2 w) = TASK_READY"
      and sto: "\<forall>x. x \<noteq> w \<longrightarrow> State (h2 x) = State (TCBs ?s1 x)"
      by auto
    let ?s3 = "put_list (ReadyRef ?p) L2 (put_list (MemRef i) L1
                        (?s1\<lparr>g_PrioMap := g_PrioMap ?s1 OR push_bit ?p 1, TCBs := h2\<rparr>))"
    let ?rl = "rl(?p := rl ?p @ [w])"
    have ne: "?rl ?p \<noteq> []" by simp
    from FindNextTask_ok[OF ok2 ne p] have
      f: "FindNextTask ?s3 = Inr (Some (hd (?rl (OS_GetTopPrio (g_PrioMap ?s3)))))" by simp
    let ?s4 = "OS_Trigger_SWI (?s3\<lparr>NextTCB := Some (hd (?rl (OS_GetTopPrio (g_PrioMap ?s3))))\<rparr>)"
    have n4: "g_CriticalNesting ?s4 \<noteq> 0"
      using nest by (simp add: OS_EnterCritical_def OS_Disable_IRQ_def Let_def OS_Trigger_SWI_def)
    let ?s5 = "?s4\<lparr>g_CriticalNesting := g_CriticalNesting ?s4 - 1,
                    IRQ_Enabled := (g_CriticalNesting ?s4 = 1 \<or> IRQ_Enabled ?s4)\<rparr>"
    have r: "OS_MemPut (Some i) p_block s = Inr (OS_OK, ?s5)"
      using nn 1 2 h p0 e1 e2 f OS_ExitCritical_ok[OF n4]
      by (simp add: OS_MemPut_def Let_def bindR_def)
    have ok5: "ready_ok ?s5 ?rl"
      by (rule ready_ok_cong[OF ok2]) (simp_all add: OS_Trigger_SWI_def)
    have g5: "g_PrioMap ?s5 = g_PrioMap ?s3" by (simp add: OS_Trigger_SWI_def)
    show ?thesis
      using r Cons ok5 d2 st sto g5
      by (simp add: OS_EnterCritical_def OS_Disable_IRQ_def Let_def OS_Trigger_SWI_def)
  qed
qed

lemma OS_QueueSend_full:
  assumes nest: "g_CriticalNesting s + 1 \<noteq> 0"
    and full: "MsgCount (Queues s i) \<ge> QSize (Queues s i)"
  shows "OS_QueueSend (Some i) (Some msg) s =
           Inr (OS_ERR_Q_FULL, s\<lparr>IRQ_Enabled := (g_CriticalNesting s = 0)\<rparr>)"
proof -
  have q0: "Queues (OS_EnterCritical s) = Queues s"
    by (simp add: OS_EnterCritical_def OS_Disable_IRQ_def Let_def)
  show ?thesis
    using full q0 critical_section_roundtrip[OF nest]
    by (simp add: OS_QueueSend_def Let_def bindR_def)
qed

lemma queue_head_advance:
  fixes h n :: "16 word"
  assumes "n \<noteq> 0"
  shows "unat (of_nat ((unat h + 1) mod unat n) :: 16 word) = (unat h + 1) mod unat n"
proof -
  have "0 < unat n" using assms by (simp add: unat_gt_0)
  then have "(unat h + 1) mod unat n < unat n" by simp
  moreover have "unat n < 2 ^ 16" using unsigned_less[of n, where 'a=nat] by simp
  ultimately have "(unat h + 1) mod unat n < 2 ^ 16" by linarith
  then show ?thesis by (simp add: unat_of_nat)
qed

lemma queue_count_inc:
  fixes c n :: "16 word"
  assumes "c < n"
  shows "unat (c + 1) = unat c + 1"
proof -
  have "unat c < unat n" using assms by (simp add: word_less_nat_alt)
  moreover have "unat n < 2 ^ 16" using unsigned_less[of n, where 'a=nat] by simp
  ultimately have "unat c + 1 < 2 ^ 16" by linarith
  then show ?thesis by (simp add: unat_word_ariths)
qed

lemma OS_QueueSend_ok:
  assumes nest: "g_CriticalNesting s + 1 \<noteq> 0"
    and room: "MsgCount (Queues s i) < QSize (Queues s i)"
    and ok: "ready_ok s rl"
    and wl: "dll (TCBs s) (WaitReadList (Queues s i)) ws"
    and wp: "\<forall>w\<in>set ws. Priority (TCBs s w) < OS_MAX_PRIO \<and> (\<forall>q<OS_MAX_PRIO. w \<notin> set (rl q))"
  shows "\<exists>s'. OS_QueueSend (Some i) (Some msg) s = Inr (OS_OK, s') \<and>
           Buffer (Queues s' i) =
             memcpy_at (Buffer (Queues s i))
               (unat (Q_Head (Queues s i)) * unat (MsgSize (Queues s i))) msg
               (unat (MsgSize (Queues s i))) \<and>
           unat (Q_Head (Queues s' i)) =
             (unat (Q_Head (Queues s i)) + 1) mod unat (QSize (Queues s i)) \<and>
           unat (MsgCount (Queues s' i)) = unat (MsgCount (Queues s i)) + 1 \<and>
           MsgSize (Queues s' i) = MsgSize (Queues s i) \<and> QSize (Queues s' i) = QSize (Queues s i) \<and>
           Q_Tail (Queues s' i) = Q_Tail (Queues s i) \<and>
           CurrentTCB s' = CurrentTCB s \<and> g_CriticalNesting s' = g_CriticalNesting s \<and>
           (case ws of
              [] \<Rightarrow> WaitReadList (Queues s' i) = WaitReadList (Queues s i) \<and> TCBs s' = TCBs s \<and>
                    ReadyList s' = ReadyList s \<and> g_PrioMap s' = g_PrioMap s \<and>
                    SWI_Pending s' = SWI_Pending s \<and> NextTCB s' = NextTCB s
            | w # ws' \<Rightarrow>
                dll (TCBs s') (WaitReadList (Queues s' i)) ws' \<and>
                State (TCBs s' w) = TASK_READY \<and>
                ready_ok s' (rl(Priority (TCBs s w) := rl (Priority (TCBs s w)) @ [w])) \<and>
                SWI_Pending s' \<and>
                NextTCB s' = Some (hd ((rl(Priority (TCBs s w) := rl (Priority (TCBs s w)) @ [w]))
                                         (OS_GetTopPrio (g_PrioMap s')))) \<and>
                (\<forall>x. x \<noteq> w \<longrightarrow> State (TCBs s' x) = State (TCBs s x)))"
proof -
  let ?s0 = "OS_EnterCritical s"
  let ?q = "Queues s i"
  let ?q3 = "?q\<lparr>Buffer := memcpy_at (Buffer ?q) (unat (Q_Head ?q) * unat (MsgSize ?q)) msg (unat (MsgSize ?q)),
                  Q_Head := of_nat ((unat (Q_Head ?q) + 1) mod unat (QSize ?q)),
                  MsgCount := MsgCount ?q + 1\<rparr>"
  let ?s1 = "?s0\<lparr>Queues := (Queues ?s0)(i := ?q3)\<rparr>"
  have q0: "Queues ?s0 = Queues s" by (simp add: OS_EnterCritical_def OS_Disable_IRQ_def Let_def)
  have nf: "\<not> MsgCount ?q \<ge> QSize ?q" using room by simp
  have qnz: "QSize ?q \<noteq> 0" using room by auto
  note hd = queue_head_advance[OF qnz, of "Q_Head ?q"]
  note ct = queue_count_inc[OF room]
  have n1: "g_CriticalNesting ?s1 \<noteq> 0"
    using nest by (simp add: OS_EnterCritical_def OS_Disable_IRQ_def Let_def)
  show ?thesis
  proof (cases ws)
    case Nil
    then have h: "Head (WaitReadList ?q) = None" using wl by (simp add: dll_def)
    have "OS_QueueSend (Some i) (Some msg) s =
            Inr (OS_OK, ?s1\<lparr>g_CriticalNesting := g_CriticalNesting ?s1 - 1,
                             IRQ_Enabled := (g_CriticalNesting ?s1 = 1 \<or> IRQ_Enabled ?s1)\<rparr>)"
      using nf h q0 OS_ExitCritical_ok[OF n1]
      by (simp add: OS_QueueSend_def Let_def bindR_def)
    then show ?thesis using Nil hd ct
      by (simp add: OS_EnterCritical_def OS_Disable_IRQ_def Let_def)
  next
    case (Cons w ws')
    let ?p = "Priority (TCBs s w)"
    have h: "Head (WaitReadList ?q) \<noteq> None" using wl Cons by (simp add: dll_def)
    have ok1: "ready_ok ?s1 rl"
      by (rule ready_ok_cong[OF ok]) (simp_all add: OS_EnterCritical_def OS_Disable_IRQ_def Let_def)
    have d1: "dll (TCBs ?s1) (get_list (QueueRef i) ?s1) (w # ws')"
      using wl Cons by (simp add: OS_EnterCritical_def OS_Disable_IRQ_def Let_def)
    have pr1: "Priority (TCBs ?s1 w) = ?p"
      by (simp add: OS_EnterCritical_def OS_Disable_IRQ_def Let_def)
    have p: "?p < OS_MAX_PRIO" using wp Cons by simp
    have fresh: "\<forall>q<OS_MAX_PRIO. set (w # ws') \<inter> set (rl q) = {}" using wp Cons by auto
    from wake_ok[OF ok1 d1 _ pr1 p fresh] obtain L1 L2 h1 h2 where
      e1: "List_PopHead (QueueRef i) ?s1 = Inr (Some w, put_list (QueueRef i) L1 (?s1\<lparr>TCBs := h1\<rparr>))"
      and e2: "OS_ReadyListAdd (Some w) (set_State w TASK_READY (put_list (QueueRef i) L1 (?s1\<lparr>TCBs := h1\<rparr>))) =
                 Inr (put_list (ReadyRef ?p) L2 (put_list (QueueRef i) L1
                        (?s1\<lparr>g_PrioMap := g_PrioMap ?s1 OR push_bit ?p 1, TCBs := h2\<rparr>)))"
      and ok2: "ready_ok (put_list (ReadyRef ?p) L2 (put_list (QueueRef i) L1
                        (?s1\<lparr>g_PrioMap := g_PrioMap ?s1 OR push_bit ?p 1, TCBs := h2\<rparr>)))
                  (rl(?p := rl ?p @ [w]))"
      and d2: "dll h2 L1 ws'" and st: "State (h2 w) = TASK_READY"
      and sto: "\<forall>x. x \<noteq> w \<longrightarrow> State (h2 x) = State (TCBs ?s1 x)"
      by auto
    let ?s3 = "put_list (ReadyRef ?p) L2 (put_list (QueueRef i) L1
                        (?s1\<lparr>g_PrioMap := g_PrioMap ?s1 OR push_bit ?p 1, TCBs := h2\<rparr>))"
    let ?rl = "rl(?p := rl ?p @ [w])"
    have ne: "?rl ?p \<noteq> []" by simp
    from FindNextTask_ok[OF ok2 ne p] have
      f: "FindNextTask ?s3 = Inr (Some (hd (?rl (OS_GetTopPrio (g_PrioMap ?s3)))))" by simp
    let ?s4 = "OS_Trigger_SWI (?s3\<lparr>NextTCB := Some (hd (?rl (OS_GetTopPrio (g_PrioMap ?s3))))\<rparr>)"
    have n4: "g_CriticalNesting ?s4 \<noteq> 0"
      using nest by (simp add: OS_EnterCritical_def OS_Disable_IRQ_def Let_def OS_Trigger_SWI_def)
    let ?s5 = "?s4\<lparr>g_CriticalNesting := g_CriticalNesting ?s4 - 1,
                    IRQ_Enabled := (g_CriticalNesting ?s4 = 1 \<or> IRQ_Enabled ?s4)\<rparr>"
    have r: "OS_QueueSend (Some i) (Some msg) s = Inr (OS_OK, ?s5)"
      using nf h q0 e1 e2 f OS_ExitCritical_ok[OF n4]
      by (simp add: OS_QueueSend_def Let_def bindR_def)
    have ok5: "ready_ok ?s5 ?rl"
      by (rule ready_ok_cong[OF ok2]) (simp_all add: OS_Trigger_SWI_def)
    have g5: "g_PrioMap ?s5 = g_PrioMap ?s3" by (simp add: OS_Trigger_SWI_def)
    show ?thesis
      using r Cons ok5 d2 st sto g5 hd ct
      by (simp add: OS_EnterCritical_def OS_Disable_IRQ_def Let_def OS_Trigger_SWI_def)
  qed
qed

definition C9_pool :: kernel where
  "C9_pool = OS_MemInit (Some 0) 0x20000000 4 32 boot"

text \<open>
  Task 3 (priority 12) runs; task 1 (priority 8) is blocked on the read-wait list of the
  empty queue 0, task 2 (priority 3) on the wait list of pool 0, which has no free block;
  the idle task is ready. The queue has two slots of four bytes.
\<close>

definition waiting :: kernel where
  "waiting = boot
     \<lparr>TCBs := zero_TCBs
        (0 := \<lparr>stackPtr = 0x20000180, stackLimit = 0x20000000, Prev = None, Next = None,
               State = TASK_READY, DelayTicks = 0, Priority = 31, OriginalPrio = 31\<rparr>,
         1 := \<lparr>stackPtr = 0x20001180, stackLimit = 0x20001000, Prev = None, Next = None,
               State = TASK_BLOCKED, DelayTicks = 0, Priority = 8, OriginalPrio = 8\<rparr>,
         2 := \<lparr>stackPtr = 0x20002180, stackLimit = 0x20002000, Prev = None, Next = None,
               State = TASK_BLOCKED, DelayTicks = 0, Priority = 3, OriginalPrio = 3\<rparr>,
         3 := \<lparr>stackPtr = 0x20003180, stackLimit = 0x20003000, Prev = None, Next = None,
               State = TASK_READY, DelayTicks = 0, Priority = 12, OriginalPrio = 12\<rparr>),
      g_PrioMap := push_bit 12 1 OR push_bit 31 1,
      g_OSRunning := True,
      ReadyList := (ReadyList boot)
        (12 := \<lparr>Head = Some 3, Tail = Some 3\<rparr>, 31 := \<lparr>Head = Some 0, Tail = Some 0\<rparr>),
      CurrentTCB := Some 3, NextTCB := Some 3, IRQ_Enabled := True,
      Queues := (Queues boot)
        (0 := \<lparr>Buffer = (\<lambda>a. 0), MsgSize = 4, QSize = 2, MsgCount = 0, Q_Head = 0, Q_Tail = 0,
               WaitReadList = \<lparr>Head = Some 1, Tail = Some 1\<rparr>\<rparr>),
      Pools := (Pools boot)
        (0 := \<lparr>Addr = 0x20000000, FreeList = 0, BlockSize = 32, TotalBlocks = 4, FreeBlocks = 0,
               Mem_WaitList = \<lparr>Head = Some 2, Tail = Some 2\<rparr>, Link = zero_words\<rparr>)\<rparr>"

definition waiting_ready :: "nat \<Rightarrow> nat list" where
  "waiting_ready = (\<lambda>p. [])(12 := [3], 31 := [0])"

definition full_queue :: kernel where
  "full_queue = waiting\<lparr>Queues := (Queues waiting)(0 := (Queues waiting 0)\<lparr>MsgCount := 2\<rparr>)\<rparr>"

lemma ready_ok_boot: "ready_ok boot (\<lambda>p. [])"
  by (simp add: ready_ok_def boot_def dll_def)

lemma two_bits:
  "bit ((2::32 word) ^ a OR 2 ^ b) p = (p < 32 \<and> (p = a \<or> p = b))"
  by (auto simp: bit_or_iff bit_exp_iff)

lemma ready_ok_waiting: "ready_ok waiting waiting_ready"
  unfolding ready_ok_def
proof (intro allI impI)
  fix p assume "p < OS_MAX_PRIO"
  then have p: "p < 32" by (simp add: OS_MAX_PRIO_def)
  have "g_PrioMap waiting = 2 ^ 12 OR 2 ^ 31" by (simp add: waiting_def)
  then have b: "bit (g_PrioMap waiting) p = (p = 12 \<or> p = 31)"
    using p by (simp only: two_bits) simp
  have "dll (TCBs waiting) (ReadyList waiting p) (waiting_ready p) \<and>
        (\<forall>t\<in>set (waiting_ready p). Priority (TCBs waiting t) = p)"
    by (simp add: waiting_def waiting_ready_def boot_def dll_def)
  moreover have "(waiting_ready p \<noteq> []) = (p = 12 \<or> p = 31)"
    by (simp add: waiting_ready_def)
  ultimately show "dll (TCBs waiting) (ReadyList waiting p) (waiting_ready p) \<and>
        (\<forall>t\<in>set (waiting_ready p). Priority (TCBs waiting t) = p) \<and>
        bit (g_PrioMap waiting) p = (waiting_ready p \<noteq> [])"
    using b by simp
qed

lemma ready_ok_full_queue: "ready_ok full_queue waiting_ready"
  by (rule ready_ok_cong[OF ready_ok_waiting]) (simp_all add: full_queue_def)

lemma ready_ok_C9_pool: "ready_ok C9_pool (\<lambda>p. [])"
  by (rule ready_ok_cong[OF ready_ok_boot])
     (simp_all add: C9_pool_def OS_MemInit_def List_Init_def Let_def split: prod.splits)

lemma OS_MemPut_nowait:
  assumes nn: "p_block \<noteq> 0"
    and fits: "unat (Addr (Pools s i)) + unat (TotalBlocks (Pools s i)) * unat (BlockSize (Pools s i)) < 2 ^ 32"
    and nest: "g_CriticalNesting s + 1 \<noteq> 0"
    and hd: "Head (Mem_WaitList (Pools s i)) = None"
    and rg: "unat (Addr (Pools s i)) \<le> unat p_block"
         "unat p_block < unat (Addr (Pools s i)) + unat (TotalBlocks (Pools s i)) * unat (BlockSize (Pools s i))"
    and al: "(unat p_block - unat (Addr (Pools s i))) mod unat (BlockSize (Pools s i)) = 0"
  shows "OS_MemPut (Some i) p_block s =
           Inr (OS_OK, s\<lparr>Pools := (Pools s)(i := (Pools s i)
                             \<lparr>Link := (Link (Pools s i))(p_block := FreeList (Pools s i)),
                              FreeList := p_block,
                              FreeBlocks := FreeBlocks (Pools s i) + 1\<rparr>),
                         IRQ_Enabled := (g_CriticalNesting s = 0)\<rparr>)"
proof -
  let ?s0 = "OS_EnterCritical s"
  let ?m = "Pools s i"
  let ?m3 = "?m\<lparr>Link := (Link ?m)(p_block := FreeList ?m), FreeList := p_block,
                  FreeBlocks := FreeBlocks ?m + 1\<rparr>"
  let ?s1 = "?s0\<lparr>Pools := (Pools ?s0)(i := ?m3)\<rparr>"
  have p0: "Pools ?s0 = Pools s" by (simp add: OS_EnterCritical_def OS_Disable_IRQ_def Let_def)
  have 1: "\<not> (p_block < Addr ?m \<or> p_block \<ge> Addr ?m + TotalBlocks ?m * BlockSize ?m)"
    using pool_range[OF fits, of p_block] rg by simp
  have 2: "(p_block - Addr ?m) mod BlockSize ?m = 0"
    using pool_align[of "Addr ?m" p_block "BlockSize ?m"] rg al by simp
  have n1: "g_CriticalNesting ?s1 \<noteq> 0"
    using nest by (simp add: OS_EnterCritical_def OS_Disable_IRQ_def Let_def)
  have "OS_MemPut (Some i) p_block s =
          Inr (OS_OK, ?s1\<lparr>g_CriticalNesting := g_CriticalNesting ?s1 - 1,
                           IRQ_Enabled := (g_CriticalNesting ?s1 = 1 \<or> IRQ_Enabled ?s1)\<rparr>)"
    using nn 1 2 hd p0 OS_ExitCritical_ok[OF n1]
    by (simp add: OS_MemPut_def Let_def bindR_def)
  then show ?thesis
    by (simp add: OS_EnterCritical_def OS_Disable_IRQ_def Let_def)
qed

text \<open>
  Claim C9, amended. For a null block \<open>OS_MemPut\<close> returns \<open>OS_ERR_PARAM\<close> and leaves the
  state as it is. For a block that is not null, when the nesting counter of the critical
  sections is not at its maximum and the pool ends below \<open>2 ^ 32\<close>: the result is
  \<open>OS_ERR_INVALID_ADDR\<close> exactly when the block lies outside
  \<open>[base, base + blocks * block_size)\<close>, else \<open>OS_ERR_NOT_ALIGN\<close> exactly when
  \<open>(block - base) mod block_size\<close> is not 0, and on either error nothing changes but the
  interrupt flag, which is set exactly when the call was not nested in a critical section.
  Otherwise, when the wait list of the pool is empty, the result is \<open>OS_OK\<close>, the block is
  the new head of the free list and links to the old head, \<open>FreeBlocks\<close> is one more, and
  nothing else changes but the interrupt flag. When the wait list is a well-formed list
  \<open>w # ws\<close>, the ready set is well formed (\<open>ready_ok\<close>) and the waiting tasks have
  priorities below \<open>OS_MAX_PRIO\<close> and are on no ready list, the result is \<open>OS_OK\<close>, the
  pool is updated in the same way, and \<open>w\<close> is popped, made ready and appended to the ready
  list of its priority, with a switch requested to the head of the highest non-empty ready
  list. Nothing is said of a state whose ready set is not well formed.
\<close>

theorem C9_MemPut_validation:
  "(p_block = 0 \<longrightarrow> OS_MemPut (Some i) p_block s = Inr (OS_ERR_PARAM, s)) \<and>
   (p_block \<noteq> 0 \<and> g_CriticalNesting s + 1 \<noteq> 0 \<and>
    unat (Addr (Pools s i)) + unat (TotalBlocks (Pools s i)) * unat (BlockSize (Pools s i)) < 2 ^ 32 \<longrightarrow>
      (\<not> (unat (Addr (Pools s i)) \<le> unat p_block \<and>
          unat p_block < unat (Addr (Pools s i)) + unat (TotalBlocks (Pools s i)) * unat (BlockSize (Pools s i))) \<longrightarrow>
         OS_MemPut (Some i) p_block s =
           Inr (OS_ERR_INVALID_ADDR, s\<lparr>IRQ_Enabled := (g_CriticalNesting s = 0)\<rparr>)) \<and>
      (unat (Addr (Pools s i)) \<le> unat p_block \<and>
       unat p_block < unat (Addr (Pools s i)) + unat (TotalBlocks (Pools s i)) * unat (BlockSize (Pools s i)) \<and>
       (unat p_block - unat (Addr (Pools s i))) mod unat (BlockSize (Pools s i)) \<noteq> 0 \<longrightarrow>
         OS_MemPut (Some i) p_block s =
           Inr (OS_ERR_NOT_ALIGN, s\<lparr>IRQ_Enabled := (g_CriticalNesting s = 0)\<rparr>)) \<and>
      (unat (Addr (Pools s i)) \<le> unat p_block \<and>
       unat p_block < unat (Addr (Pools s i)) + unat (TotalBlocks (Pools s i)) * unat (BlockSize (Pools s i)) \<and>
       (unat p_block - unat (Addr (Pools s i))) mod unat (BlockSize (Pools s i)) = 0 \<and>
       Head (Mem_WaitList (Pools s i)) = None \<longrightarrow>
         OS_MemPut (Some i) p_block s =
           Inr (OS_OK, s\<lparr>Pools := (Pools s)(i := (Pools s i)
                             \<lparr>Link := (Link (Pools s i))(p_block := FreeList (Pools s i)),
                              FreeList := p_block,
                              FreeBlocks := FreeBlocks (Pools s i) + 1\<rparr>),
                         IRQ_Enabled := (g_CriticalNesting s = 0)\<rparr>)) \<and>
      (unat (Addr (Pools s i)) \<le> unat p_block \<and>
       unat p_block < unat (Addr (Pools s i)) + unat (TotalBlocks (Pools s i)) * unat (BlockSize (Pools s i)) \<and>
       (unat p_block - unat (Addr (Pools s i))) mod unat (BlockSize (Pools s i)) = 0 \<and>
       ready_ok s rl \<and> dll (TCBs s) (Mem_WaitList (Pools s i)) (w # ws) \<and>
       (\<forall>x\<in>set (w # ws). Priority (TCBs s x) < OS_MAX_PRIO \<and> (\<forall>q<OS_MAX_PRIO. x \<notin> set (rl q))) \<longrightarrow>
         (\<exists>s'. OS_MemPut (Some i) p_block s = Inr (OS_OK, s') \<and>
            FreeList (Pools s' i) = p_block \<and>
            Link (Pools s' i) = (Link (Pools s i))(p_block := FreeList (Pools s i)) \<and>
            FreeBlocks (Pools s' i) = FreeBlocks (Pools s i) + 1 \<and>
            Addr (Pools s' i) = Addr (Pools s i) \<and> BlockSize (Pools s' i) = BlockSize (Pools s i) \<and>
            TotalBlocks (Pools s' i) = TotalBlocks (Pools s i) \<and>
            CurrentTCB s' = CurrentTCB s \<and> g_CriticalNesting s' = g_CriticalNesting s \<and>
            dll (TCBs s') (Mem_WaitList (Pools s' i)) ws \<and>
            State (TCBs s' w) = TASK_READY \<and>
            ready_ok s' (rl(Priority (TCBs s w) := rl (Priority (TCBs s w)) @ [w])) \<and>
            SWI_Pending s' \<and>
            NextTCB s' = Some (hd ((rl(Priority (TCBs s w) := rl (Priority (TCBs s w)) @ [w]))
                                     (OS_GetTopPrio (g_PrioMap s')))) \<and>
            (\<forall>x. x \<noteq> w \<longrightarrow> State (TCBs s' x) = State (TCBs s x)))))"
proof (intro conjI impI)
  assume "p_block = 0"
  then show "OS_MemPut (Some i) p_block s = Inr (OS_ERR_PARAM, s)"
    by (simp add: OS_MemPut_def)
next
  assume h: "p_block \<noteq> 0 \<and> g_CriticalNesting s + 1 \<noteq> 0 \<and>
    unat (Addr (Pools s i)) + unat (TotalBlocks (Pools s i)) * unat (BlockSize (Pools s i)) < 2 ^ 32"
    and a: "\<not> (unat (Addr (Pools s i)) \<le> unat p_block \<and>
          unat p_block < unat (Addr (Pools s i)) + unat (TotalBlocks (Pools s i)) * unat (BlockSize (Pools s i)))"
  from h have nn: "p_block \<noteq> 0" and nest: "g_CriticalNesting s + 1 \<noteq> 0"
    and fits: "unat (Addr (Pools s i)) + unat (TotalBlocks (Pools s i)) * unat (BlockSize (Pools s i)) < 2 ^ 32"
    by simp_all
  from OS_MemPut_error[OF nn fits nest] a
  show "OS_MemPut (Some i) p_block s =
          Inr (OS_ERR_INVALID_ADDR, s\<lparr>IRQ_Enabled := (g_CriticalNesting s = 0)\<rparr>)"
    by blast
next
  assume h: "p_block \<noteq> 0 \<and> g_CriticalNesting s + 1 \<noteq> 0 \<and>
    unat (Addr (Pools s i)) + unat (TotalBlocks (Pools s i)) * unat (BlockSize (Pools s i)) < 2 ^ 32"
    and a: "unat (Addr (Pools s i)) \<le> unat p_block \<and>
       unat p_block < unat (Addr (Pools s i)) + unat (TotalBlocks (Pools s i)) * unat (BlockSize (Pools s i)) \<and>
       (unat p_block - unat (Addr (Pools s i))) mod unat (BlockSize (Pools s i)) \<noteq> 0"
  from h have nn: "p_block \<noteq> 0" and nest: "g_CriticalNesting s + 1 \<noteq> 0"
    and fits: "unat (Addr (Pools s i)) + unat (TotalBlocks (Pools s i)) * unat (BlockSize (Pools s i)) < 2 ^ 32"
    by simp_all
  from OS_MemPut_error[OF nn fits nest] a
  show "OS_MemPut (Some i) p_block s =
          Inr (OS_ERR_NOT_ALIGN, s\<lparr>IRQ_Enabled := (g_CriticalNesting s = 0)\<rparr>)"
    by blast
next
  assume h: "p_block \<noteq> 0 \<and> g_CriticalNesting s + 1 \<noteq> 0 \<and>
    unat (Addr (Pools s i)) + unat (TotalBlocks (Pools s i)) * unat (BlockSize (Pools s i)) < 2 ^ 32"
    and a: "unat (Addr (Pools s i)) \<le> unat p_block \<and>
       unat p_block < unat (Addr (Pools s i)) + unat (TotalBlocks (Pools s i)) * unat (BlockSize (Pools s i)) \<and>
       (unat p_block - unat (Addr (Pools s i))) mod unat (BlockSize (Pools s i)) = 0 \<and>
       Head (Mem_WaitList (Pools s i)) = None"
  from h have nn: "p_block \<noteq> 0" and nest: "g_CriticalNesting s + 1 \<noteq> 0"
    and fits: "unat (Addr (Pools s i)) + unat (TotalBlocks (Pools s i)) * unat (BlockSize (Pools s i)) < 2 ^ 32"
    by simp_all
  from a have hd: "Head (Mem_WaitList (Pools s i)) = None"
    and rg: "unat (Addr (Pools s i)) \<le> unat p_block"
      "unat p_block < unat (Addr (Pools s i)) + unat (TotalBlocks (Pools s i)) * unat (BlockSize (Pools s i))"
    and al: "(unat p_block - unat (Addr (Pools s i))) mod unat (BlockSize (Pools s i)) = 0"
    by simp_all
  show "OS_MemPut (Some i) p_block s =
           Inr (OS_OK, s\<lparr>Pools := (Pools s)(i := (Pools s i)
                             \<lparr>Link := (Link (Pools s i))(p_block := FreeList (Pools s i)),
                              FreeList := p_block,
                              FreeBlocks := FreeBlocks (Pools s i) + 1\<rparr>),
                         IRQ_Enabled := (g_CriticalNesting s = 0)\<rparr>)"
    by (rule OS_MemPut_nowait[OF nn fits nest hd rg al])
next
  assume h: "p_block \<noteq> 0 \<and> g_CriticalNesting s + 1 \<noteq> 0 \<and>
    unat (Addr (Pools s i)) + unat (TotalBlocks (Pools s i)) * unat (BlockSize (Pools s i)) < 2 ^ 32"
    and a: "unat (Addr (Pools s i)) \<le> unat p_block \<and>
       unat p_block < unat (Addr (Pools s i)) + unat (TotalBlocks (Pools s i)) * unat (BlockSize (Pools s i)) \<and>
       (unat p_block - unat (Addr (Pools s i))) mod unat (BlockSize (Pools s i)) = 0 \<and>
       ready_ok s rl \<and> dll (TCBs s) (Mem_WaitList (Pools s i)) (w # ws) \<and>
       (\<forall>x\<in>set (w # ws). Priority (TCBs s x) < OS_MAX_PRIO \<and> (\<forall>q<OS_MAX_PRIO. x \<notin> set (rl q)))"
  from h have nn: "p_block \<noteq> 0" and nest: "g_CriticalNesting s + 1 \<noteq> 0"
    and fits: "unat (Addr (Pools s i)) + unat (TotalBlocks (Pools s i)) * unat (BlockSize (Pools s i)) < 2 ^ 32"
    by simp_all
  from a have ok: "ready_ok s rl" and wl: "dll (TCBs s) (Mem_WaitList (Pools s i)) (w # ws)"
    and wp: "\<forall>x\<in>set (w # ws). Priority (TCBs s x) < OS_MAX_PRIO \<and> (\<forall>q<OS_MAX_PRIO. x \<notin> set (rl q))"
    and rg: "unat (Addr (Pools s i)) \<le> unat p_block"
      "unat p_block < unat (Addr (Pools s i)) + unat (TotalBlocks (Pools s i)) * unat (BlockSize (Pools s i))"
    and al: "(unat p_block - unat (Addr (Pools s i))) mod unat (BlockSize (Pools s i)) = 0"
    by simp_all
  from OS_MemPut_ok[OF nn fits nest ok wl wp rg al]
  show "\<exists>s'. OS_MemPut (Some i) p_block s = Inr (OS_OK, s') \<and>
            FreeList (Pools s' i) = p_block \<and>
            Link (Pools s' i) = (Link (Pools s i))(p_block := FreeList (Pools s i)) \<and>
            FreeBlocks (Pools s' i) = FreeBlocks (Pools s i) + 1 \<and>
            Addr (Pools s' i) = Addr (Pools s i) \<and> BlockSize (Pools s' i) = BlockSize (Pools s i) \<and>
            TotalBlocks (Pools s' i) = TotalBlocks (Pools s i) \<and>
            CurrentTCB s' = CurrentTCB s \<and> g_CriticalNesting s' = g_CriticalNesting s \<and>
            dll (TCBs s') (Mem_WaitList (Pools s' i)) ws \<and>
            State (TCBs s' w) = TASK_READY \<and>
            ready_ok s' (rl(Priority (TCBs s w) := rl (Priority (TCBs s w)) @ [w])) \<and>
            SWI_Pending s' \<and>
            NextTCB s' = Some (hd ((rl(Priority (TCBs s w) := rl (Priority (TCBs s w)) @ [w]))
                                     (OS_GetTopPrio (g_PrioMap s')))) \<and>
            (\<forall>x. x \<noteq> w \<longrightarrow> State (TCBs s' x) = State (TCBs s x))"
    by simp
qed

lemma C9_pool_fields:
  "Addr (Pools C9_pool 0) = 0x20000000" "TotalBlocks (Pools C9_pool 0) = 4"
  "BlockSize (Pools C9_pool 0) = 32" "Mem_WaitList (Pools C9_pool 0) = \<lparr>Head = None, Tail = None\<rparr>"
  "g_CriticalNesting C9_pool = 0" "IRQ_Enabled C9_pool = False"
  by (simp_all add: C9_pool_def OS_MemInit_def List_Init_def Let_def boot_def split: prod.splits)

lemma waiting_pool_fields:
  "Addr (Pools waiting 0) = 0x20000000" "TotalBlocks (Pools waiting 0) = 4"
  "BlockSize (Pools waiting 0) = 32" "Mem_WaitList (Pools waiting 0) = \<lparr>Head = Some 2, Tail = Some 2\<rparr>"
  "g_CriticalNesting waiting = 0" "Priority (TCBs waiting 2) = 3"
  "Prev (TCBs waiting 2) = None" "Next (TCBs waiting 2) = None"
  by (simp_all add: waiting_def boot_def)

lemma C9_pool_more:
  "FreeList (Pools C9_pool 0) = 0x20000000" "FreeBlocks (Pools C9_pool 0) = 4"
  by (simp_all add: C9_pool_def OS_MemInit_def List_Init_def Let_def boot_def split: prod.splits)

theorem C9_MemPut_witness:
  "OS_MemPut (Some 0) 0x20000080 C9_pool = Inr (OS_ERR_INVALID_ADDR, C9_pool\<lparr>IRQ_Enabled := True\<rparr>) \<and>
   OS_MemPut (Some 0) 0x20000010 C9_pool = Inr (OS_ERR_NOT_ALIGN, C9_pool\<lparr>IRQ_Enabled := True\<rparr>) \<and>
   (\<exists>s'. OS_MemPut (Some 0) 0x20000020 C9_pool = Inr (OS_OK, s') \<and>
         FreeList (Pools s' 0) = 0x20000020 \<and> Link (Pools s' 0) 0x20000020 = 0x20000000 \<and>
         FreeBlocks (Pools s' 0) = 5 \<and> TCBs s' = TCBs C9_pool) \<and>
   (\<exists>s'. OS_MemPut (Some 0) 0x20000020 waiting = Inr (OS_OK, s') \<and>
         FreeList (Pools s' 0) = 0x20000020 \<and> State (TCBs s' 2) = TASK_READY \<and>
         Head (Mem_WaitList (Pools s' 0)) = None \<and> SWI_Pending s')"
proof -
  have pre: "(0x20000080::32 word) \<noteq> 0 \<and> g_CriticalNesting C9_pool + 1 \<noteq> 0 \<and>
     unat (Addr (Pools C9_pool 0)) + unat (TotalBlocks (Pools C9_pool 0)) * unat (BlockSize (Pools C9_pool 0)) < 2 ^ 32"
    by (simp add: C9_pool_fields)
  have a: "OS_MemPut (Some 0) 0x20000080 C9_pool = Inr (OS_ERR_INVALID_ADDR, C9_pool\<lparr>IRQ_Enabled := True\<rparr>)"
    using C9_MemPut_validation[where p_block = "0x20000080" and s = C9_pool and i = 0] by (simp add: C9_pool_fields)
  have b: "OS_MemPut (Some 0) 0x20000010 C9_pool = Inr (OS_ERR_NOT_ALIGN, C9_pool\<lparr>IRQ_Enabled := True\<rparr>)"
    using C9_MemPut_validation[where p_block = "0x20000010" and s = C9_pool and i = 0] by (simp add: C9_pool_fields)
  have c: "\<exists>s'. OS_MemPut (Some 0) 0x20000020 C9_pool = Inr (OS_OK, s') \<and>
         FreeList (Pools s' 0) = 0x20000020 \<and> Link (Pools s' 0) 0x20000020 = 0x20000000 \<and>
         FreeBlocks (Pools s' 0) = 5 \<and> TCBs s' = TCBs C9_pool"
    using C9_MemPut_validation[where p_block = "0x20000020" and s = C9_pool and i = 0]
    by (simp add: C9_pool_fields C9_pool_more)
  have ok: "ready_ok waiting waiting_ready \<and> dll (TCBs waiting) (Mem_WaitList (Pools waiting 0)) [2] \<and>
       (\<forall>x\<in>set [2]. Priority (TCBs waiting x) < OS_MAX_PRIO \<and> (\<forall>q<OS_MAX_PRIO. x \<notin> set (waiting_ready q)))"
    using ready_ok_waiting by (simp add: waiting_pool_fields waiting_ready_def OS_MAX_PRIO_def dll_def)
  have d: "\<exists>s'. OS_MemPut (Some 0) 0x20000020 waiting = Inr (OS_OK, s') \<and>
         FreeList (Pools s' 0) = 0x20000020 \<and> State (TCBs s' 2) = TASK_READY \<and>
         Head (Mem_WaitList (Pools s' 0)) = None \<and> SWI_Pending s'"
    using C9_MemPut_validation[where p_block = "0x20000020" and s = waiting and i = 0 and rl = waiting_ready
                and w = 2 and ws = "[]"] ok
    by (auto simp: waiting_pool_fields dll_def)
  from a b c d show ?thesis by blast
qed

text \<open>
  Claim C9 as stated fails for the null block: it lies outside the pool, and the result is
  \<open>OS_ERR_PARAM\<close>, not \<open>OS_ERR_INVALID_ADDR\<close>. It also fails for a pool that ends at
  \<open>2 ^ 32\<close>: \<open>start_addr + total_size\<close> wraps to 0, and the second block, inside the pool
  and aligned, is refused with \<open>OS_ERR_INVALID_ADDR\<close>.
\<close>

text \<open>A pool of four blocks of 32 bytes in the last 128 bytes of the address space.\<close>

definition top_pool :: kernel where
  "top_pool = OS_MemInit (Some 0) 0xFFFFFF80 4 32 boot"

lemma top_pool_fields:
  "Addr (Pools top_pool 0) = 0xFFFFFF80" "TotalBlocks (Pools top_pool 0) = 4"
  "BlockSize (Pools top_pool 0) = 32" "g_CriticalNesting top_pool = 0"
  by (simp_all add: top_pool_def OS_MemInit_def List_Init_def Let_def boot_def split: prod.splits)

theorem C9_MemPut_counterexample:
  "\<not> (unat (Addr (Pools C9_pool 0)) \<le> unat (0 :: 32 word)) \<and>
   OS_MemPut (Some 0) 0 C9_pool = Inr (OS_ERR_PARAM, C9_pool) \<and>
   unat (Addr (Pools top_pool 0)) \<le> unat (0xFFFFFFA0 :: 32 word) \<and>
   unat (0xFFFFFFA0 :: 32 word) <
     unat (Addr (Pools top_pool 0)) + unat (TotalBlocks (Pools top_pool 0)) * unat (BlockSize (Pools top_pool 0)) \<and>
   (unat (0xFFFFFFA0 :: 32 word) - unat (Addr (Pools top_pool 0))) mod unat (BlockSize (Pools top_pool 0)) = 0 \<and>
   OS_MemPut (Some 0) 0xFFFFFFA0 top_pool = Inr (OS_ERR_INVALID_ADDR, top_pool\<lparr>IRQ_Enabled := True\<rparr>)"
proof -
  have "OS_ExitCritical (OS_EnterCritical top_pool) = Inr (top_pool\<lparr>IRQ_Enabled := (g_CriticalNesting top_pool = 0)\<rparr>)"
    by (rule critical_section_roundtrip) (simp add: top_pool_fields)
  then have "OS_MemPut (Some 0) 0xFFFFFFA0 top_pool = Inr (OS_ERR_INVALID_ADDR, top_pool\<lparr>IRQ_Enabled := True\<rparr>)"
    by (simp add: OS_MemPut_def Let_def bindR_def top_pool_fields OS_EnterCritical_def OS_Disable_IRQ_def)
  then show ?thesis
    by (simp add: C9_pool_fields top_pool_fields OS_MemPut_def)
qed

text \<open>
  \<open>OS_QueueSend\<close> on a state whose ready set is well formed (\<open>ready_ok\<close>), with a
  well-formed read-wait list of tasks that are on no ready list, the nesting counter not
  at its maximum and \<open>MsgCount \<le> QSize\<close>: when the count equals the capacity,
  \<open>OS_QueueSend\<close> returns \<open>OS_ERR_Q_FULL\<close> and the kernel state (queue, tasks, ready
  set) is unchanged, interrupts being enabled again when the call was not nested in a
  critical section. Otherwise it returns \<open>OS_OK\<close>, exactly the \<open>MsgSize\<close> bytes of slot
  \<open>Head\<close> hold the message, \<open>Head\<close> advances modulo \<open>QSize\<close>, \<open>MsgCount\<close> is one
  more, and the head of the read-wait list, if there is one, is popped, made ready and
  appended to the ready list of its priority, with a switch requested. In both cases the
  running task stays the running task, no task other than the woken one changes its
  state, and no task leaves a ready list.
\<close>

theorem OS_QueueSend_effects:
  assumes nest: "g_CriticalNesting s + 1 \<noteq> 0"
    and inv: "MsgCount (Queues s i) \<le> QSize (Queues s i)"
    and ok: "ready_ok s rl"
    and wl: "dll (TCBs s) (WaitReadList (Queues s i)) ws"
    and wp: "\<forall>w\<in>set ws. Priority (TCBs s w) < OS_MAX_PRIO \<and> (\<forall>q<OS_MAX_PRIO. w \<notin> set (rl q))"
  shows
    "(MsgCount (Queues s i) = QSize (Queues s i) \<longrightarrow>
        OS_QueueSend (Some i) (Some msg) s =
          Inr (OS_ERR_Q_FULL, s\<lparr>IRQ_Enabled := (g_CriticalNesting s = 0)\<rparr>)) \<and>
     (MsgCount (Queues s i) \<noteq> QSize (Queues s i) \<longrightarrow>
        (\<exists>s'. OS_QueueSend (Some i) (Some msg) s = Inr (OS_OK, s') \<and>
           (\<forall>a. Buffer (Queues s' i) a =
                  (if unat (Q_Head (Queues s i)) * unat (MsgSize (Queues s i)) \<le> a \<and>
                      a < unat (Q_Head (Queues s i)) * unat (MsgSize (Queues s i)) + unat (MsgSize (Queues s i))
                   then msg (a - unat (Q_Head (Queues s i)) * unat (MsgSize (Queues s i)))
                   else Buffer (Queues s i) a)) \<and>
           unat (Q_Head (Queues s' i)) =
             (unat (Q_Head (Queues s i)) + 1) mod unat (QSize (Queues s i)) \<and>
           unat (MsgCount (Queues s' i)) = unat (MsgCount (Queues s i)) + 1 \<and>
           MsgSize (Queues s' i) = MsgSize (Queues s i) \<and> QSize (Queues s' i) = QSize (Queues s i) \<and>
           Q_Tail (Queues s' i) = Q_Tail (Queues s i) \<and>
           CurrentTCB s' = CurrentTCB s \<and> g_CriticalNesting s' = g_CriticalNesting s \<and>
           (case ws of
              [] \<Rightarrow> WaitReadList (Queues s' i) = WaitReadList (Queues s i) \<and> TCBs s' = TCBs s \<and>
                    ReadyList s' = ReadyList s \<and> g_PrioMap s' = g_PrioMap s \<and>
                    SWI_Pending s' = SWI_Pending s \<and> NextTCB s' = NextTCB s
            | w # ws' \<Rightarrow>
                dll (TCBs s') (WaitReadList (Queues s' i)) ws' \<and>
                State (TCBs s' w) = TASK_READY \<and>
                ready_ok s' (rl(Priority (TCBs s w) := rl (Priority (TCBs s w)) @ [w])) \<and>
                SWI_Pending s' \<and>
                NextTCB s' = Some (hd ((rl(Priority (TCBs s w) := rl (Priority (TCBs s w)) @ [w]))
                                         (OS_GetTopPrio (g_PrioMap s')))) \<and>
                (\<forall>x. x \<noteq> w \<longrightarrow> State (TCBs s' x) = State (TCBs s x)))))"
proof (intro conjI impI)
  assume "MsgCount (Queues s i) = QSize (Queues s i)"
  then have "MsgCount (Queues s i) \<ge> QSize (Queues s i)" by simp
  from OS_QueueSend_full[OF nest this]
  show "OS_QueueSend (Some i) (Some msg) s =
          Inr (OS_ERR_Q_FULL, s\<lparr>IRQ_Enabled := (g_CriticalNesting s = 0)\<rparr>)" .
next
  assume "MsgCount (Queues s i) \<noteq> QSize (Queues s i)"
  with inv have room: "MsgCount (Queues s i) < QSize (Queues s i)" by simp
  from OS_QueueSend_ok[OF nest room ok wl wp, of msg] obtain s' where
    r: "OS_QueueSend (Some i) (Some msg) s = Inr (OS_OK, s')"
    and b: "Buffer (Queues s' i) =
             memcpy_at (Buffer (Queues s i))
               (unat (Q_Head (Queues s i)) * unat (MsgSize (Queues s i))) msg
               (unat (MsgSize (Queues s i)))"
    and rest: "unat (Q_Head (Queues s' i)) =
             (unat (Q_Head (Queues s i)) + 1) mod unat (QSize (Queues s i)) \<and>
           unat (MsgCount (Queues s' i)) = unat (MsgCount (Queues s i)) + 1 \<and>
           MsgSize (Queues s' i) = MsgSize (Queues s i) \<and> QSize (Queues s' i) = QSize (Queues s i) \<and>
           Q_Tail (Queues s' i) = Q_Tail (Queues s i) \<and>
           CurrentTCB s' = CurrentTCB s \<and> g_CriticalNesting s' = g_CriticalNesting s \<and>
           (case ws of
              [] \<Rightarrow> WaitReadList (Queues s' i) = WaitReadList (Queues s i) \<and> TCBs s' = TCBs s \<and>
                    ReadyList s' = ReadyList s \<and> g_PrioMap s' = g_PrioMap s \<and>
                    SWI_Pending s' = SWI_Pending s \<and> NextTCB s' = NextTCB s
            | w # ws' \<Rightarrow>
                dll (TCBs s') (WaitReadList (Queues s' i)) ws' \<and>
                State (TCBs s' w) = TASK_READY \<and>
                ready_ok s' (rl(Priority (TCBs s w) := rl (Priority (TCBs s w)) @ [w])) \<and>
                SWI_Pending s' \<and>
                NextTCB s' = Some (hd ((rl(Priority (TCBs s w) := rl (Priority (TCBs s w)) @ [w]))
                                         (OS_GetTopPrio (g_PrioMap s')))) \<and>
                (\<forall>x. x \<noteq> w \<longrightarrow> State (TCBs s' x) = State (TCBs s x)))"
    by blast
  have "\<forall>a. Buffer (Queues s' i) a =
                  (if unat (Q_Head (Queues s i)) * unat (MsgSize (Queues s i)) \<le> a \<and>
                      a < unat (Q_Head (Queues s i)) * unat (MsgSize (Queues s i)) + unat (MsgSize (Queues s i))
                   then msg (a - unat (Q_Head (Queues s i)) * unat (MsgSize (Queues s i)))
                   else Buffer (Queues s i) a)"
    by (simp add: b memcpy_at_def)
  with r rest
  show "\<exists>s'. OS_QueueSend (Some i) (Some msg) s = Inr (OS_OK, s') \<and>
           (\<forall>a. Buffer (Queues s' i) a =
                  (if unat (Q_Head (Queues s i)) * unat (MsgSize (Queues s i)) \<le> a \<and>
                      a < unat (Q_Head (Queues s i)) * unat (MsgSize (Queues s i)) + unat (MsgSize (Queues s i))
                   then msg (a - unat (Q_Head (Queues s i)) * unat (MsgSize (Queues s i)))
                   else Buffer (Queues s i) a)) \<and>
           unat (Q_Head (Queues s' i)) =
             (unat (Q_Head (Queues s i)) + 1) mod unat (QSize (Queues s i)) \<and>
           unat (MsgCount (Queues s' i)) = unat (MsgCount (Queues s i)) + 1 \<and>
           MsgSize (Queues s' i) = MsgSize (Queues s i) \<and> QSize (Queues s' i) = QSize (Queues s i) \<and>
           Q_Tail (Queues s' i) = Q_Tail (Queues s i) \<and>
           CurrentTCB s' = CurrentTCB s \<and> g_CriticalNesting s' = g_CriticalNesting s \<and>
           (case ws of
              [] \<Rightarrow> WaitReadList (Queues s' i) = WaitReadList (Queues s i) \<and> TCBs s' = TCBs s \<and>
                    ReadyList s' = ReadyList s \<and> g_PrioMap s' = g_PrioMap s \<and>
                    SWI_Pending s' = SWI_Pending s \<and> NextTCB s' = NextTCB s
            | w # ws' \<Rightarrow>
                dll (TCBs s') (WaitReadList (Queues s' i)) ws' \<and>
                State (TCBs s' w) = TASK_READY \<and>
                ready_ok s' (rl(Priority (TCBs s w) := rl (Priority (TCBs s w)) @ [w])) \<and>
                SWI_Pending s' \<and>
                NextTCB s' = Some (hd ((rl(Priority (TCBs s w) := rl (Priority (TCBs s w)) @ [w]))
                                         (OS_GetTopPrio (g_PrioMap s')))) \<and>
                (\<forall>x. x \<noteq> w \<longrightarrow> State (TCBs s' x) = State (TCBs s x)))"
    by blast
qed

lemma waiting_task_1:
  "TCBs waiting (Suc 0) =
     \<lparr>stackPtr = 0x20001180, stackLimit = 0x20001000, Prev = None, Next = None,
      State = TASK_BLOCKED, DelayTicks = 0, Priority = 8, OriginalPrio = 8\<rparr>"
  by (simp add: waiting_def)

lemma waiting_queue_fields:
  "MsgCount (Queues waiting 0) = 0" "QSize (Queues waiting 0) = 2" "MsgSize (Queues waiting 0) = 4"
  "Q_Head (Queues waiting 0) = 0" "Q_Tail (Queues waiting 0) = 0"
  "WaitReadList (Queues waiting 0) = \<lparr>Head = Some 1, Tail = Some 1\<rparr>"
  "Buffer (Queues waiting 0) = (\<lambda>a. 0)"
  "Priority (TCBs waiting 1) = 8" "Prev (TCBs waiting 1) = None" "Next (TCBs waiting 1) = None"
  "CurrentTCB waiting = Some 3" "State (TCBs waiting 3) = TASK_READY" "g_CriticalNesting waiting = 0"
  "IRQ_Enabled waiting"
  by (simp_all add: waiting_def boot_def)

lemma full_queue_fields:
  "MsgCount (Queues full_queue 0) = 2" "QSize (Queues full_queue 0) = 2"
  "WaitReadList (Queues full_queue 0) = \<lparr>Head = Some 1, Tail = Some 1\<rparr>"
  "TCBs full_queue = TCBs waiting" "g_CriticalNesting full_queue = 0" "IRQ_Enabled full_queue"
  by (simp_all add: full_queue_def waiting_def boot_def)

theorem OS_QueueSend_example:
  "OS_QueueSend (Some 0) (Some (\<lambda>a. 7)) full_queue = Inr (OS_ERR_Q_FULL, full_queue) \<and>
   (\<exists>s'. OS_QueueSend (Some 0) (Some (\<lambda>a. 7)) waiting = Inr (OS_OK, s') \<and>
         Buffer (Queues s' 0) 3 = 7 \<and> Buffer (Queues s' 0) 4 = 0 \<and>
         unat (Q_Head (Queues s' 0)) = 1 \<and> unat (MsgCount (Queues s' 0)) = 1 \<and>
         State (TCBs s' 1) = TASK_READY \<and> Head (WaitReadList (Queues s' 0)) = None \<and>
         SWI_Pending s' \<and> CurrentTCB s' = Some 3 \<and> State (TCBs s' 3) = TASK_READY)"
proof -
  have nest: "g_CriticalNesting full_queue + 1 \<noteq> 0" by (simp add: full_queue_fields)
  have inv: "MsgCount (Queues full_queue 0) \<le> QSize (Queues full_queue 0)"
    by (simp add: full_queue_fields)
  have wl: "dll (TCBs full_queue) (WaitReadList (Queues full_queue 0)) [1]"
    by (simp add: full_queue_def waiting_def boot_def dll_def)
  have wp: "\<forall>w\<in>set [1]. Priority (TCBs full_queue w) < OS_MAX_PRIO \<and>
              (\<forall>q<OS_MAX_PRIO. w \<notin> set (waiting_ready q))"
    by (simp add: full_queue_fields waiting_task_1 waiting_ready_def OS_MAX_PRIO_def)
  have e: "full_queue\<lparr>IRQ_Enabled := True\<rparr> = full_queue"
    using full_queue_fields(6) by simp
  have a: "OS_QueueSend (Some 0) (Some (\<lambda>a. 7)) full_queue = Inr (OS_ERR_Q_FULL, full_queue)"
    using OS_QueueSend_effects[OF nest inv ready_ok_full_queue wl wp, where msg = "\<lambda>a. 7"] e
    by (simp add: full_queue_fields)
  have nest': "g_CriticalNesting waiting + 1 \<noteq> 0" by (simp add: waiting_queue_fields)
  have inv': "MsgCount (Queues waiting 0) \<le> QSize (Queues waiting 0)"
    by (simp add: waiting_queue_fields)
  have wl': "dll (TCBs waiting) (WaitReadList (Queues waiting 0)) [1]"
    by (simp add: waiting_def boot_def dll_def)
  have wp': "\<forall>w\<in>set [1]. Priority (TCBs waiting w) < OS_MAX_PRIO \<and>
              (\<forall>q<OS_MAX_PRIO. w \<notin> set (waiting_ready q))"
    by (simp add: waiting_task_1 waiting_ready_def OS_MAX_PRIO_def)
  have b: "\<exists>s'. OS_QueueSend (Some 0) (Some (\<lambda>a. 7)) waiting = Inr (OS_OK, s') \<and>
         Buffer (Queues s' 0) 3 = 7 \<and> Buffer (Queues s' 0) 4 = 0 \<and>
         unat (Q_Head (Queues s' 0)) = 1 \<and> unat (MsgCount (Queues s' 0)) = 1 \<and>
         State (TCBs s' 1) = TASK_READY \<and> Head (WaitReadList (Queues s' 0)) = None \<and>
         SWI_Pending s' \<and> CurrentTCB s' = Some 3 \<and> State (TCBs s' 3) = TASK_READY"
    using OS_QueueSend_effects[OF nest' inv' ready_ok_waiting wl' wp', where msg = "\<lambda>a. 7"]
    by (auto simp: waiting_queue_fields waiting_task_1 dll_def memcpy_at_def)
  from a b show ?thesis by blast
qed

text \<open>
  Claim C10. \<open>OS_QueueReceiveFromISR\<close> returns \<open>OS_ERR_RESOURCE\<close> and changes nothing
  when the queue's count is zero; otherwise it returns \<open>OS_OK\<close>, the caller's buffer
  holds the \<open>MsgSize\<close> bytes of slot \<open>Tail\<close>, \<open>Tail\<close> advances modulo \<open>QSize\<close> and the
  count is one less. In every case it returns, and no task, list or scheduling variable
  changes: the caller is not suspended.
\<close>

theorem C10_QueueReceiveFromISR:
  "(MsgCount (Queues s i) = 0 \<longrightarrow>
      OS_QueueReceiveFromISR (Some i) (Some buf) s = (OS_ERR_RESOURCE, Some buf, s)) \<and>
   (MsgCount (Queues s i) \<noteq> 0 \<longrightarrow>
      (\<exists>buf' s'. OS_QueueReceiveFromISR (Some i) (Some buf) s = (OS_OK, Some buf', s') \<and>
         (\<forall>a < unat (MsgSize (Queues s i)).
            buf' a = Buffer (Queues s i) (unat (Q_Tail (Queues s i)) * unat (MsgSize (Queues s i)) + a)) \<and>
         (\<forall>a \<ge> unat (MsgSize (Queues s i)). buf' a = buf a) \<and>
         (QSize (Queues s i) \<noteq> 0 \<longrightarrow>
            unat (Q_Tail (Queues s' i)) = (unat (Q_Tail (Queues s i)) + 1) mod unat (QSize (Queues s i))) \<and>
         unat (MsgCount (Queues s' i)) = unat (MsgCount (Queues s i)) - 1 \<and>
         Buffer (Queues s' i) = Buffer (Queues s i) \<and> Q_Head (Queues s' i) = Q_Head (Queues s i) \<and>
         WaitReadList (Queues s' i) = WaitReadList (Queues s i) \<and>
         TCBs s' = TCBs s \<and> ReadyList s' = ReadyList s \<and> g_PrioMap s' = g_PrioMap s \<and>
         CurrentTCB s' = CurrentTCB s \<and> NextTCB s' = NextTCB s \<and>
         SWI_Pending s' = SWI_Pending s \<and> IRQ_Enabled s' = IRQ_Enabled s \<and>
         g_CriticalNesting s' = g_CriticalNesting s))"
proof (intro conjI impI)
  assume "MsgCount (Queues s i) = 0"
  then show "OS_QueueReceiveFromISR (Some i) (Some buf) s = (OS_ERR_RESOURCE, Some buf, s)"
    by (simp add: OS_QueueReceiveFromISR_def)
next
  assume nz: "MsgCount (Queues s i) \<noteq> 0"
  have c: "unat (MsgCount (Queues s i) - 1) = unat (MsgCount (Queues s i)) - 1"
    using nz by (simp add: unat_minus_one)
  have t: "QSize (Queues s i) \<noteq> 0 \<Longrightarrow>
      unat (of_nat ((unat (Q_Tail (Queues s i)) + 1) mod unat (QSize (Queues s i))) :: 16 word) =
      (unat (Q_Tail (Queues s i)) + 1) mod unat (QSize (Queues s i))"
    by (rule queue_head_advance)
  show "\<exists>buf' s'. OS_QueueReceiveFromISR (Some i) (Some buf) s = (OS_OK, Some buf', s') \<and>
         (\<forall>a < unat (MsgSize (Queues s i)).
            buf' a = Buffer (Queues s i) (unat (Q_Tail (Queues s i)) * unat (MsgSize (Queues s i)) + a)) \<and>
         (\<forall>a \<ge> unat (MsgSize (Queues s i)). buf' a = buf a) \<and>
         (QSize (Queues s i) \<noteq> 0 \<longrightarrow>
            unat (Q_Tail (Queues s' i)) = (unat (Q_Tail (Queues s i)) + 1) mod unat (QSize (Queues s i))) \<and>
         unat (MsgCount (Queues s' i)) = unat (MsgCount (Queues s i)) - 1 \<and>
         Buffer (Queues s' i) = Buffer (Queues s i) \<and> Q_Head (Queues s' i) = Q_Head (Queues s i) \<and>
         WaitReadList (Queues s' i) = WaitReadList (Queues s i) \<and>
         TCBs s' = TCBs s \<and> ReadyList s' = ReadyList s \<and> g_PrioMap s' = g_PrioMap s \<and>
         CurrentTCB s' = CurrentTCB s \<and> NextTCB s' = NextTCB s \<and>
         SWI_Pending s' = SWI_Pending s \<and> IRQ_Enabled s' = IRQ_Enabled s \<and>
         g_CriticalNesting s' = g_CriticalNesting s"
    using nz c t by (simp add: OS_QueueReceiveFromISR_def Let_def)
qed

theorem C10_QueueReceiveFromISR_witness:
  "OS_QueueReceiveFromISR (Some 0) (Some (\<lambda>a. 9)) waiting = (OS_ERR_RESOURCE, Some (\<lambda>a. 9), waiting) \<and>
   (\<exists>buf' s'. OS_QueueReceiveFromISR (Some 0) (Some (\<lambda>a. 9)) full_queue = (OS_OK, Some buf', s') \<and>
       buf' 0 = 0 \<and> buf' 4 = 9 \<and> unat (Q_Tail (Queues s' 0)) = 1 \<and>
       unat (MsgCount (Queues s' 0)) = 1 \<and> CurrentTCB s' = Some 3)"
proof -
  have a: "OS_QueueReceiveFromISR (Some 0) (Some (\<lambda>a. 9)) waiting = (OS_ERR_RESOURCE, Some (\<lambda>a. 9), waiting)"
    using C10_QueueReceiveFromISR[of waiting 0 "\<lambda>a. 9"] by (simp add: waiting_queue_fields)
  have f: "MsgSize (Queues full_queue 0) = 4" "Q_Tail (Queues full_queue 0) = 0"
    "Buffer (Queues full_queue 0) = (\<lambda>a. 0)" "CurrentTCB full_queue = Some 3"
    by (simp_all add: full_queue_def waiting_def boot_def)
  have b: "\<exists>buf' s'. OS_QueueReceiveFromISR (Some 0) (Some (\<lambda>a. 9)) full_queue = (OS_OK, Some buf', s') \<and>
       buf' 0 = 0 \<and> buf' 4 = 9 \<and> unat (Q_Tail (Queues s' 0)) = 1 \<and>
       unat (MsgCount (Queues s' 0)) = 1 \<and> CurrentTCB s' = Some 3"
    using C10_QueueReceiveFromISR[of full_queue 0 "\<lambda>a. 9"]
    by (auto simp: full_queue_fields f)
  from a b show ?thesis by blast
qed

section \<open>Delay list: the wake loop of the tick handler\<close>

lemma seg_append_if:
  "seg h p (as @ bs) q =
     (seg h p as (if bs = [] then q else Some (hd bs)) \<and>
      seg h (if as = [] then p else Some (last as)) bs q)"
  by (cases as; cases bs) (auto simp: seg_append list.case_eq_if)

text \<open>Inserting a node between two adjacent segments.\<close>

lemma seg_insert:
  assumes sg: "seg h p (as @ bs) q" and dist: "distinct (as @ bs)" and c: "c \<notin> set (as @ bs)"
    and other: "\<And>x. x \<in> set as \<union> set bs \<Longrightarrow> (as = [] \<or> x \<noteq> last as) \<Longrightarrow> (bs = [] \<or> x \<noteq> hd bs) \<Longrightarrow>
                  Prev (h' x) = Prev (h x) \<and> Next (h' x) = Next (h x)"
    and pred: "as \<noteq> [] \<Longrightarrow> Next (h' (last as)) = Some c \<and> Prev (h' (last as)) = Prev (h (last as))"
    and succ: "bs \<noteq> [] \<Longrightarrow> Prev (h' (hd bs)) = Some c \<and> Next (h' (hd bs)) = Next (h (hd bs))"
    and new: "Prev (h' c) = (if as = [] then p else Some (last as))"
             "Next (h' c) = (if bs = [] then q else Some (hd bs))"
  shows "seg h' p (as @ c # bs) q"
proof -
  from sg have sa: "seg h p as (if bs = [] then q else Some (hd bs))"
    and sb: "seg h (if as = [] then p else Some (last as)) bs q"
    by (simp_all add: seg_append_if)
  have A: "seg h' p as (Some c)"
  proof (cases as rule: rev_cases)
    case Nil
    then show ?thesis by simp
  next
    case (snoc as' a)
    from sa snoc have 1: "seg h p as' (Some a)"
      and 2: "Prev (h a) = (if as' = [] then p else Some (last as'))"
      by (auto simp: seg_append_if)
    have "seg h' p as' (Some a) = seg h p as' (Some a)"
    proof (rule seg_cong)
      fix x assume x: "x \<in> set as'"
      then have "x \<noteq> a" using dist snoc by auto
      moreover have "bs = [] \<or> x \<noteq> hd bs" using dist snoc x by (cases bs) auto
      ultimately show "Prev (h' x) = Prev (h x) \<and> Next (h' x) = Next (h x)"
        using other[of x] x snoc by auto
    qed
    then show ?thesis using 1 2 pred snoc by (auto simp: seg_append_if)
  qed
  have B: "seg h' (Some c) bs q"
  proof (cases bs)
    case Nil
    then show ?thesis by simp
  next
    case (Cons b bs')
    from sb Cons have 1: "seg h (Some b) bs' q"
      and 2: "Next (h b) = (if bs' = [] then q else Some (hd bs'))"
      by (cases bs'; auto)+
    have "seg h' (Some b) bs' q = seg h (Some b) bs' q"
    proof (rule seg_cong)
      fix x assume x: "x \<in> set bs'"
      then have "x \<noteq> b" using dist Cons by auto
      moreover have "as = [] \<or> x \<noteq> last as" using dist Cons x by (cases as rule: rev_cases) auto
      ultimately show "Prev (h' x) = Prev (h x) \<and> Next (h' x) = Next (h x)"
        using other[of x] x Cons by auto
    qed
    then show ?thesis using 1 2 succ Cons by (cases bs'; auto)
  qed
  have "seg h' p (as @ (c # bs)) q"
    unfolding seg_append_if[of h' p as "c # bs" q] using A B new by (simp add: list.case_eq_if)
  then show ?thesis by simp
qed

section \<open>Delay processing of the tick handler\<close>

text \<open>
  The effect of waking the tasks \<open>E\<close>, a prefix of the delay list \<open>xs\<close>, from state
  \<open>s\<close> with ready set \<open>rl\<close>: the delay list holds the rest of \<open>xs\<close>, every task of
  \<open>E\<close> is ready and stands at the end of the ready list of its priority, in the order of
  \<open>E\<close>, and nothing else changes for any task.
\<close>

definition wake_effect :: "kernel \<Rightarrow> (nat \<Rightarrow> nat list) \<Rightarrow> nat list \<Rightarrow> nat list \<Rightarrow> kernel \<Rightarrow> bool" where
  "wake_effect s rl xs E s' =
     (dll (TCBs s') (DelayList s') (drop (length E) xs) \<and>
      ready_ok s' (\<lambda>p. rl p @ filter (\<lambda>w. Priority (TCBs s w) = p) E) \<and>
      (\<forall>w\<in>set E. State (TCBs s' w) = TASK_READY) \<and>
      (\<forall>x. x \<notin> set E \<longrightarrow> State (TCBs s' x) = State (TCBs s x)) \<and>
      (\<forall>x. DelayTicks (TCBs s' x) = DelayTicks (TCBs s x) \<and>
           Priority (TCBs s' x) = Priority (TCBs s x)) \<and>
      CurrentTCB s' = CurrentTCB s)"

lemma Tick_WakeLoop_ok:
  assumes d: "dll (TCBs s) (DelayList s) xs" and ok: "ready_ok s rl"
    and fr: "\<forall>x\<in>set xs. Priority (TCBs s x) < OS_MAX_PRIO \<and> (\<forall>q<OS_MAX_PRIO. x \<notin> set (rl q))"
  shows "\<exists>s'. Tick_WakeLoop s =
                Some (if takeWhile (\<lambda>x. DelayTicks (TCBs s x) = 0) xs = xs
                      then Inl (NullDeref, s') else Inr s') \<and>
              wake_effect s rl xs (takeWhile (\<lambda>x. DelayTicks (TCBs s x) = 0) xs) s'"
  using d ok fr
proof (induction xs arbitrary: s rl)
  case Nil
  then have "Head (DelayList s) = None" by (simp add: dll_def)
  then have "Tick_WakeLoop s = Some (Inl (NullDeref, s))" by (rule Tick_WakeLoop_null)
  moreover have "wake_effect s rl [] [] s"
    using Nil by (simp add: wake_effect_def)
  ultimately show ?case by simp
next
  case (Cons x xs)
  have hd: "Head (DelayList s) = Some x" using Cons.prems(1) by (simp add: dll_def)
  show ?case
  proof (cases "DelayTicks (TCBs s x) = 0")
    case False
    then have "Tick_WakeLoop s = Some (Inr s)"
      using hd by (subst Tick_WakeLoop.simps) simp
    moreover have "wake_effect s rl (x # xs) [] s"
      using Cons.prems by (simp add: wake_effect_def)
    ultimately show ?thesis using False by simp
  next
    case True
    let ?p = "Priority (TCBs s x)"
    have d1: "dll (TCBs s) (get_list DelayRef s) (x # xs)" using Cons.prems(1) by simp
    have p: "?p < OS_MAX_PRIO" using Cons.prems(3) by simp
    have fresh: "\<forall>q<OS_MAX_PRIO. set (x # xs) \<inter> set (rl q) = {}" using Cons.prems(3) by auto
    from wake_ok[OF Cons.prems(2) d1 _ refl p fresh] obtain L1 L2 h1 h2 where
      e1: "List_PopHead DelayRef s = Inr (Some x, put_list DelayRef L1 (s\<lparr>TCBs := h1\<rparr>))"
      and e2: "OS_ReadyListAdd (Some x) (set_State x TASK_READY (put_list DelayRef L1 (s\<lparr>TCBs := h1\<rparr>))) =
                 Inr (put_list (ReadyRef ?p) L2 (put_list DelayRef L1
                        (s\<lparr>g_PrioMap := g_PrioMap s OR push_bit ?p 1, TCBs := h2\<rparr>)))"
      and ok2: "ready_ok (put_list (ReadyRef ?p) L2 (put_list DelayRef L1
                        (s\<lparr>g_PrioMap := g_PrioMap s OR push_bit ?p 1, TCBs := h2\<rparr>)))
                  (rl(?p := rl ?p @ [x]))"
      and d2: "dll h2 L1 xs" and st: "State (h2 x) = TASK_READY"
      and sto: "\<forall>y. y \<noteq> x \<longrightarrow> State (h2 y) = State (TCBs s y)"
      and fl: "\<forall>y. Priority (h2 y) = Priority (TCBs s y) \<and> DelayTicks (h2 y) = DelayTicks (TCBs s y) \<and>
                OriginalPrio (h2 y) = OriginalPrio (TCBs s y) \<and> stackPtr (h2 y) = stackPtr (TCBs s y) \<and>
                stackLimit (h2 y) = stackLimit (TCBs s y)"
      by auto
    let ?s2 = "put_list (ReadyRef ?p) L2 (put_list DelayRef L1
                        (s\<lparr>g_PrioMap := g_PrioMap s OR push_bit ?p 1, TCBs := h2\<rparr>))"
    let ?rl2 = "rl(?p := rl ?p @ [x])"
    have step: "Tick_WakeLoop s = Tick_WakeLoop ?s2"
      using hd True e1 e2 by (subst Tick_WakeLoop.simps) simp
    have xx: "x \<notin> set xs" using Cons.prems(1) by (simp add: dll_def)
    have dd: "dll (TCBs ?s2) (DelayList ?s2) xs" using d2 by simp
    have fr2: "\<forall>y\<in>set xs. Priority (TCBs ?s2 y) < OS_MAX_PRIO \<and> (\<forall>q<OS_MAX_PRIO. y \<notin> set (?rl2 q))"
      using Cons.prems(3) fl xx by auto
    from Cons.IH[OF dd ok2 fr2] obtain s' where
      r: "Tick_WakeLoop ?s2 =
            Some (if takeWhile (\<lambda>y. DelayTicks (TCBs ?s2 y) = 0) xs = xs
                  then Inl (NullDeref, s') else Inr s')"
      and w: "wake_effect ?s2 ?rl2 xs (takeWhile (\<lambda>y. DelayTicks (TCBs ?s2 y) = 0) xs) s'"
      by blast
    let ?E = "takeWhile (\<lambda>y. DelayTicks (TCBs s y) = 0) xs"
    have tw: "takeWhile (\<lambda>y. DelayTicks (TCBs ?s2 y) = 0) xs = ?E"
      using fl by simp
    have twx: "takeWhile (\<lambda>y. DelayTicks (TCBs s y) = 0) (x # xs) = x # ?E"
      using True by simp
    have xE: "x \<notin> set ?E" using xx by (auto dest: set_takeWhileD)
    have rleq: "(\<lambda>q. ?rl2 q @ filter (\<lambda>w. Priority (TCBs ?s2 w) = q) ?E) =
                (\<lambda>q. rl q @ filter (\<lambda>w. Priority (TCBs s w) = q) (x # ?E))"
      using fl by (auto simp: fun_eq_iff)
    have "wake_effect s rl (x # xs) (x # ?E) s'"
      using w st sto fl xE unfolding wake_effect_def tw rleq
      by auto
    moreover have "Tick_WakeLoop s =
        Some (if takeWhile (\<lambda>y. DelayTicks (TCBs s y) = 0) (x # xs) = x # xs
              then Inl (NullDeref, s') else Inr s')"
      unfolding step r tw twx by simp
    ultimately show ?thesis unfolding twx by blast
  qed
qed

text \<open>The delta of task \<open>x\<close> after the tick handler has decremented the head of \<open>xs\<close>.\<close>

definition ticked :: "(nat \<Rightarrow> OS_TCB) \<Rightarrow> nat list \<Rightarrow> nat \<Rightarrow> 32 word" where
  "ticked h xs x =
     (if xs \<noteq> [] \<and> x = hd xs \<and> DelayTicks (h x) > 0 then DelayTicks (h x) - 1
      else DelayTicks (h x))"

lemma Tick_DelayList_ok:
  assumes d: "dll (TCBs s) (DelayList s) xs" and ne: "xs \<noteq> []" and ok: "ready_ok s rl"
    and fr: "\<forall>x\<in>set xs. Priority (TCBs s x) < OS_MAX_PRIO \<and> (\<forall>q<OS_MAX_PRIO. x \<notin> set (rl q))"
  shows "\<exists>s'. Tick_DelayList s =
                Some (if takeWhile (\<lambda>x. ticked (TCBs s) xs x = 0) xs = xs
                      then Inl (NullDeref, s') else Inr s') \<and>
              (\<forall>x. DelayTicks (TCBs s' x) = ticked (TCBs s) xs x) \<and>
              dll (TCBs s') (DelayList s') (drop (length (takeWhile (\<lambda>x. ticked (TCBs s) xs x = 0) xs)) xs) \<and>
              ready_ok s' (\<lambda>p. rl p @ filter (\<lambda>w. Priority (TCBs s w) = p)
                                          (takeWhile (\<lambda>x. ticked (TCBs s) xs x = 0) xs)) \<and>
              (\<forall>w\<in>set (takeWhile (\<lambda>x. ticked (TCBs s) xs x = 0) xs). State (TCBs s' w) = TASK_READY) \<and>
              (\<forall>x. x \<notin> set (takeWhile (\<lambda>x. ticked (TCBs s) xs x = 0) xs) \<longrightarrow>
                   State (TCBs s' x) = State (TCBs s x)) \<and>
              (\<forall>x. Priority (TCBs s' x) = Priority (TCBs s x)) \<and>
              CurrentTCB s' = CurrentTCB s"
proof -
  obtain h where hd: "Head (DelayList s) = Some h" and h: "h = hd xs"
    using d ne by (simp add: dll_def)
  let ?s1 = "if DelayTicks (TCBs s h) > 0 then set_DelayTicks h (DelayTicks (TCBs s h) - 1) s else s"
  have e: "Tick_DelayList s = Tick_WakeLoop ?s1" using hd by (simp add: Tick_DelayList_def)
  have dt: "\<And>x. DelayTicks (TCBs ?s1 x) = ticked (TCBs s) xs x"
    using ne h by (simp add: ticked_def set_DelayTicks_def)
  have same: "\<And>x. Prev (TCBs ?s1 x) = Prev (TCBs s x) \<and> Next (TCBs ?s1 x) = Next (TCBs s x) \<and>
                 Priority (TCBs ?s1 x) = Priority (TCBs s x) \<and> State (TCBs ?s1 x) = State (TCBs s x)"
    by (simp add: set_DelayTicks_def)
  have d1: "dll (TCBs ?s1) (DelayList ?s1) xs"
  proof -
    have "seg (TCBs ?s1) None xs None = seg (TCBs s) None xs None"
      using same by (intro seg_cong) simp
    moreover have "DelayList ?s1 = DelayList s" by (simp add: set_DelayTicks_def)
    ultimately show ?thesis using d by (simp add: dll_def)
  qed
  have ok1: "ready_ok ?s1 rl"
    by (rule ready_ok_cong[OF ok]) (simp_all add: set_DelayTicks_def)
  have fr1: "\<forall>x\<in>set xs. Priority (TCBs ?s1 x) < OS_MAX_PRIO \<and> (\<forall>q<OS_MAX_PRIO. x \<notin> set (rl q))"
    using fr same by simp
  from Tick_WakeLoop_ok[OF d1 ok1 fr1] obtain s' where
    r: "Tick_WakeLoop ?s1 =
          Some (if takeWhile (\<lambda>x. DelayTicks (TCBs ?s1 x) = 0) xs = xs
                then Inl (NullDeref, s') else Inr s')"
    and w: "wake_effect ?s1 rl xs (takeWhile (\<lambda>x. DelayTicks (TCBs ?s1 x) = 0) xs) s'"
    by blast
  have tw: "takeWhile (\<lambda>x. DelayTicks (TCBs ?s1 x) = 0) xs = takeWhile (\<lambda>x. ticked (TCBs s) xs x = 0) xs"
    using dt by simp
  have pf: "(\<lambda>p. rl p @ filter (\<lambda>w. Priority (TCBs ?s1 w) = p) (takeWhile (\<lambda>x. ticked (TCBs s) xs x = 0) xs)) =
            (\<lambda>p. rl p @ filter (\<lambda>w. Priority (TCBs s w) = p) (takeWhile (\<lambda>x. ticked (TCBs s) xs x = 0) xs))"
    using same by simp
  have c1: "CurrentTCB ?s1 = CurrentTCB s" by (simp add: set_DelayTicks_def)
  show ?thesis
    apply (rule exI[of _ s'])
    using r w same dt c1 unfolding e tw wake_effect_def pf
    by simp
qed


text \<open>
  The idle task runs with its stack sentinel in place; tasks 1 and 2 (priority 4) and
  task 3 (priority 6) sleep on the delay list in that order, with deltas 1, 0 and 5:
  tasks 1 and 2 are due on the next tick, task 3 five ticks after them.
\<close>

definition sleeping :: kernel where
  "sleeping = boot
     \<lparr>TCBs := zero_TCBs
        (0 := \<lparr>stackPtr = 0x20000180, stackLimit = 0x20000000, Prev = None, Next = None,
               State = TASK_READY, DelayTicks = 0, Priority = 31, OriginalPrio = 31\<rparr>,
         1 := \<lparr>stackPtr = 0x20001180, stackLimit = 0x20001000, Prev = None, Next = Some 2,
               State = TASK_BLOCKED, DelayTicks = 1, Priority = 4, OriginalPrio = 4\<rparr>,
         2 := \<lparr>stackPtr = 0x20002180, stackLimit = 0x20002000, Prev = Some 1, Next = Some 3,
               State = TASK_BLOCKED, DelayTicks = 0, Priority = 4, OriginalPrio = 4\<rparr>,
         3 := \<lparr>stackPtr = 0x20003180, stackLimit = 0x20003000, Prev = Some 2, Next = None,
               State = TASK_BLOCKED, DelayTicks = 5, Priority = 6, OriginalPrio = 6\<rparr>),
      StackMem := zero_words(0x20000000 := OS_STACK_MAGIC_VAL),
      g_PrioMap := push_bit 31 1,
      g_OSRunning := True,
      ReadyList := (ReadyList boot)(31 := \<lparr>Head = Some 0, Tail = Some 0\<rparr>),
      DelayList := \<lparr>Head = Some 1, Tail = Some 3\<rparr>,
      CurrentTCB := Some 0, NextTCB := Some 0, IRQ_Enabled := True\<rparr>"

definition sleeping_ready :: "nat \<Rightarrow> nat list" where
  "sleeping_ready = (\<lambda>p. [])(31 := [0])"

lemma one_bit: "bit ((2::32 word) ^ a) p = (p < 32 \<and> p = a)"
  by (auto simp: bit_exp_iff)

lemma ready_ok_sleeping: "ready_ok sleeping sleeping_ready"
  unfolding ready_ok_def
proof (intro allI impI)
  fix p assume "p < OS_MAX_PRIO"
  then have p: "p < 32" by (simp add: OS_MAX_PRIO_def)
  have "g_PrioMap sleeping = 2 ^ 31" by (simp add: sleeping_def)
  then have b: "bit (g_PrioMap sleeping) p = (p = 31)"
    using p by (simp only: one_bit) simp
  have "dll (TCBs sleeping) (ReadyList sleeping p) (sleeping_ready p) \<and>
        (\<forall>t\<in>set (sleeping_ready p). Priority (TCBs sleeping t) = p)"
    by (simp add: sleeping_def sleeping_ready_def boot_def dll_def)
  moreover have "(sleeping_ready p \<noteq> []) = (p = 31)"
    by (simp add: sleeping_ready_def)
  ultimately show "dll (TCBs sleeping) (ReadyList sleeping p) (sleeping_ready p) \<and>
        (\<forall>t\<in>set (sleeping_ready p). Priority (TCBs sleeping t) = p) \<and>
        bit (g_PrioMap sleeping) p = (sleeping_ready p \<noteq> [])"
    using b by simp
qed

lemma sleeping_fields:
  "g_OSRunning sleeping" "CurrentTCB sleeping = Some 0"
  "TCBs sleeping 0 = \<lparr>stackPtr = 0x20000180, stackLimit = 0x20000000, Prev = None, Next = None,
               State = TASK_READY, DelayTicks = 0, Priority = 31, OriginalPrio = 31\<rparr>"
  "TCBs sleeping (Suc 0) = \<lparr>stackPtr = 0x20001180, stackLimit = 0x20001000, Prev = None, Next = Some 2,
               State = TASK_BLOCKED, DelayTicks = 1, Priority = 4, OriginalPrio = 4\<rparr>"
  "TCBs sleeping 2 = \<lparr>stackPtr = 0x20002180, stackLimit = 0x20002000, Prev = Some 1, Next = Some 3,
               State = TASK_BLOCKED, DelayTicks = 0, Priority = 4, OriginalPrio = 4\<rparr>"
  "TCBs sleeping 3 = \<lparr>stackPtr = 0x20003180, stackLimit = 0x20003000, Prev = Some 2, Next = None,
               State = TASK_BLOCKED, DelayTicks = 5, Priority = 6, OriginalPrio = 6\<rparr>"
  "StackMem sleeping 0x20000000 = OS_STACK_MAGIC_VAL"
  "DelayList sleeping = \<lparr>Head = Some 1, Tail = Some 3\<rparr>"
  by (simp_all add: sleeping_def boot_def)

lemma dll_sleeping: "dll (TCBs sleeping) (DelayList sleeping) [1, 2, 3]"
  by (simp add: sleeping_fields dll_def)

text \<open>
  The tick handler on a state whose ready set is well formed (\<open>ready_ok\<close>), with the
  sleeping tasks on no ready list. On a tick that reaches the delay processing (scheduler
  running, stack sentinel
  of the interrupted task intact) with a non-empty, well-formed delay list \<open>xs\<close>: the
  handler subtracts one from the delta of the head of the list unless it is zero already,
  and no other delta changes (\<open>ticked\<close>); the tasks popped are exactly the longest
  prefix of \<open>xs\<close> whose deltas are then zero; each of them is \<open>TASK_READY\<close> afterwards and
  is appended to the ready list of its priority, in the order of \<open>xs\<close>; the rest of \<open>xs\<close>
  is the new delay list, and no other task changes state. When a task remains on the delay
  list the handler goes on to the scheduling step; when every task of the list was due,
  all of them have been made ready as described and the execution then stops at the read
  through the emptied list's head.
\<close>

theorem Tick_Handler_delay_processing:
  assumes run: "g_OSRunning s" and cur: "CurrentTCB s = Some c"
    and stk: "StackMem s (stackLimit (TCBs s c)) = OS_STACK_MAGIC_VAL"
             "stackLimit (TCBs s c) < stackPtr (TCBs s c)"
    and d: "dll (TCBs s) (DelayList s) xs" and ne: "xs \<noteq> []" and ok: "ready_ok s rl"
    and fr: "\<forall>x\<in>set xs. Priority (TCBs s x) < OS_MAX_PRIO \<and> (\<forall>q<OS_MAX_PRIO. x \<notin> set (rl q))"
  shows "\<exists>s'. OS_Tick_Handler s =
                Some (if takeWhile (\<lambda>x. ticked (TCBs s) xs x = 0) xs = xs
                      then Inl (NullDeref, s') else Tick_Schedule s') \<and>
              (\<forall>x. DelayTicks (TCBs s' x) = ticked (TCBs s) xs x) \<and>
              dll (TCBs s') (DelayList s') (drop (length (takeWhile (\<lambda>x. ticked (TCBs s) xs x = 0) xs)) xs) \<and>
              ready_ok s' (\<lambda>p. rl p @ filter (\<lambda>w. Priority (TCBs s w) = p)
                                          (takeWhile (\<lambda>x. ticked (TCBs s) xs x = 0) xs)) \<and>
              (\<forall>w\<in>set (takeWhile (\<lambda>x. ticked (TCBs s) xs x = 0) xs). State (TCBs s' w) = TASK_READY) \<and>
              (\<forall>x. x \<notin> set (takeWhile (\<lambda>x. ticked (TCBs s) xs x = 0) xs) \<longrightarrow>
                   State (TCBs s' x) = State (TCBs s x)) \<and>
              (\<forall>x. Priority (TCBs s' x) = Priority (TCBs s x)) \<and>
              CurrentTCB s' = CurrentTCB s"
proof -
  let ?s0 = "s\<lparr>g_SystemTickCount := g_SystemTickCount s + 1\<rparr>"
  have chk: "OS_CheckStackOverflow s = Inr s"
    using cur stk by (simp add: OS_CheckStackOverflow_def)
  have e: "OS_Tick_Handler s =
             (case Tick_DelayList ?s0 of None \<Rightarrow> None | Some (Inl e) \<Rightarrow> Some (Inl e)
              | Some (Inr s2) \<Rightarrow> Some (Tick_Schedule s2))"
    using run cur chk by (simp add: OS_Tick_Handler_def)
  have d0: "dll (TCBs ?s0) (DelayList ?s0) xs" using d by simp
  have ok0: "ready_ok ?s0 rl" by (rule ready_ok_cong[OF ok]) simp_all
  have fr0: "\<forall>x\<in>set xs. Priority (TCBs ?s0 x) < OS_MAX_PRIO \<and> (\<forall>q<OS_MAX_PRIO. x \<notin> set (rl q))"
    using fr by simp
  from Tick_DelayList_ok[OF d0 ne ok0 fr0] obtain s' where
    r: "Tick_DelayList ?s0 =
          Some (if takeWhile (\<lambda>x. ticked (TCBs s) xs x = 0) xs = xs
                then Inl (NullDeref, s') else Inr s')"
    and rest: "(\<forall>x. DelayTicks (TCBs s' x) = ticked (TCBs s) xs x) \<and>
              dll (TCBs s') (DelayList s') (drop (length (takeWhile (\<lambda>x. ticked (TCBs s) xs x = 0) xs)) xs) \<and>
              ready_ok s' (\<lambda>p. rl p @ filter (\<lambda>w. Priority (TCBs s w) = p)
                                          (takeWhile (\<lambda>x. ticked (TCBs s) xs x = 0) xs)) \<and>
              (\<forall>w\<in>set (takeWhile (\<lambda>x. ticked (TCBs s) xs x = 0) xs). State (TCBs s' w) = TASK_READY) \<and>
              (\<forall>x. x \<notin> set (takeWhile (\<lambda>x. ticked (TCBs s) xs x = 0) xs) \<longrightarrow>
                   State (TCBs s' x) = State (TCBs s x)) \<and>
              (\<forall>x. Priority (TCBs s' x) = Priority (TCBs s x)) \<and>
              CurrentTCB s' = CurrentTCB s"
    by auto
  have "OS_Tick_Handler s =
                Some (if takeWhile (\<lambda>x. ticked (TCBs s) xs x = 0) xs = xs
                      then Inl (NullDeref, s') else Tick_Schedule s')"
  proof (cases "takeWhile (\<lambda>x. ticked (TCBs s) xs x = 0) xs = xs")
    case True
    have "Tick_DelayList ?s0 = Some (Inl (NullDeref, s'))" using r unfolding if_P[OF True] .
    then show ?thesis unfolding e if_P[OF True] by (simp only: option.case sum.case)
  next
    case False
    have "Tick_DelayList ?s0 = Some (Inr s')" using r unfolding if_not_P[OF False] .
    then show ?thesis unfolding e if_not_P[OF False] by (simp only: option.case sum.case)
  qed
  with rest show ?thesis by blast
qed


theorem Tick_Handler_delay_example:
  "\<exists>s'. OS_Tick_Handler sleeping = Some (Tick_Schedule s') \<and>
         DelayTicks (TCBs s' 1) = 0 \<and> DelayTicks (TCBs s' 2) = 0 \<and> DelayTicks (TCBs s' 3) = 5 \<and>
         dll (TCBs s') (DelayList s') [3] \<and>
         dll (TCBs s') (ReadyList s' 4) [1, 2] \<and> bit (g_PrioMap s') 4 \<and>
         State (TCBs s' 1) = TASK_READY \<and> State (TCBs s' 2) = TASK_READY \<and>
         State (TCBs s' 3) = TASK_BLOCKED"
proof -
  have stk: "StackMem sleeping (stackLimit (TCBs sleeping 0)) = OS_STACK_MAGIC_VAL"
            "stackLimit (TCBs sleeping 0) < stackPtr (TCBs sleeping 0)"
    by (simp_all add: sleeping_fields)
  have fr: "\<forall>x\<in>set [1, 2, 3]. Priority (TCBs sleeping x) < OS_MAX_PRIO \<and>
              (\<forall>q<OS_MAX_PRIO. x \<notin> set (sleeping_ready q))"
    by (simp add: sleeping_fields sleeping_ready_def OS_MAX_PRIO_def)
  have t: "ticked (TCBs sleeping) [1, 2, 3] 1 = 0" "ticked (TCBs sleeping) [1, 2, 3] 2 = 0"
          "ticked (TCBs sleeping) [1, 2, 3] 3 = 5"
    by (simp_all add: ticked_def sleeping_fields)
  have tw: "takeWhile (\<lambda>x. ticked (TCBs sleeping) [1, 2, 3] x = 0) [1, 2, 3] = [1, 2]"
    unfolding takeWhile.simps t by simp
  from Tick_Handler_delay_processing[OF sleeping_fields(1,2) stk dll_sleeping _ ready_ok_sleeping fr]
  obtain s' where
    r: "OS_Tick_Handler sleeping = Some (Tick_Schedule s')"
    and dt: "\<forall>x. DelayTicks (TCBs s' x) = ticked (TCBs sleeping) [1, 2, 3] x"
    and dl: "dll (TCBs s') (DelayList s') [3]"
    and ok: "ready_ok s' (\<lambda>p. sleeping_ready p @ filter (\<lambda>w. Priority (TCBs sleeping w) = p) [1, 2])"
    and st: "State (TCBs s' 1) = TASK_READY" "State (TCBs s' 2) = TASK_READY"
    and sto: "\<forall>x. x \<notin> set [1, 2] \<longrightarrow> State (TCBs s' x) = State (TCBs sleeping x)"
    unfolding tw by auto
  have "4 < OS_MAX_PRIO" by (simp add: OS_MAX_PRIO_def)
  with ok have "dll (TCBs s') (ReadyList s' 4) [1, 2] \<and> bit (g_PrioMap s') 4"
    unfolding ready_ok_def by (auto simp: sleeping_ready_def sleeping_fields)
  moreover have "State (TCBs s' 3) = TASK_BLOCKED" using sto by (simp add: sleeping_fields)
  moreover have "DelayTicks (TCBs s' 1) = 0 \<and> DelayTicks (TCBs s' 2) = 0 \<and> DelayTicks (TCBs s' 3) = 5"
    using dt t by metis
  ultimately show ?thesis using r dl st by blast
qed

end
